(* ===== verification/Prelude.thy ===== *)
theory Prelude
  imports Complex_Main "HOL-Library.Word" "HOL-Library.Multiset" "HOL-Library.AList"
begin

text \<open>
  What every component of the model shares: names for the machine integers, byte strings,
  timestamps and identifiers of the Rust code; \<open>Ok\<close>/\<open>Err\<close> for \<open>Result\<close>; the pieces of the Rust
  standard library the code calls (\<open>str::split\<close>, \<open>str::trim\<close>, \<open>Iterator::position\<close>,
  \<open>starts_with\<close>, decimal \<open>Display\<close> of integers, \<open>Option::unwrap_or\<close>); generic facts about lists
  and association lists that several components use; and the collections of facts
  (\<open>port_laws\<close>, \<open>sql_defs\<close>, \<open>wire_defs\<close>) the component proofs rewrite with.
\<close>

named_theorems port_laws "laws of the repository ports"
named_theorems sql_defs "definitions of the SQL statements"
named_theorems wire_defs "definitions of the wire conversions"

section \<open>Machine integers, strings, identifiers\<close>

text \<open>Signed and unsigned Rust integers are words; \<open>sint\<close> reads the signed, \<open>unat\<close> the
  unsigned ones. A \<open>String\<close> is its UTF-8 bytes (\<open>char\<close> is a byte in HOL). A
  \<open>DateTime<Utc>\<close> is the number of microseconds since the epoch, the resolution of a Postgres
  \<open>timestamptz\<close>. A UUID is its 128 bits.\<close>

type_synonym i32 = "32 word"
type_synonym u32 = "32 word"
type_synonym i64 = "64 word"
type_synonym u64 = "64 word"
type_synonym u16 = "16 word"
type_synonym bytes = "8 word list"
type_synonym uuid = "128 word"
type_synonym timestamp = int

definition i32_max :: int where
  "i32_max = 2 ^ 31 - 1"

text \<open>\<open>DateTime::timestamp\<close>: whole seconds, rounded down, as an \<open>i64\<close>.\<close>

definition ts_seconds :: "timestamp \<Rightarrow> i64" where
  "ts_seconds t = word_of_int (t div 1000000)"

section \<open>Result and Option\<close>

abbreviation Ok :: "'a \<Rightarrow> 'e + 'a" where
  "Ok \<equiv> Inr"

abbreviation Err :: "'e \<Rightarrow> 'e + 'a" where
  "Err \<equiv> Inl"

definition is_ok :: "'e + 'a \<Rightarrow> bool" where
  "is_ok r = (case r of Ok _ \<Rightarrow> True | Err _ \<Rightarrow> False)"

definition map_err :: "('e \<Rightarrow> 'f) \<Rightarrow> 'e + 'a \<Rightarrow> 'f + 'a" where
  "map_err f r = (case r of Ok a \<Rightarrow> Ok a | Err e \<Rightarrow> Err (f e))"

definition map_ok :: "('a \<Rightarrow> 'b) \<Rightarrow> 'e + 'a \<Rightarrow> 'e + 'b" where
  "map_ok f r = (case r of Ok a \<Rightarrow> Ok (f a) | Err e \<Rightarrow> Err e)"

definition unwrap_or :: "'a option \<Rightarrow> 'a \<Rightarrow> 'a" where
  "unwrap_or v d = (case v of Some a \<Rightarrow> a | None \<Rightarrow> d)"

lemma is_ok_simps [simp]: "is_ok (Ok a)" "\<not> is_ok (Err e)"
  by (simp_all add: is_ok_def)

lemma map_err_simps [simp]: "map_err f (Ok a) = Ok a" "map_err f (Err e) = Err (f e)"
  by (simp_all add: map_err_def)

lemma map_ok_simps [simp]: "map_ok f (Ok a) = Ok (f a)" "map_ok f (Err e) = Err e"
  by (simp_all add: map_ok_def)

lemma unwrap_or_simps [simp]: "unwrap_or (Some a) d = a" "unwrap_or None d = d"
  by (simp_all add: unwrap_or_def)

lemma map_err_eq_Ok [simp]: "map_err f r = Ok a \<longleftrightarrow> r = Ok a"
  by (cases r) simp_all

lemma map_ok_eq_Ok [simp]: "map_ok f r = Ok b \<longleftrightarrow> (\<exists>a. r = Ok a \<and> b = f a)"
  by (cases r) auto

lemma map_err_eq_Err [simp]: "map_err f r = Err e \<longleftrightarrow> (\<exists>e'. r = Err e' \<and> e = f e')"
  by (cases r) auto

section \<open>JSON values\<close>

text \<open>The documented shape of \<open>serde_json::Value\<close>. Numbers are kept as their decimal text:
  no code under src/ computes with them. Reading and printing JSON is the library's own code and
  a parameter of the model (\<open>serde\<close> in theory Runtime).\<close>

datatype json =
    JNull
  | JBool bool
  | JNumber string
  | JString string
  | JArray "json list"
  | JObject "(string \<times> json) list"

text \<open>\<open>json!({})\<close>, \<open>Value::get\<close> with a string key, \<open>Value::as_str\<close>.\<close>

definition json_empty_object :: json where
  "json_empty_object = JObject []"

fun json_get :: "json \<Rightarrow> string \<Rightarrow> json option" where
  "json_get (JObject kvs) k = map_of kvs k"
| "json_get _ k = None"

fun json_as_str :: "json \<Rightarrow> string option" where
  "json_as_str (JString s) = Some s"
| "json_as_str _ = None"

section \<open>Strings\<close>

text \<open>\<open>Iterator::position\<close>.\<close>

fun position :: "('a \<Rightarrow> bool) \<Rightarrow> 'a list \<Rightarrow> nat option" where
  "position P [] = None"
| "position P (x # xs) = (if P x then Some 0 else map_option Suc (position P xs))"

lemma position_eq_Some:
  "position P xs = Some i \<longleftrightarrow> i < length xs \<and> P (xs ! i) \<and> (\<forall>j < i. \<not> P (xs ! j))"
proof (induction xs arbitrary: i)
  case Nil
  then show ?case by simp
next
  case (Cons x xs)
  show ?case
  proof (cases i)
    case 0
    then show ?thesis by (cases "position P xs") auto
  next
    case (Suc k)
    have "(\<forall>j < Suc k. \<not> P ((x # xs) ! j)) \<longleftrightarrow> \<not> P x \<and> (\<forall>j < k. \<not> P (xs ! j))"
      by (auto simp: less_Suc_eq_0_disj)
    with Suc Cons.IH [of k] show ?thesis by (cases "position P xs") auto
  qed
qed

lemma position_eq_None: "position P xs = None \<longleftrightarrow> (\<forall>x \<in> set xs. \<not> P x)"
  by (induction xs) auto

lemma position_char_hit: "c \<notin> set xs \<Longrightarrow> position (\<lambda>b. b = c) (xs @ c # ys) = Some (length xs)"
  by (induction xs) auto

lemma position_char_miss: "c \<notin> set xs \<Longrightarrow> position (\<lambda>b. b = c) xs = None"
  by (induction xs) auto

text \<open>\<open>str::split\<close> on one character, \<open>starts_with\<close>, \<open>str::trim\<close>. A string is its UTF-8 bytes.\<close>

fun split_on :: "char \<Rightarrow> string \<Rightarrow> string list" where
  "split_on c [] = [[]]"
| "split_on c (x # xs) =
     (if x = c then [] # split_on c xs
      else case split_on c xs of [] \<Rightarrow> [[x]] | s # ss \<Rightarrow> (x # s) # ss)"

fun starts_with :: "'a list \<Rightarrow> 'a list \<Rightarrow> bool" where
  "starts_with xs [] = True"
| "starts_with [] (p # ps) = False"
| "starts_with (x # xs) (p # ps) = (x = p \<and> starts_with xs ps)"

lemma starts_with_iff: "starts_with xs ps \<longleftrightarrow> (\<exists>ys. xs = ps @ ys)"
  by (induction xs ps rule: starts_with.induct) auto

lemma split_on_nonempty [simp]: "split_on c s \<noteq> []"
  by (induction s) (auto split: list.splits)

lemma split_on_no_sep: "p \<in> set (split_on c s) \<Longrightarrow> c \<notin> set p"
  by (induction s arbitrary: p) (auto split: if_splits list.splits)

lemma split_on_id: "c \<notin> set s \<Longrightarrow> split_on c s = [s]"
  by (induction s) auto

lemma split_on_append: "c \<notin> set s \<Longrightarrow> split_on c (s @ c # t) = s # split_on c t"
  by (induction s) auto

text \<open>The encodings of the characters with the Unicode property \<open>White_Space\<close>: tab to carriage return,
  space, U+0085, U+00A0, U+1680, U+2000 to U+200A, U+2028, U+2029, U+202F, U+205F and U+3000. No
  encoding of a character ends in the middle of another one's, so the end of a string can be stripped
  from the reversed encodings.\<close>

definition white_space :: "string list" where
  "white_space =
     [[CHR '' ''], [CHR 0x09], [CHR 0x0A], [CHR 0x0B], [CHR 0x0C], [CHR 0x0D],
      [CHR 0xC2, CHR 0x85], [CHR 0xC2, CHR 0xA0], [CHR 0xE1, CHR 0x9A, CHR 0x80],
      [CHR 0xE2, CHR 0x80, CHR 0x80], [CHR 0xE2, CHR 0x80, CHR 0x81], [CHR 0xE2, CHR 0x80, CHR 0x82],
      [CHR 0xE2, CHR 0x80, CHR 0x83], [CHR 0xE2, CHR 0x80, CHR 0x84], [CHR 0xE2, CHR 0x80, CHR 0x85],
      [CHR 0xE2, CHR 0x80, CHR 0x86], [CHR 0xE2, CHR 0x80, CHR 0x87], [CHR 0xE2, CHR 0x80, CHR 0x88],
      [CHR 0xE2, CHR 0x80, CHR 0x89], [CHR 0xE2, CHR 0x80, CHR 0x8A], [CHR 0xE2, CHR 0x80, CHR 0xA8],
      [CHR 0xE2, CHR 0x80, CHR 0xA9], [CHR 0xE2, CHR 0x80, CHR 0xAF], [CHR 0xE2, CHR 0x81, CHR 0x9F],
      [CHR 0xE3, CHR 0x80, CHR 0x80]]"

definition leading :: "string list \<Rightarrow> string \<Rightarrow> string option" where
  "leading ws s = List.find (\<lambda>w. w \<noteq> [] \<and> starts_with s w) ws"

lemma leading_Some: "leading ws s = Some w \<Longrightarrow> w \<noteq> [] \<and> (\<exists>t. s = w @ t)"
  by (auto simp: leading_def find_Some_iff starts_with_iff)

function strip :: "string list \<Rightarrow> string \<Rightarrow> string" where
  "strip ws s = (case leading ws s of None \<Rightarrow> s | Some w \<Rightarrow> strip ws (drop (length w) s))"
  by pat_completeness auto
termination by (relation "measure (\<lambda>(ws, s). length s)") (auto dest!: leading_Some)

declare strip.simps [simp del]

definition trim :: "string \<Rightarrow> string" where
  "trim s = rev (strip (map rev white_space) (rev (strip white_space s)))"

lemma strip_suffix: "\<exists>t. s = t @ strip ws s"
proof (induction ws s rule: strip.induct)
  case (1 ws s)
  show ?case
  proof (cases "leading ws s")
    case None
    then show ?thesis by (simp add: strip.simps [of ws s])
  next
    case (Some w)
    then obtain u where u: "s = w @ u" by (blast dest: leading_Some)
    from Some have "strip ws s = strip ws (drop (length w) s)" by (simp add: strip.simps [of ws s])
    with u have "strip ws s = strip ws u" by simp
    moreover from 1 [OF Some] u obtain t where "u = t @ strip ws u" by auto
    ultimately have "s = (w @ t) @ strip ws s" using u by simp
    then show ?thesis by blast
  qed
qed

lemma strip_done: "leading ws (strip ws s) = None"
proof (induction ws s rule: strip.induct)
  case (1 ws s)
  then show ?case
    by (cases "leading ws s") (simp_all add: strip.simps [of ws s])
qed

lemma strip_id: "leading ws s = None \<Longrightarrow> strip ws s = s"
  by (simp add: strip.simps)

lemma leading_prefix: "leading ws (s @ t) = None \<Longrightarrow> leading ws s = None"
  by (auto simp: leading_def find_None_iff starts_with_iff)

lemma trim_subset: "set (trim s) \<subseteq> set s"
proof -
  obtain t u where "s = t @ strip white_space s"
    and "rev (strip white_space s) = u @ strip (map rev white_space) (rev (strip white_space s))"
    using strip_suffix by metis
  then show ?thesis unfolding trim_def by (metis Un_iff set_append set_rev subsetI)
qed

lemma trim_idem: "trim (trim s) = trim s"
proof -
  let ?t = "strip white_space s"
  let ?u = "strip (map rev white_space) (rev ?t)"
  obtain v where "rev ?t = v @ ?u" using strip_suffix by blast
  then have "?t = rev ?u @ rev v" by (metis rev_append rev_rev_ident)
  with strip_done [of white_space s] have "leading white_space (rev ?u) = None"
    by (metis leading_prefix)
  then have "strip white_space (rev ?u) = rev ?u" by (rule strip_id)
  moreover have "strip (map rev white_space) ?u = ?u" by (rule strip_id [OF strip_done])
  ultimately show ?thesis by (simp add: trim_def)
qed

lemma trim_Nil [simp]: "trim [] = []"
  using trim_subset [of "[]"] by simp

lemmas trim_eval = trim_def strip.simps leading_def white_space_def

text \<open>Decimal \<open>Display\<close> of unsigned and signed integers.\<close>

fun show_nat :: "nat \<Rightarrow> string" where
  "show_nat n =
     (if n < 10 then [char_of (48 + n)] else show_nat (n div 10) @ [char_of (48 + n mod 10)])"

declare show_nat.simps [simp del]

definition show_u :: "'a::len word \<Rightarrow> string" where
  "show_u w = show_nat (unat w)"

definition show_i :: "'a::len word \<Rightarrow> string" where
  "show_i w = (if sint w < 0 then CHR ''-'' # show_nat (nat (- sint w)) else show_nat (nat (sint w)))"

definition show_bool :: "bool \<Rightarrow> string" where
  "show_bool b = (if b then ''true'' else ''false'')"

section \<open>Lists and association lists\<close>

text \<open>A Rust \<open>HashMap\<close> whose entries are iterated is an association list with distinct keys, its
  order standing for the map's unspecified iteration order; statements about it speak of
  \<open>map_of\<close> and of sets or multisets, never of the order.\<close>

lemma map_of_filter_key:
  "map_of (filter (\<lambda>(k, v). P k) al) k = (if P k then map_of al k else None)"
  by (induction al) auto

lemma dom_map_of_update: "dom (map_of (AList.update k v al)) = insert k (dom (map_of al))"
  by (simp add: update_conv')

lemma map_of_AList_update [simp]: "map_of (AList.update k v al) = (map_of al)(k \<mapsto> v)"
  by (simp add: update_conv')

lemma map_of_AList_delete [simp]: "map_of (AList.delete k al) = (map_of al)(k := None)"
  by (simp add: delete_conv')

lemma length_filter_partition:
  "length (filter P xs) + length (filter (\<lambda>x. \<not> P x) xs) = length xs"
  by (induction xs) auto

lemma take_subset: "set (take n xs) \<subseteq> set xs"
  by (rule set_take_subset)

lemma distinct_map_filter: "distinct (map f xs) \<Longrightarrow> distinct (map f (filter P xs))"
  by (induction xs) auto

lemma distinct_map_inj_on_set:
  "distinct (map f xs) \<Longrightarrow> x \<in> set xs \<Longrightarrow> y \<in> set xs \<Longrightarrow> f x = f y \<Longrightarrow> x = y"
  by (simp add: distinct_map inj_on_def)

end
