(* ===== verification/Topic.thy ===== *)
theory Topic
  imports Prelude
begin

text \<open>
  The topic matcher of \<open>crates/rs-broker-core/src/shared/topic.rs\<close>: \<open>next_segment\<close>,
  \<open>match_segments\<close>, \<open>matches_topic\<close> and \<open>matches_any\<close>, on the UTF-8 bytes of the strings as the
  code has them. The abstract view is the list of segments of a string (\<open>segments\<close>) and a matcher
  on segment lists (\<open>seg_match\<close>); \<open>match_segments_refines\<close> says the byte-level walk implements
  it, and the lemmas after it read the wildcard rules off the abstract matcher.
\<close>

section \<open>The code\<close>

record segment =
  seg_bytes :: string
  seg_end :: nat

definition next_segment :: "string \<Rightarrow> segment option" where
  "next_segment input =
     (case position (\<lambda>b. b = CHR ''.'') input of
        Some idx \<Rightarrow> Some \<lparr>seg_bytes = take idx input, seg_end = idx + 1\<rparr>
      | None \<Rightarrow> if input = [] then None else Some \<lparr>seg_bytes = input, seg_end = length input\<rparr>)"

lemma next_segment_None [simp]: "next_segment input = None \<longleftrightarrow> input = []"
  by (auto simp: next_segment_def split: option.splits)

lemma next_segment_end_pos: "next_segment input = Some g \<Longrightarrow> 0 < seg_end g \<and> input \<noteq> []"
  by (auto simp: next_segment_def split: option.splits if_splits)

text \<open>The bytes before the first \<open>*\<close> of a pattern segment.\<close>

definition glob_prefix :: "string \<Rightarrow> string" where
  "glob_prefix seg = take (unwrap_or (position (\<lambda>b. b = CHR ''*'') seg) (length seg)) seg"

function match_segments :: "string \<Rightarrow> string \<Rightarrow> bool" where
  "match_segments topic pattern =
     (case next_segment pattern of
        None \<Rightarrow> next_segment topic = None
      | Some p_seg \<Rightarrow>
          if seg_bytes p_seg = ''#'' then True
          else case next_segment topic of
            None \<Rightarrow> False
          | Some t_seg \<Rightarrow>
              (let t_rest = drop (seg_end t_seg) topic;
                   p_rest = drop (seg_end p_seg) pattern
               in if seg_bytes p_seg = ''+'' \<or> seg_bytes p_seg = ''*'' then match_segments t_rest p_rest
                  else if seg_bytes p_seg = seg_bytes t_seg then match_segments t_rest p_rest
                  else if CHR ''*'' \<in> set (seg_bytes p_seg) then starts_with topic (glob_prefix (seg_bytes p_seg))
                  else False))"
  by pat_completeness auto
termination
  by (relation "measure (\<lambda>(t, p). length p)") (auto dest: next_segment_end_pos)

declare match_segments.simps [simp del]

definition matches_topic :: "string \<Rightarrow> string \<Rightarrow> bool" where
  "matches_topic topic pattern =
     (if pattern = [] then topic = []
      else if topic = [] then pattern = ''#''
      else match_segments topic pattern)"

definition matches_any :: "string \<Rightarrow> string list \<Rightarrow> bool" where
  "matches_any topic patterns = list_ex (\<lambda>p. matches_topic topic p) patterns"

section \<open>The abstract matcher\<close>

text \<open>The segments of a string: what lies between the dots, except that nothing after a final
  dot is no segment.\<close>

function segments :: "string \<Rightarrow> string list" where
  "segments s =
     (case next_segment s of None \<Rightarrow> [] | Some g \<Rightarrow> seg_bytes g # segments (drop (seg_end g) s))"
  by pat_completeness auto
termination
  by (relation "measure length") (auto dest: next_segment_end_pos)

declare segments.simps [simp del]

fun seg_match :: "string list \<Rightarrow> string list \<Rightarrow> bool" where
  "seg_match ts [] = (ts = [])"
| "seg_match ts (p # ps) =
     (if p = ''#'' then True
      else case ts of
        [] \<Rightarrow> False
      | t # ts' \<Rightarrow>
          if p = ''+'' \<or> p = ''*'' \<or> p = t then seg_match ts' ps
          else CHR ''*'' \<in> set p \<and> starts_with t (glob_prefix p))"

text \<open>A non-empty string is one dot-free segment, or such a segment, a dot and the rest.\<close>

lemma segment_cases:
  assumes "s \<noteq> []"
  obtains (last) "CHR ''.'' \<notin> set s"
    | (more) a r where "s = a @ ''.'' @ r" "CHR ''.'' \<notin> set a"
proof (cases "CHR ''.'' \<in> set s")
  case True
  then obtain a r where "s = a @ CHR ''.'' # r" "CHR ''.'' \<notin> set a"
    by (meson split_list_first)
  then show ?thesis using more by simp
next
  case False
  then show ?thesis by (rule last)
qed

lemma next_segment_Nil [simp]: "next_segment [] = None"
  by simp

lemma next_segment_dot:
  "CHR ''.'' \<notin> set a \<Longrightarrow> next_segment (a @ CHR ''.'' # r) = Some \<lparr>seg_bytes = a, seg_end = length a + 1\<rparr>"
  by (simp add: next_segment_def position_char_hit)

lemma next_segment_last:
  "CHR ''.'' \<notin> set s \<Longrightarrow> s \<noteq> [] \<Longrightarrow> next_segment s = Some \<lparr>seg_bytes = s, seg_end = length s\<rparr>"
  by (simp add: next_segment_def position_char_miss)

lemma segments_Nil [simp]: "segments [] = []"
  by (subst segments.simps) (simp only: next_segment_Nil option.simps)

lemma segments_eq_Nil [simp]: "segments s = [] \<longleftrightarrow> s = []"
  by (subst segments.simps) (auto split: option.splits)

lemma segments_dot: "CHR ''.'' \<notin> set s \<Longrightarrow> segments (s @ CHR ''.'' # r) = s # segments r"
  by (subst segments.simps) (simp add: next_segment_dot)

lemma segments_single: "CHR ''.'' \<notin> set s \<Longrightarrow> s \<noteq> [] \<Longrightarrow> segments s = [s]"
  by (subst segments.simps) (simp add: next_segment_last)

lemma next_segment_facts:
  assumes "next_segment s = Some g"
  shows "segments s = seg_bytes g # segments (drop (seg_end g) s)"
    and "CHR ''.'' \<notin> set (seg_bytes g)"
    and "\<exists>r. s = seg_bytes g @ r \<and> (r = [] \<or> hd r = CHR ''.'')"
proof -
  show "segments s = seg_bytes g # segments (drop (seg_end g) s)"
    using assms by (subst segments.simps) simp
  have "s \<noteq> []" using assms by (auto dest: next_segment_end_pos)
  then have "CHR ''.'' \<notin> set (seg_bytes g) \<and> (\<exists>r. s = seg_bytes g @ r \<and> (r = [] \<or> hd r = CHR ''.''))"
  proof (cases s rule: segment_cases)
    case last
    with assms \<open>s \<noteq> []\<close> show ?thesis by (auto simp: next_segment_last)
  next
    case (more a r)
    with assms show ?thesis by (auto simp: next_segment_dot)
  qed
  then show "CHR ''.'' \<notin> set (seg_bytes g)"
    and "\<exists>r. s = seg_bytes g @ r \<and> (r = [] \<or> hd r = CHR ''.'')" by blast+
qed

lemma set_glob_prefix: "set (glob_prefix p) \<subseteq> set p"
  by (simp add: glob_prefix_def set_take_subset)

text \<open>A dot-free prefix of the remaining topic is a prefix of its first segment.\<close>

lemma starts_with_segment:
  assumes "CHR ''.'' \<notin> set p" "r = [] \<or> hd r = CHR ''.''"
  shows "starts_with (t @ r) p \<longleftrightarrow> starts_with t p"
  using assms(1)
proof (induction t p rule: starts_with.induct)
  case (2 c cs)
  with assms(2) show ?case by (cases r) auto
qed auto

text \<open>The byte-level walk is the abstract matcher on the segment lists.\<close>

lemma match_segments_refines: "match_segments topic pattern = seg_match (segments topic) (segments pattern)"
proof (induction topic pattern rule: match_segments.induct)
  case (1 topic pattern)
  show ?case
  proof (cases "next_segment pattern")
    case None
    then have "pattern = []" by simp
    then show ?thesis by (simp add: match_segments.simps [of topic "[]"])
  next
    case (Some p)
    note p = next_segment_facts [OF Some]
    show ?thesis
    proof (cases "next_segment topic")
      case None
      then have "topic = []" by simp
      with Some show ?thesis by (simp add: match_segments.simps [of "[]" pattern] p(1))
    next
      case (Some t)
      note t = next_segment_facts [OF Some]
      from t(3) obtain r where "topic = seg_bytes t @ r" "r = [] \<or> hd r = CHR ''.''" by blast
      then have "starts_with topic (glob_prefix (seg_bytes p)) = starts_with (seg_bytes t) (glob_prefix (seg_bytes p))"
        using starts_with_segment [of "glob_prefix (seg_bytes p)" r "seg_bytes t"] set_glob_prefix [of "seg_bytes p"] p(2)
        by auto
      with \<open>next_segment pattern = Some p\<close> Some "1.IH" show ?thesis
        by (simp add: match_segments.simps [of topic pattern] p(1) t(1) Let_def)
    qed
  qed
qed

section \<open>What the wildcards mean\<close>

definition wild1 :: "string \<Rightarrow> bool" where
  "wild1 p \<longleftrightarrow> p = ''+'' \<or> p = ''*''"

text \<open>A segment pattern with no inline glob: a literal or a whole-segment wildcard.\<close>

definition plain_seg :: "string \<Rightarrow> bool" where
  "plain_seg p \<longleftrightarrow> p \<noteq> ''#'' \<and> (wild1 p \<or> CHR ''*'' \<notin> set p)"

lemma seg_match_plain:
  "(\<forall>p \<in> set ps. plain_seg p) \<Longrightarrow> seg_match ts ps \<longleftrightarrow> list_all2 (\<lambda>t p. wild1 p \<or> p = t) ts ps"
  by (induction ts ps rule: seg_match.induct)
    (auto simp: plain_seg_def wild1_def list_all2_Cons2 split: list.splits)

lemma seg_match_hash:
  "(\<forall>p \<in> set ps. plain_seg p) \<Longrightarrow>
     seg_match ts (ps @ ''#'' # qs) \<longleftrightarrow>
     (\<exists>us vs. ts = us @ vs \<and> list_all2 (\<lambda>t p. wild1 p \<or> p = t) us ps)"
proof (induction ps arbitrary: ts)
  case Nil
  then show ?case by (auto intro: exI [of _ "[]"])
next
  case (Cons p ps)
  then have p: "plain_seg p" and ps: "\<forall>p \<in> set ps. plain_seg p" by auto
  show ?case
  proof (cases ts)
    case Nil
    with p show ?thesis by (auto simp: plain_seg_def)
  next
    case (Cons t ts')
    have "seg_match ts ((p # ps) @ ''#'' # qs) \<longleftrightarrow> (wild1 p \<or> p = t) \<and> seg_match ts' (ps @ ''#'' # qs)"
      using p Cons by (auto simp: plain_seg_def wild1_def)
    also have "\<dots> \<longleftrightarrow> (wild1 p \<or> p = t) \<and>
        (\<exists>us vs. ts' = us @ vs \<and> list_all2 (\<lambda>t p. wild1 p \<or> p = t) us ps)"
      using Cons.IH [OF ps] by blast
    also have "\<dots> \<longleftrightarrow> (\<exists>us vs. ts = us @ vs \<and> list_all2 (\<lambda>t p. wild1 p \<or> p = t) us (p # ps))"
      using Cons by (auto simp: list_all2_Cons2 Cons_eq_append_conv)
    finally show ?thesis .
  qed
qed

lemma seg_match_refl: "seg_match ts ts"
  by (induction ts) auto

text \<open>A final dot after a segment adds nothing: \<open>split\<close> would yield one more empty segment.\<close>

lemma segments_trailing_dot: "s \<noteq> [] \<Longrightarrow> last s \<noteq> CHR ''.'' \<Longrightarrow> segments (s @ ''.'') = segments s"
proof (induction s rule: segments.induct)
  case (1 s)
  from \<open>s \<noteq> []\<close> show ?case
  proof (cases s rule: segment_cases)
    case last
    with \<open>s \<noteq> []\<close> show ?thesis
      using segments_dot [of s "[]"] by (simp add: segments_single)
  next
    case (more a r)
    with "1.prems" have r: "r \<noteq> []" "last r \<noteq> CHR ''.''" by (auto split: if_splits)
    from more have g: "next_segment s = Some \<lparr>seg_bytes = a, seg_end = length a + 1\<rparr>"
      by (simp add: next_segment_dot)
    from "1.IH" [OF g] more r have "segments (r @ ''.'') = segments r" by simp
    with more show ?thesis by (simp add: segments_dot)
  qed
qed

section \<open>Properties\<close>

text \<open>C19: The byte-level matcher decides the segment-wise wildcard semantics: two non-empty strings
  match exactly when their segment lists match segment by segment; an empty pattern matches only
  the empty topic, and the empty topic is matched otherwise only by the lone \<open>#\<close>.\<close>

theorem matches_topic_spec:
  "matches_topic topic pattern =
     (if pattern = [] then topic = []
      else if topic = [] then pattern = ''#''
      else seg_match (segments topic) (segments pattern))"
  by (simp add: matches_topic_def match_segments_refines)

lemma prefix_ex_iff:
  "(\<exists>us vs. ts = us @ vs \<and> list_all2 R us ps) \<longleftrightarrow> list_all2 R (take (length ps) ts) ps"
proof
  assume "\<exists>us vs. ts = us @ vs \<and> list_all2 R us ps"
  then obtain us vs where "ts = us @ vs" "list_all2 R us ps" by blast
  moreover from this have "length us = length ps" by (simp add: list_all2_lengthD)
  ultimately show "list_all2 R (take (length ps) ts) ps" by simp
next
  assume "list_all2 R (take (length ps) ts) ps"
  then show "\<exists>us vs. ts = us @ vs \<and> list_all2 R us ps"
    by (intro exI [of _ "take (length ps) ts"] exI [of _ "drop (length ps) ts"]) simp
qed

text \<open>A pattern of literals, \<open>+\<close> and \<open>*\<close> matches exactly the topics with as many segments,
  each equal to its literal or facing a whole-segment wildcard; such a pattern followed by the
  segment \<open>#\<close> matches exactly the non-empty topics that have a prefix of segments matching it,
  whatever stands after the \<open>#\<close>.\<close>

theorem matches_topic_wildcards:
  assumes "segments pattern = ps \<or> segments pattern = ps @ ''#'' # qs"
    and "\<forall>p \<in> set ps. plain_seg p" and "topic \<noteq> []" and "pattern \<noteq> []"
  shows "matches_topic topic pattern \<longleftrightarrow>
    (if segments pattern = ps then list_all2 (\<lambda>t p. wild1 p \<or> p = t) (segments topic) ps
     else list_all2 (\<lambda>t p. wild1 p \<or> p = t) (take (length ps) (segments topic)) ps)"
proof (cases "segments pattern = ps")
  case True
  with assms show ?thesis by (simp add: matches_topic_spec seg_match_plain)
next
  case False
  with assms(1) have "segments pattern = ps @ ''#'' # qs" by blast
  with False assms have "matches_topic topic pattern \<longleftrightarrow>
      (\<exists>us vs. segments topic = us @ vs \<and> list_all2 (\<lambda>t p. wild1 p \<or> p = t) us ps)"
    by (simp add: matches_topic_spec seg_match_hash)
  also have "\<dots> \<longleftrightarrow> list_all2 (\<lambda>t p. wild1 p \<or> p = t) (take (length ps) (segments topic)) ps"
    by (rule prefix_ex_iff)
  finally show ?thesis using False by simp
qed

lemma segments_user_star: "segments ''user.*'' = [''user'', ''*'']"
  by code_simp

lemma segments_user_created: "segments ''user.created'' = [''user'', ''created'']"
  by code_simp

theorem matches_topic_wildcards_witness:
  "matches_topic ''user.created'' ''user.*''"
  using matches_topic_wildcards [of "''user.*''" "[''user'', ''*'']" "[]" "''user.created''"]
  by (simp add: segments_user_star segments_user_created plain_seg_def wild1_def)

text \<open>Once a pattern segment with an inline \<open>*\<close> is reached and neither equals the topic segment
  nor is a lone \<open>*\<close>, the rest of the pattern is never looked at: the topic matches as soon as its
  segment starts with the bytes before the \<open>*\<close>, for every rest of pattern and topic.\<close>

theorem inline_glob_ignores_rest:
  assumes "CHR ''.'' \<notin> set g" "CHR ''*'' \<in> set g" "g \<noteq> ''*''" "CHR ''.'' \<notin> set t" "g \<noteq> t"
  shows "matches_topic (t @ ''.'' @ trest) (g @ ''.'' @ prest) = starts_with t (glob_prefix g)"
  using assms by (auto simp: matches_topic_spec segments_dot)

theorem inline_glob_ignores_rest_witness: "matches_topic ''orders.deleted'' ''order*.created''"
  using inline_glob_ignores_rest [of "''order*''" "''orders''" "''deleted''" "''created''"]
  by (simp add: glob_prefix_def)

text \<open>A topic with a final dot matches the same patterns as the topic without it, so the
  literal pattern \<open>user\<close> also receives the topic \<open>user.\<close>.\<close>

theorem trailing_dot_ignored:
  assumes "topic \<noteq> []" "last topic \<noteq> CHR ''.''"
  shows "matches_topic (topic @ ''.'') pattern = matches_topic topic pattern"
  using assms by (simp add: matches_topic_spec segments_trailing_dot)

theorem trailing_dot_ignored_witness: "matches_topic ''user.'' ''user''"
  using trailing_dot_ignored [of "''user''" "''user''"]
  by (simp add: matches_topic_spec seg_match_refl)

end
