(* ===== verification/Runtime.thy ===== *)
theory Runtime
  imports Prelude
begin

text \<open>
  The libraries outside src/ that the code calls, as parameters of the model: the \<open>uuid\<close> crate
  (parsing, printing, the version 7 generator), the clock behind \<open>Utc::now()\<close>, \<open>serde_json\<close>
  (reading, printing) and the floating-point operations of the retry delay. Each is a
  record of functions that the definitions of the other theories take as an argument. The
  predicates \<open>uuid_lib_ok\<close> and \<open>fresh_ids\<close> name the documented behaviour the
  properties rely on; nothing is assumed of the floating-point operations. Each predicate is shown satisfiable by a concrete instance at the end of its section.
\<close>

section \<open>UUIDs\<close>

record uuid_lib =
  ul_parse :: "string \<Rightarrow> string + uuid"  \<comment> \<open>\<open>Uuid::parse_str\<close>, the error as its text\<close>
  ul_show :: "uuid \<Rightarrow> string"            \<comment> \<open>\<open>Uuid::to_string\<close>\<close>

definition uuid_lib_ok :: "uuid_lib \<Rightarrow> bool" where
  "uuid_lib_ok ul \<longleftrightarrow> (\<forall>u. ul_show ul u \<noteq> [] \<and> ul_parse ul (ul_show ul u) = Ok u)"

lemma ul_parse_show [simp]: "uuid_lib_ok ul \<Longrightarrow> ul_parse ul (ul_show ul u) = Ok u"
  by (simp add: uuid_lib_ok_def)

lemma ul_show_nonempty [simp]: "uuid_lib_ok ul \<Longrightarrow> ul_show ul u \<noteq> []"
  by (simp add: uuid_lib_ok_def)

lemma ul_show_inj: "uuid_lib_ok ul \<Longrightarrow> ul_show ul u = ul_show ul v \<longleftrightarrow> u = v"
  by (metis Inr_inject ul_parse_show)

text \<open>An instance: decimal text.\<close>

definition read_nat :: "string \<Rightarrow> nat" where
  "read_nat = foldl (\<lambda>a c. 10 * a + (of_char c - 48)) 0"

lemma read_show_nat: "read_nat (show_nat n) = n"
proof (induction n rule: show_nat.induct)
  case (1 n)
  have digit: "of_char (char_of (48 + d) :: char) - (48 :: nat) = d" if "d < 10" for d :: nat
    using that by (simp add: of_char_of)
  show ?case
  proof (cases "n < 10")
    case True
    with digit [of n] show ?thesis
      by (simp add: show_nat.simps [of n] read_nat_def)
  next
    case False
    with "1.IH" have "read_nat (show_nat (n div 10)) = n div 10" by simp
    with False digit [of "n mod 10"] show ?thesis
      by (simp add: show_nat.simps [of n] read_nat_def)
  qed
qed

lemma show_nat_nonempty [simp]: "show_nat n \<noteq> []"
  by (simp add: show_nat.simps [of n])

lemma show_nat_inj: "show_nat m = show_nat n \<longleftrightarrow> m = n"
  by (metis read_show_nat)

definition decimal_uuids :: uuid_lib where
  "decimal_uuids =
     \<lparr>ul_parse = (\<lambda>s. let w = of_nat (read_nat s) in if show_u w = s then Ok w else Err ''not a UUID''),
      ul_show = show_u\<rparr>"

lemma decimal_eval:
  "ul_parse decimal_uuids ''7'' = Ok 7" "ul_show decimal_uuids 7 = ''7''"
  "ul_parse decimal_uuids ''1'' = Ok 1" "ul_show decimal_uuids 1 = ''1''" "ul_show decimal_uuids 2 = ''2''"
  "ul_parse decimal_uuids ''no'' = Err ''not a UUID''"
  by (simp_all add: decimal_uuids_def show_u_def read_nat_def show_nat.simps char_of_def bit_0)

lemma decimal_uuids_ok: "uuid_lib_ok decimal_uuids"
  by (simp add: uuid_lib_ok_def decimal_uuids_def show_u_def read_show_nat)

section \<open>The identifier generator and the clock\<close>

text \<open>\<open>rt_uuids n\<close> is what the \<open>n\<close>-th call of \<open>Uuid::now_v7\<close> returns and \<open>rt_utc n\<close> what the
  \<open>n\<close>-th call of \<open>Utc::now\<close> returns; the counters say how many calls were made.\<close>

record runtime =
  rt_uuids :: "nat \<Rightarrow> uuid"
  rt_uuid_calls :: nat
  rt_utc :: "nat \<Rightarrow> timestamp"
  rt_utc_calls :: nat

definition now_v7 :: "runtime \<Rightarrow> uuid \<times> runtime" where
  "now_v7 rt = (rt_uuids rt (rt_uuid_calls rt), rt\<lparr>rt_uuid_calls := Suc (rt_uuid_calls rt)\<rparr>)"

definition utc_now :: "runtime \<Rightarrow> timestamp \<times> runtime" where
  "utc_now rt = (rt_utc rt (rt_utc_calls rt), rt\<lparr>rt_utc_calls := Suc (rt_utc_calls rt)\<rparr>)"

text \<open>The next \<open>n\<close> generated identifiers are distinct and none is in \<open>used\<close>.\<close>

definition fresh_ids :: "uuid set \<Rightarrow> nat \<Rightarrow> runtime \<Rightarrow> bool" where
  "fresh_ids used n rt \<longleftrightarrow>
     inj_on (rt_uuids rt) {rt_uuid_calls rt ..< rt_uuid_calls rt + n} \<and>
     rt_uuids rt ` {rt_uuid_calls rt ..< rt_uuid_calls rt + n} \<inter> used = {}"

definition counting_runtime :: runtime where
  "counting_runtime = \<lparr>rt_uuids = (\<lambda>n. of_nat n + 1), rt_uuid_calls = 0, rt_utc = (\<lambda>n. int n), rt_utc_calls = 0\<rparr>"

lemma now_v7_simps [simp]:
  "rt_uuids (snd (now_v7 rt)) = rt_uuids rt"
  "rt_uuid_calls (snd (now_v7 rt)) = Suc (rt_uuid_calls rt)"
  by (simp_all add: now_v7_def)

lemma fresh_ids_Suc:
  "fresh_ids used (Suc n) rt \<Longrightarrow>
     fst (now_v7 rt) \<notin> used \<and> fresh_ids (insert (fst (now_v7 rt)) used) n (snd (now_v7 rt))"
proof -
  let ?c = "rt_uuid_calls rt"
  assume fresh: "fresh_ids used (Suc n) rt"
  have "{?c ..< ?c + Suc n} = insert ?c {Suc ?c ..< Suc ?c + n}" by auto
  with fresh show ?thesis
    by (auto simp: fresh_ids_def now_v7_def)
qed

lemma fresh_ids_utc [simp]: "fresh_ids used n (snd (utc_now rt)) = fresh_ids used n rt"
  by (simp add: fresh_ids_def utc_now_def)

lemma fresh_ids_mono: "fresh_ids used n rt \<Longrightarrow> m \<le> n \<Longrightarrow> used' \<subseteq> used \<Longrightarrow> fresh_ids used' m rt"
proof -
  let ?c = "rt_uuid_calls rt"
  assume *: "fresh_ids used n rt" "m \<le> n" "used' \<subseteq> used"
  then have "{?c ..< ?c + m} \<subseteq> {?c ..< ?c + n}" by auto
  with * show ?thesis
    unfolding fresh_ids_def by (blast intro: inj_on_subset)
qed

section \<open>JSON text\<close>

record serde =
  sd_from_slice :: "bytes \<Rightarrow> string + json"              \<comment> \<open>\<open>serde_json::from_slice\<close>\<close>
  sd_to_vec :: "json \<Rightarrow> string + bytes"                  \<comment> \<open>\<open>serde_json::to_vec\<close>\<close>
  sd_map_to_value :: "(string \<rightharpoonup> string) \<Rightarrow> string + json" \<comment> \<open>\<open>serde_json::to_value\<close> of a \<open>HashMap\<close>\<close>

section \<open>Floating point\<close>

text \<open>An \<open>f64\<close> is a NaN, a signed infinity or a finite value. Rounding is the processor's and
  the accuracy of \<open>powi\<close> is documented as platform dependent, so conversion, multiplication and
  \<open>powi\<close> are parameters; the saturating cast \<open>as u64\<close> is fixed by the language.\<close>

datatype f64 = F_NaN | F_Inf bool | F_Fin rat

definition f64_to_u64 :: "f64 \<Rightarrow> u64" where
  "f64_to_u64 f =
     (case f of
        F_NaN \<Rightarrow> 0
      | F_Inf neg \<Rightarrow> (if neg then 0 else - 1)
      | F_Fin r \<Rightarrow> (if r < 0 then 0 else if r \<ge> 2 ^ 64 then - 1 else of_nat (nat \<lfloor>r\<rfloor>)))"

record float_lib =
  fl_of_u64 :: "u64 \<Rightarrow> f64"        \<comment> \<open>\<open>as f64\<close>\<close>
  fl_mul :: "f64 \<Rightarrow> f64 \<Rightarrow> f64"
  fl_powi :: "f64 \<Rightarrow> i32 \<Rightarrow> f64"

text \<open>An instance for the witnesses. Nothing is assumed of the operations: the precision of \<open>powi\<close> is
  unspecified, and no property depends on it.\<close>

definition exact_floats :: float_lib where
  "exact_floats =
     \<lparr>fl_of_u64 = (\<lambda>w. F_Fin (of_nat (unat w))),
      fl_mul = (\<lambda>a b. case (a, b) of (F_Fin r, F_Fin s) \<Rightarrow> F_Fin (r * s) | _ \<Rightarrow> F_NaN),
      fl_powi = (\<lambda>a n. case a of F_Fin r \<Rightarrow> F_Fin (if sint n < 0 then inverse (r ^ nat (- sint n)) else r ^ nat (sint n))
                              | _ \<Rightarrow> F_NaN)\<rparr>"

end
