(* ===== verification/Config.thy ===== *)
theory Config
  imports Runtime
begin

text \<open>
  The settings of \<open>crates/rs-broker-config/src\<close>: one record per configuration struct with the
  struct's defaults (what \<open>Default::default\<close> and the serde defaults give), the connection URL of
  the database and the two accepted forms of the consumer topic list.
\<close>

section \<open>database.rs\<close>

datatype database_type = Postgres | Mysql

fun database_type_to_string :: "database_type \<Rightarrow> string" where
  "database_type_to_string Postgres = ''postgres''"
| "database_type_to_string Mysql = ''mysql''"

record database_config =
  dc_url :: string
  dc_type :: database_type
  dc_host :: string
  dc_port :: u16
  dc_username :: string
  dc_password :: string
  dc_database :: string
  dc_max_connections :: u32
  dc_min_idle_connections :: "u32 option"
  dc_min_connections :: u32
  dc_connection_timeout :: u64
  dc_max_lifetime :: u64
  dc_auto_migrate :: bool

definition connection_url :: "database_config \<Rightarrow> string" where
  "connection_url c =
     (if dc_url c \<noteq> [] then dc_url c
      else let scheme = database_type_to_string (dc_type c);
               password_part = (if dc_password c = [] then [] else '':'' @ dc_password c)
           in scheme @ ''://'' @ dc_username c @ password_part @ ''@'' @ dc_host c @ '':''
                @ show_u (dc_port c) @ ''/'' @ dc_database c)"

definition default_database_config :: database_config where
  "default_database_config =
     \<lparr>dc_url = [], dc_type = Postgres, dc_host = ''localhost'', dc_port = 5432,
      dc_username = ''rsbroker'', dc_password = [], dc_database = ''rsbroker'',
      dc_max_connections = 50, dc_min_idle_connections = Some 10, dc_min_connections = 5,
      dc_connection_timeout = 60, dc_max_lifetime = 1800, dc_auto_migrate = True\<rparr>"

section \<open>grpc.rs, server.rs, retry.rs\<close>

record grpc_config =
  gc_enabled :: bool
  gc_host :: string
  gc_port :: u16
  gc_max_concurrent_streams :: u32
  gc_connection_timeout :: u64

definition default_grpc_config :: grpc_config where
  "default_grpc_config =
     \<lparr>gc_enabled = True, gc_host = ''0.0.0.0'', gc_port = 50051,
      gc_max_concurrent_streams = 100, gc_connection_timeout = 30\<rparr>"

datatype server_mode = Both | Producer | Consumer

record server_config =
  sc_mode :: server_mode
  sc_host :: string
  sc_http_port :: u16
  sc_grpc_port :: u16
  sc_shutdown_timeout_secs :: u64
  sc_request_timeout_secs :: u64

definition default_server_config :: server_config where
  "default_server_config =
     \<lparr>sc_mode = Both, sc_host = ''0.0.0.0'', sc_http_port = 8080, sc_grpc_port = 50051,
      sc_shutdown_timeout_secs = 30, sc_request_timeout_secs = 30\<rparr>"

record retry_config =
  rc_max_retries :: u32
  rc_initial_delay_ms :: u64
  rc_multiplier :: f64
  rc_max_delay_ms :: u64
  rc_enable_dlq :: bool
  rc_dlq_topic :: string

definition default_retry_config :: retry_config where
  "default_retry_config =
     \<lparr>rc_max_retries = 3, rc_initial_delay_ms = 100, rc_multiplier = F_Fin 2,
      rc_max_delay_ms = 30000, rc_enable_dlq = True, rc_dlq_topic = ''rs-broker-dlq''\<rparr>"

section \<open>kafka.rs\<close>

record producer_config =
  pc_acks :: i32
  pc_linger_ms :: i32
  pc_batch_size :: u64
  pc_request_timeout_ms :: i32
  pc_message_timeout_ms :: i32
  pc_enable_idempotence :: bool
  pc_compression_type :: string

definition default_producer_config :: producer_config where
  "default_producer_config =
     \<lparr>pc_acks = - 1, pc_linger_ms = 5, pc_batch_size = 16384, pc_request_timeout_ms = 30000,
      pc_message_timeout_ms = 30000, pc_enable_idempotence = True, pc_compression_type = ''snappy''\<rparr>"

record consumer_config =
  cc_group_id :: string
  cc_auto_offset_reset :: string
  cc_enable_auto_commit :: bool
  cc_auto_commit_interval_ms :: i32
  cc_session_timeout_ms :: i32
  cc_heartbeat_interval_ms :: i32
  cc_max_poll_records :: i32
  cc_topics :: "string list"

definition default_consumer_config :: consumer_config where
  "default_consumer_config =
     \<lparr>cc_group_id = ''rs-broker-consumer'', cc_auto_offset_reset = ''earliest'',
      cc_enable_auto_commit = False, cc_auto_commit_interval_ms = 5000,
      cc_session_timeout_ms = 30000, cc_heartbeat_interval_ms = 10000,
      cc_max_poll_records = 500, cc_topics = []\<rparr>"

record kafka_config =
  kc_bootstrap_servers :: string
  kc_client_id :: string
  kc_security_protocol :: string
  kc_sasl_mechanism :: string
  kc_sasl_username :: string
  kc_sasl_password :: string
  kc_producer :: producer_config
  kc_consumer :: consumer_config

definition default_kafka_config :: kafka_config where
  "default_kafka_config =
     \<lparr>kc_bootstrap_servers = ''localhost:9092'', kc_client_id = ''rs-broker'',
      kc_security_protocol = ''plaintext'', kc_sasl_mechanism = [], kc_sasl_username = [],
      kc_sasl_password = [], kc_producer = default_producer_config,
      kc_consumer = default_consumer_config\<rparr>"

text \<open>The untagged serde enum \<open>Raw\<close>: a list, or one comma-separated string.\<close>

datatype raw_topics = RawList "string list" | RawJoined string

definition comma_list :: "string \<Rightarrow> string list" where
  "comma_list joined = filter (\<lambda>t. t \<noteq> []) (map trim (split_on (CHR '','') joined))"

fun deserialize_topics :: "raw_topics \<Rightarrow> string list" where
  "deserialize_topics (RawList topics) = topics"
| "deserialize_topics (RawJoined joined) = comma_list joined"

section \<open>settings.rs\<close>

record logging_config =
  lc_format :: string

definition default_logging_config :: logging_config where
  "default_logging_config = \<lparr>lc_format = ''json''\<rparr>"

record metrics_config =
  mc_enabled :: bool
  mc_path :: string
  mc_port :: u16

definition default_metrics_config :: metrics_config where
  "default_metrics_config = \<lparr>mc_enabled = True, mc_path = ''/metrics'', mc_port = 9090\<rparr>"

record outbox_config =
  oc_poll_interval_ms :: u64
  oc_batch_size :: i64
  oc_max_concurrent :: u64
  oc_retention_days :: u32

definition default_outbox_config :: outbox_config where
  "default_outbox_config =
     \<lparr>oc_poll_interval_ms = 100, oc_batch_size = 100, oc_max_concurrent = 10, oc_retention_days = 7\<rparr>"

record inbox_config =
  ic_max_concurrent_deliveries :: u64
  ic_delivery_timeout_ms :: u64
  ic_retention_days :: u32

definition default_inbox_config :: inbox_config where
  "default_inbox_config =
     \<lparr>ic_max_concurrent_deliveries = 10, ic_delivery_timeout_ms = 30000, ic_retention_days = 7\<rparr>"

record dlq_config =
  qc_enabled :: bool
  qc_topic_suffix :: string
  qc_log_messages :: bool

definition default_dlq_config :: dlq_config where
  "default_dlq_config = \<lparr>qc_enabled = True, qc_topic_suffix = ''.dlq'', qc_log_messages = True\<rparr>"

record subscriber_config =
  bc_default_timeout_ms :: u64
  bc_default_max_retries :: u32

definition default_subscriber_config :: subscriber_config where
  "default_subscriber_config = \<lparr>bc_default_timeout_ms = 30000, bc_default_max_retries = 3\<rparr>"

record settings =
  st_server :: server_config
  st_database :: database_config
  st_kafka :: kafka_config
  st_grpc :: grpc_config
  st_retry :: retry_config
  st_logging :: logging_config
  st_metrics :: metrics_config
  st_outbox :: outbox_config
  st_inbox :: inbox_config
  st_dlq :: dlq_config
  st_subscriber :: subscriber_config

definition default_settings :: settings where
  "default_settings =
     \<lparr>st_server = default_server_config, st_database = default_database_config,
      st_kafka = default_kafka_config, st_grpc = default_grpc_config,
      st_retry = default_retry_config, st_logging = default_logging_config,
      st_metrics = default_metrics_config, st_outbox = default_outbox_config,
      st_inbox = default_inbox_config, st_dlq = default_dlq_config,
      st_subscriber = default_subscriber_config\<rparr>"

section \<open>Lemmas\<close>

text \<open>Joining topics with commas, as an operator writes the environment variable.\<close>

fun join_comma :: "string list \<Rightarrow> string" where
  "join_comma [] = []"
| "join_comma [t] = t"
| "join_comma (t # ts) = t @ '','' @ join_comma ts"

definition clean_topic :: "string \<Rightarrow> bool" where
  "clean_topic t \<longleftrightarrow> t \<noteq> [] \<and> CHR '','' \<notin> set t \<and> trim t = t"

lemma comma_list_clean: "t \<in> set (comma_list s) \<Longrightarrow> clean_topic t"
  using split_on_no_sep [of _ "CHR '',''" s] trim_subset
  by (fastforce simp: comma_list_def clean_topic_def trim_idem)

lemma comma_list_join: "(\<forall>t \<in> set ts. clean_topic t) \<Longrightarrow> comma_list (join_comma ts) = ts"
proof (induction ts rule: join_comma.induct)
  case 1
  then show ?case by (simp add: comma_list_def)
next
  case (2 t)
  then show ?case by (simp add: comma_list_def clean_topic_def split_on_id)
next
  case (3 t u us)
  then show ?case by (simp add: comma_list_def clean_topic_def split_on_append)
qed

text \<open>Every topic read from the comma-separated form is non-empty, trimmed and comma-free, and
  joining such topics with commas and reading the result gives them back, in order.\<close>

theorem deserialize_topics_roundtrip:
  "(\<forall>t \<in> set (deserialize_topics (RawJoined s)). clean_topic t) \<and>
   ((\<forall>t \<in> set ts. clean_topic t) \<longrightarrow>
      deserialize_topics (RawJoined (join_comma ts)) = deserialize_topics (RawList ts))"
  by (simp add: comma_list_clean comma_list_join)

theorem deserialize_topics_roundtrip_witness:
  "deserialize_topics (RawJoined (join_comma [''events'', ''orders''])) = [''events'', ''orders'']"
proof -
  have "\<forall>t \<in> set [''events'', ''orders'']. clean_topic t"
    by (simp add: clean_topic_def trim_eval)
  then show ?thesis
    using deserialize_topics_roundtrip [of "[]" "[''events'', ''orders'']"] by simp
qed

end
