(* ===== verification/Retry.thy ===== *)
theory Retry
  imports Config
begin

text \<open>
  \<open>crates/rs-broker-core/src/features/publishing/retry.rs\<close>: the retry policy as a value, and
  the decision it leads to after a failed publish attempt. Durations are milliseconds.
\<close>

datatype publish_failure_decision =
    PF_Retry u64            \<comment> \<open>\<open>Retry { next_delay }\<close>\<close>
  | PF_DeadLetter string    \<comment> \<open>\<open>DeadLetter { topic }\<close>\<close>
  | PF_Fail

record retry_strategy =
  rs_max_retries :: u32
  rs_initial_delay_ms :: u64
  rs_multiplier :: f64
  rs_max_delay_ms :: u64
  rs_enable_dlq :: bool
  rs_dlq_topic :: string

definition retry_strategy_new :: "retry_config \<Rightarrow> retry_strategy" where
  "retry_strategy_new config =
     \<lparr>rs_max_retries = rc_max_retries config,
      rs_initial_delay_ms = rc_initial_delay_ms config,
      rs_multiplier = rc_multiplier config,
      rs_max_delay_ms = rc_max_delay_ms config,
      rs_enable_dlq = rc_enable_dlq config,
      rs_dlq_topic = rc_dlq_topic config\<rparr>"

text \<open>\<open>attempt as i32\<close> keeps the 32 bits of \<open>attempt\<close>; the cast to \<open>u64\<close> saturates.\<close>

definition calculate_delay :: "float_lib \<Rightarrow> retry_strategy \<Rightarrow> u32 \<Rightarrow> u64" where
  "calculate_delay fl s attempt =
     (let delay = f64_to_u64 (fl_mul fl (fl_of_u64 fl (rs_initial_delay_ms s))
                                        (fl_powi fl (rs_multiplier s) attempt))
      in min delay (rs_max_delay_ms s))"

definition should_retry :: "retry_strategy \<Rightarrow> u32 \<Rightarrow> bool" where
  "should_retry s attempt = (attempt < rs_max_retries s)"

definition is_dlq_enabled :: "retry_strategy \<Rightarrow> bool" where
  "is_dlq_enabled s = rs_enable_dlq s"

definition dlq_topic :: "retry_strategy \<Rightarrow> string" where
  "dlq_topic s = rs_dlq_topic s"

lemma calculate_delay_le_max: "calculate_delay fl s attempt \<le> rs_max_delay_ms s"
  by (simp add: calculate_delay_def Let_def)

end
