(* ===== verification/Core_Error.thy ===== *)
theory Core_Error
  imports Runtime
begin

text \<open>
  The errors of the core: one enum per repository port (\<open>features/*/ports.rs\<close>) and the crate's
  own error type (\<open>crates/rs-broker-core/src/shared/error.rs\<close>), with the texts their derived
  \<open>Display\<close> prints.
\<close>

datatype outbox_error = OE_Database string | OE_NotFound uuid
datatype inbox_error = IE_Database string | IE_NotFound uuid
datatype dlq_error = DE_Database string | DE_NotFound uuid
datatype subscriber_error = SE_Database string | SE_NotFound uuid

fun outbox_error_to_string :: "uuid_lib \<Rightarrow> outbox_error \<Rightarrow> string" where
  "outbox_error_to_string ul (OE_Database e) = ''Database error: '' @ e"
| "outbox_error_to_string ul (OE_NotFound i) = ''Message not found: '' @ ul_show ul i"

fun inbox_error_to_string :: "uuid_lib \<Rightarrow> inbox_error \<Rightarrow> string" where
  "inbox_error_to_string ul (IE_Database e) = ''Database error: '' @ e"
| "inbox_error_to_string ul (IE_NotFound i) = ''Message not found: '' @ ul_show ul i"

fun dlq_error_to_string :: "uuid_lib \<Rightarrow> dlq_error \<Rightarrow> string" where
  "dlq_error_to_string ul (DE_Database e) = ''Database error: '' @ e"
| "dlq_error_to_string ul (DE_NotFound i) = ''Message not found: '' @ ul_show ul i"

fun subscriber_error_to_string :: "uuid_lib \<Rightarrow> subscriber_error \<Rightarrow> string" where
  "subscriber_error_to_string ul (SE_Database e) = ''Database error: '' @ e"
| "subscriber_error_to_string ul (SE_NotFound i) = ''Subscriber not found: '' @ ul_show ul i"

text \<open>The configuration and serialization errors are library errors and carry their text.\<close>

datatype core_error =
    CE_Outbox outbox_error
  | CE_Inbox inbox_error
  | CE_Dlq dlq_error
  | CE_Subscriber subscriber_error
  | CE_Config string
  | CE_Serialization string
  | CE_NotFound string
  | CE_InvalidOperation string
  | CE_RetryExhausted string

fun core_error_to_string :: "uuid_lib \<Rightarrow> core_error \<Rightarrow> string" where
  "core_error_to_string ul (CE_Outbox e) = ''Outbox error: '' @ outbox_error_to_string ul e"
| "core_error_to_string ul (CE_Inbox e) = ''Inbox error: '' @ inbox_error_to_string ul e"
| "core_error_to_string ul (CE_Dlq e) = ''DLQ error: '' @ dlq_error_to_string ul e"
| "core_error_to_string ul (CE_Subscriber e) = ''Subscriber error: '' @ subscriber_error_to_string ul e"
| "core_error_to_string ul (CE_Config e) = ''Configuration error: '' @ e"
| "core_error_to_string ul (CE_Serialization e) = ''Serialization error: '' @ e"
| "core_error_to_string ul (CE_NotFound e) = ''Not found: '' @ e"
| "core_error_to_string ul (CE_InvalidOperation e) = ''Invalid operation: '' @ e"
| "core_error_to_string ul (CE_RetryExhausted e) = ''Retry exhausted: '' @ e"

section \<open>The effect of a fallible call\<close>

text \<open>What a caller may conclude from the answer of a storage call whose intended effect takes
  the abstract state \<open>l\<close> to \<open>upd\<close>: an \<open>Ok\<close> means the effect took place; an \<open>Err\<close> leaves open
  whether it did, since the failure may have happened on the way back.\<close>

definition effect :: "('e + 'a) \<Rightarrow> 'l \<Rightarrow> 'l \<Rightarrow> 'l \<Rightarrow> bool" where
  "effect r l upd l' = (case r of Ok _ \<Rightarrow> l' = upd | Err _ \<Rightarrow> l' = l \<or> l' = upd)"

lemma effect_simps [simp]:
  "effect (Ok a) l upd l' \<longleftrightarrow> l' = upd"
  "effect (Err e) l upd l' \<longleftrightarrow> l' = l \<or> l' = upd"
  by (simp_all add: effect_def)

lemma effect_cases:
  assumes "effect r l upd l'"
  obtains "l' = upd" | e where "r = Err e" "l' = l"
  using assms by (cases r) auto

lemma effect_or: "effect r l upd l' \<Longrightarrow> l' = l \<or> l' = upd"
  by (cases r) auto

lemma effect_map_err [simp]: "effect (map_err f r) l upd l' = effect r l upd l'"
  by (cases r) auto

lemma effect_map_ok [simp]: "effect (map_ok f r) l upd l' = effect r l upd l'"
  by (cases r) auto

end
