(* ===== verification/Outbox.thy ===== *)
theory Outbox
  imports Retry Core_Error
begin

text \<open>
  The publishing domain and its storage port: the outbox message with its status ladder
  (\<open>features/publishing/domain.rs\<close>), the \<open>OutboxRepository\<close> and \<open>MessageSink\<close> traits
  (\<open>ports.rs\<close>) and the outbox manager (\<open>manager.rs\<close>). A trait object is a record of functions
  over the state \<open>'s\<close> of whatever implements it. The locale \<open>outbox_port\<close> states what the use cases
  may rely on; theory Db_Outbox interprets it with the Postgres repository.
\<close>

section \<open>The message\<close>

datatype message_status = Pending | Publishing | Published | Retrying | Failed | Dlq

fun message_status_to_string :: "message_status \<Rightarrow> string" where
  "message_status_to_string Pending = ''pending''"
| "message_status_to_string Publishing = ''publishing''"
| "message_status_to_string Published = ''published''"
| "message_status_to_string Retrying = ''retrying''"
| "message_status_to_string Failed = ''failed''"
| "message_status_to_string Dlq = ''dlq''"

record outbox_message =
  om_id :: uuid
  om_aggregate_type :: string
  om_aggregate_id :: string
  om_event_type :: string
  om_payload :: json
  om_headers :: "json option"
  om_topic :: string
  om_partition_key :: "string option"
  om_status :: message_status
  om_retry_count :: i32
  om_error_message :: "string option"
  om_created_at :: timestamp
  om_updated_at :: timestamp
  om_published_at :: "timestamp option"

text \<open>\<open>retry_count.max(0) as u32\<close>.\<close>

definition attempts_so_far :: "outbox_message \<Rightarrow> u32" where
  "attempts_so_far m = (if sint (om_retry_count m) < 0 then 0 else om_retry_count m)"

definition evaluate_publish_failure ::
  "float_lib \<Rightarrow> outbox_message \<Rightarrow> retry_strategy \<Rightarrow> publish_failure_decision" where
  "evaluate_publish_failure fl m retry =
     (if should_retry retry (attempts_so_far m)
      then PF_Retry (calculate_delay fl retry (attempts_so_far m))
      else if is_dlq_enabled retry then PF_DeadLetter (dlq_topic retry)
      else PF_Fail)"

definition outbox_message_new ::
  "string \<Rightarrow> string \<Rightarrow> string \<Rightarrow> json \<Rightarrow> string \<Rightarrow> runtime \<Rightarrow> outbox_message \<times> runtime" where
  "outbox_message_new aggregate_type aggregate_id event_type payload topic rt =
     (let (now, rt1) = utc_now rt;
          (i, rt2) = now_v7 rt1
      in (\<lparr>om_id = i, om_aggregate_type = aggregate_type, om_aggregate_id = aggregate_id,
           om_event_type = event_type, om_payload = payload, om_headers = None, om_topic = topic,
           om_partition_key = None, om_status = Pending, om_retry_count = 0,
           om_error_message = None, om_created_at = now, om_updated_at = now,
           om_published_at = None\<rparr>, rt2))"

lemma outbox_message_new_simps [simp]:
  "om_id (fst (outbox_message_new a b c p t rt)) = fst (now_v7 rt)"
  "om_status (fst (outbox_message_new a b c p t rt)) = Pending"
  "om_retry_count (fst (outbox_message_new a b c p t rt)) = 0"
  "om_topic (fst (outbox_message_new a b c p t rt)) = t"
  "om_payload (fst (outbox_message_new a b c p t rt)) = p"
  "om_error_message (fst (outbox_message_new a b c p t rt)) = None"
  by (simp_all add: outbox_message_new_def utc_now_def now_v7_def)

lemma sint_nonneg_unat: "0 \<le> sint (w :: i32) \<Longrightarrow> sint w = int (unat w)"
  using sint_less [of w] by (simp add: uint_sint take_bit_int_eq_self)

lemma should_retry_attempts:
  "should_retry retry (attempts_so_far m) \<longleftrightarrow> max 0 (sint (om_retry_count m)) < int (unat (rs_max_retries retry))"
proof -
  have "int (unat (attempts_so_far m)) = max 0 (sint (om_retry_count m))"
    by (simp add: attempts_so_far_def sint_nonneg_unat)
  then show ?thesis by (metis should_retry_def word_less_nat_alt of_nat_less_iff)
qed

text \<open>C37: The failure ladder, branch by branch. A message is retried exactly while its retry
  count, a negative one read as zero, is below the configured maximum, with a delay within the
  configured bound; after that it goes to the dead-letter topic exactly when dead-lettering is
  enabled, and fails permanently otherwise.\<close>

theorem publish_failure_ladder:
  "case evaluate_publish_failure fl m retry of
     PF_Retry delay \<Rightarrow>
       max 0 (sint (om_retry_count m)) < int (unat (rs_max_retries retry)) \<and>
       delay \<le> rs_max_delay_ms retry
   | PF_DeadLetter topic \<Rightarrow>
       max 0 (sint (om_retry_count m)) \<ge> int (unat (rs_max_retries retry)) \<and>
       rs_enable_dlq retry \<and> topic = rs_dlq_topic retry
   | PF_Fail \<Rightarrow>
       max 0 (sint (om_retry_count m)) \<ge> int (unat (rs_max_retries retry)) \<and>
       \<not> rs_enable_dlq retry"
  by (auto simp: evaluate_publish_failure_def is_dlq_enabled_def dlq_topic_def should_retry_attempts
      intro: calculate_delay_le_max)

section \<open>Ports\<close>

record outbound_message =
  ob_topic :: string
  ob_key :: "string option"
  ob_payload :: bytes
  ob_partition :: "i32 option"

datatype sink_error = Transport string | Backpressure string

fun sink_error_to_string :: "sink_error \<Rightarrow> string" where
  "sink_error_to_string (Transport e) = e"
| "sink_error_to_string (Backpressure e) = e"

type_synonym 'k message_sink = "outbound_message \<Rightarrow> 'k \<Rightarrow> (sink_error + unit) \<times> 'k"

record 's outbox_repository =
  or_create :: "outbox_message \<Rightarrow> 's \<Rightarrow> (outbox_error + unit) \<times> 's"
  or_create_batch :: "outbox_message list \<Rightarrow> 's \<Rightarrow> (outbox_error + unit) \<times> 's"
  or_get_by_id :: "uuid \<Rightarrow> 's \<Rightarrow> (outbox_error + outbox_message) \<times> 's"
  or_get_pending :: "i64 \<Rightarrow> 's \<Rightarrow> (outbox_error + outbox_message list) \<times> 's"
  or_claim_pending :: "i64 \<Rightarrow> i32 \<Rightarrow> 's \<Rightarrow> (outbox_error + outbox_message list) \<times> 's"
  or_mark_published_batch :: "uuid list \<Rightarrow> 's \<Rightarrow> (outbox_error + u64) \<times> 's"
  or_release_claim :: "uuid \<Rightarrow> 's \<Rightarrow> (outbox_error + unit) \<times> 's"
  or_update_status :: "uuid \<Rightarrow> message_status \<Rightarrow> string option \<Rightarrow> 's \<Rightarrow> (outbox_error + unit) \<times> 's"
  or_increment_retry :: "uuid \<Rightarrow> string option \<Rightarrow> 's \<Rightarrow> (outbox_error + i32) \<times> 's"
  or_mark_published :: "uuid \<Rightarrow> 's \<Rightarrow> (outbox_error + unit) \<times> 's"
  or_delete :: "uuid \<Rightarrow> 's \<Rightarrow> (outbox_error + unit) \<times> 's"

section \<open>The abstract outbox\<close>

text \<open>What the use cases promise is stated on a ledger: for each identifier the message's
  content, status, retry count and last error. Timestamps are left out.\<close>

record entry =
  en_event_type :: string
  en_topic :: string
  en_key :: "string option"
  en_headers :: "json option"
  en_payload :: json
  en_status :: message_status
  en_retries :: i32
  en_error :: "string option"

type_synonym ledger = "uuid \<rightharpoonup> entry"

definition entry_of :: "outbox_message \<Rightarrow> entry" where
  "entry_of m =
     \<lparr>en_event_type = om_event_type m, en_topic = om_topic m, en_key = om_partition_key m,
      en_headers = om_headers m, en_payload = om_payload m,
      en_status = om_status m, en_retries = om_retry_count m, en_error = om_error_message m\<rparr>"

definition claimable :: "entry \<Rightarrow> bool" where
  "claimable e = (en_status e \<in> {Pending, Retrying, Publishing})"

definition on_entry :: "uuid \<Rightarrow> (entry \<Rightarrow> entry) \<Rightarrow> ledger \<Rightarrow> ledger" where
  "on_entry i f l = l(i := map_option f (l i))"

definition on_entries :: "uuid set \<Rightarrow> (entry \<Rightarrow> entry) \<Rightarrow> ledger \<Rightarrow> ledger" where
  "on_entries I f l = (\<lambda>i. if i \<in> I then map_option f (l i) else l i)"

definition claimed :: "entry \<Rightarrow> entry" where
  "claimed e = e\<lparr>en_status := Publishing\<rparr>"

definition published_if_claimed :: "entry \<Rightarrow> entry" where
  "published_if_claimed e = (if en_status e = Publishing then e\<lparr>en_status := Published\<rparr> else e)"

definition released_if_claimed :: "entry \<Rightarrow> entry" where
  "released_if_claimed e = (if en_status e = Publishing then e\<lparr>en_status := Pending\<rparr> else e)"

definition retried :: "string option \<Rightarrow> entry \<Rightarrow> entry" where
  "retried err e = e\<lparr>en_status := Retrying, en_retries := en_retries e + 1, en_error := err\<rparr>"

definition settled :: "message_status \<Rightarrow> string option \<Rightarrow> entry \<Rightarrow> entry" where
  "settled st err e = e\<lparr>en_status := st, en_error := err\<rparr>"

definition add_entries :: "outbox_message list \<Rightarrow> ledger \<Rightarrow> ledger" where
  "add_entries ms l = l ++ map_of (map (\<lambda>m. (om_id m, entry_of m)) ms)"

lemma on_entry_apply [simp]: "on_entry i f l j = (if i = j then map_option f (l i) else l j)"
  by (simp add: on_entry_def)

lemma on_entries_apply [simp]: "on_entries I f l j = (if j \<in> I then map_option f (l j) else l j)"
  by (simp add: on_entries_def)

lemma on_entries_empty [simp]: "on_entries {} f l = l"
  by (simp add: on_entries_def)

lemma dom_on_entry [simp]: "dom (on_entry i f l) = dom l"
  by (auto simp: dom_def split: if_splits)

lemma dom_on_entries [simp]: "dom (on_entries I f l) = dom l"
  by (auto simp: dom_def split: if_splits)

lemma dom_add_entries [simp]: "dom (add_entries ms l) = dom l \<union> om_id ` set ms"
  by (auto simp: add_entries_def dom_map_of_conv_image_fst image_image)

text \<open>Every update of the ladder keeps the content.\<close>

definition same_content :: "entry \<Rightarrow> entry \<Rightarrow> bool" where
  "same_content e e' \<longleftrightarrow>
     en_event_type e' = en_event_type e \<and> en_topic e' = en_topic e \<and> en_key e' = en_key e \<and>
     en_headers e' = en_headers e \<and> en_payload e' = en_payload e"

lemma same_content_refl [simp]: "same_content e e"
  by (simp add: same_content_def)

lemma same_content_trans: "same_content a b \<Longrightarrow> same_content b c \<Longrightarrow> same_content a c"
  by (simp add: same_content_def)

lemma same_content_updates [simp]:
  "same_content e (claimed e)" "same_content e (published_if_claimed e)"
  "same_content e (released_if_claimed e)" "same_content e (retried err e)"
  "same_content e (settled st err e)"
  by (simp_all add: same_content_def claimed_def published_if_claimed_def released_if_claimed_def
      retried_def settled_def)

section \<open>The port's contract\<close>

text \<open>\<open>led\<close> reads the ledger off the implementation's state, \<open>ok\<close> is its invariant.\<close>

locale outbox_port =
  fixes repo :: "'s outbox_repository"
    and led :: "'s \<Rightarrow> ledger"
    and ok :: "'s \<Rightarrow> bool"
  assumes create_law:
      "ok s \<Longrightarrow> or_create repo m s = (r1, s') \<Longrightarrow>
         ok s' \<and> effect r1 (led s) (add_entries [m] (led s)) (led s') \<and>
         (led s' \<noteq> led s \<or> is_ok r1 \<longrightarrow> om_id m \<notin> dom (led s))"
    and create_batch_law:
      "ok s \<Longrightarrow> or_create_batch repo ms s = (r2, s') \<Longrightarrow>
         ok s' \<and> effect r2 (led s) (add_entries ms (led s)) (led s') \<and>
         (led s' \<noteq> led s \<or> is_ok r2 \<longrightarrow>
            distinct (map om_id ms) \<and> om_id ` set ms \<inter> dom (led s) = {})"
    and get_by_id_law:
      "ok s \<Longrightarrow> or_get_by_id repo i s = (r3, s') \<Longrightarrow>
         ok s' \<and> led s' = led s \<and> (\<forall>m. r3 = Ok m \<longrightarrow> om_id m = i \<and> led s i = Some (entry_of m))"
    and get_pending_law:
      "ok s \<Longrightarrow> or_get_pending repo n s = (r4, s') \<Longrightarrow>
         ok s' \<and> led s' = led s \<and>
         (\<forall>ms. r4 = Ok ms \<longrightarrow> distinct (map om_id ms) \<and>
            (\<forall>m \<in> set ms. led s (om_id m) = Some (entry_of m) \<and> om_status m \<in> {Pending, Retrying}))"
    and claim_law:
      "ok s \<Longrightarrow> or_claim_pending repo n lease s = (r5, s') \<Longrightarrow>
         ok s' \<and>
         (\<exists>I. led s' = on_entries I claimed (led s) \<and>
              (\<forall>i \<in> I. \<exists>e. led s i = Some e \<and> claimable e) \<and>
              (\<forall>ms. r5 = Ok ms \<longrightarrow> distinct (map om_id ms) \<and> I = om_id ` set ms \<and>
                      int (length ms) \<le> sint n \<and>
                      (\<forall>m \<in> set ms. led s' (om_id m) = Some (entry_of m))))"
    and mark_batch_law:
      "ok s \<Longrightarrow> or_mark_published_batch repo ids s = (r6, s') \<Longrightarrow>
         ok s' \<and> effect r6 (led s) (on_entries (set ids) published_if_claimed (led s)) (led s')"
    and release_law:
      "ok s \<Longrightarrow> or_release_claim repo i s = (r7, s') \<Longrightarrow>
         ok s' \<and> effect r7 (led s) (on_entry i released_if_claimed (led s)) (led s')"
    and update_status_law:
      "ok s \<Longrightarrow> or_update_status repo i st err s = (r8, s') \<Longrightarrow>
         ok s' \<and> effect r8 (led s) (on_entry i (settled st err) (led s)) (led s')"
    and increment_law:
      "ok s \<Longrightarrow> or_increment_retry repo i err s = (r9, s') \<Longrightarrow>
         ok s' \<and> effect r9 (led s) (on_entry i (retried err) (led s)) (led s') \<and>
         (\<forall>c. r9 = Ok c \<longrightarrow> (\<exists>e. led s i = Some e \<and> c = en_retries e + 1))"
    and mark_published_law:
      "ok s \<Longrightarrow> or_mark_published repo i s = (r10, s') \<Longrightarrow>
         ok s' \<and> effect r10 (led s) (on_entry i (\<lambda>e. e\<lparr>en_status := Published\<rparr>) (led s)) (led s')"
    and delete_law:
      "ok s \<Longrightarrow> or_delete repo i s = (r11, s') \<Longrightarrow>
         ok s' \<and> effect r11 (led s) ((led s)(i := None)) (led s')"

section \<open>OutboxManager\<close>

record 's outbox_manager =
  mg_repository :: "'s outbox_repository"
  mg_retry_strategy :: retry_strategy

definition outbox_manager_new :: "'s outbox_repository \<Rightarrow> retry_config \<Rightarrow> 's outbox_manager" where
  "outbox_manager_new repo config =
     \<lparr>mg_repository = repo, mg_retry_strategy = retry_strategy_new config\<rparr>"

definition create_message ::
  "'s outbox_manager \<Rightarrow> string \<Rightarrow> string \<Rightarrow> string \<Rightarrow> json \<Rightarrow> string \<Rightarrow> runtime \<Rightarrow> 's
     \<Rightarrow> (core_error + uuid) \<times> runtime \<times> 's" where
  "create_message mg aggregate_type aggregate_id event_type payload topic rt s =
     (let (message, rt1) = outbox_message_new aggregate_type aggregate_id event_type payload topic rt;
          (r, s1) = or_create (mg_repository mg) message s
      in (map_ok (\<lambda>_. om_id message) (map_err CE_Outbox r), rt1, s1))"

fun new_messages ::
  "(string \<times> string \<times> string \<times> json \<times> string) list \<Rightarrow> runtime \<Rightarrow> outbox_message list \<times> runtime" where
  "new_messages [] rt = ([], rt)"
| "new_messages ((a, b, c, p, t) # xs) rt =
     (let (m, rt1) = outbox_message_new a b c p t rt;
          (ms, rt2) = new_messages xs rt1
      in (m # ms, rt2))"

definition create_messages_batch ::
  "'s outbox_manager \<Rightarrow> (string \<times> string \<times> string \<times> json \<times> string) list \<Rightarrow> runtime \<Rightarrow> 's
     \<Rightarrow> (core_error + uuid list) \<times> runtime \<times> 's" where
  "create_messages_batch mg messages rt s =
     (let (outbox_messages, rt1) = new_messages messages rt;
          ids = map om_id outbox_messages;
          (r, s1) = or_create_batch (mg_repository mg) outbox_messages s
      in (map_ok (\<lambda>_. ids) (map_err CE_Outbox r), rt1, s1))"

definition get_message :: "'s outbox_manager \<Rightarrow> uuid \<Rightarrow> 's \<Rightarrow> (core_error + outbox_message) \<times> 's" where
  "get_message mg i s = apfst (map_err CE_Outbox) (or_get_by_id (mg_repository mg) i s)"

definition get_pending_messages ::
  "'s outbox_manager \<Rightarrow> i64 \<Rightarrow> 's \<Rightarrow> (core_error + outbox_message list) \<times> 's" where
  "get_pending_messages mg n s = apfst (map_err CE_Outbox) (or_get_pending (mg_repository mg) n s)"

definition manager_mark_published :: "'s outbox_manager \<Rightarrow> uuid \<Rightarrow> 's \<Rightarrow> (core_error + unit) \<times> 's" where
  "manager_mark_published mg i s = apfst (map_err CE_Outbox) (or_mark_published (mg_repository mg) i s)"

definition mark_failed :: "'s outbox_manager \<Rightarrow> uuid \<Rightarrow> string \<Rightarrow> 's \<Rightarrow> (core_error + unit) \<times> 's" where
  "mark_failed mg i err s =
     apfst (map_err CE_Outbox) (or_update_status (mg_repository mg) i Failed (Some err) s)"

lemma new_messages_ids:
  "fst (new_messages xs rt) = ms \<Longrightarrow> length ms = length xs \<and> (\<forall>m \<in> set ms. om_status m = Pending)"
proof (induction xs arbitrary: rt ms)
  case Nil
  then show ?case by auto
next
  case (Cons x xs)
  obtain a b c p t where x: "x = (a, b, c, p, t)" by (cases x)
  let ?rt1 = "snd (outbox_message_new a b c p t rt)"
  from Cons.prems x have ms: "ms = fst (outbox_message_new a b c p t rt) # fst (new_messages xs ?rt1)"
    by (auto simp: Let_def split: prod.splits)
  from Cons.IH [of ?rt1, OF refl] show ?case by (auto simp: ms)
qed

end
