(* ===== verification/Publisher.thy ===== *)
theory Publisher
  imports Outbox
begin

text \<open>
  \<open>features/publishing/publisher.rs\<close>: the background drain of the outbox. One round
  (\<open>publish_pending\<close>) claims a batch, hands each message to the sink, settles failures one by one
  and marks the accepted messages as published in one call. Log output is left out (the retry
  delay the code computes for its warning is only logged). The repository's state is \<open>'s\<close>, the
  sink's is \<open>'k\<close>.
\<close>

definition claim_lease_secs :: i32 where
  "claim_lease_secs = 60"

record ('s, 'k) outbox_publisher =
  pb_repository :: "'s outbox_repository"
  pb_sink :: "'k message_sink"
  pb_retry_strategy :: retry_strategy
  pb_running :: bool      \<comment> \<open>\<open>shutdown_tx\<close> is set\<close>

definition outbox_publisher_new ::
  "'s outbox_repository \<Rightarrow> 'k message_sink \<Rightarrow> retry_config \<Rightarrow> core_error + ('s, 'k) outbox_publisher" where
  "outbox_publisher_new repo sink config =
     Ok \<lparr>pb_repository = repo, pb_sink = sink, pb_retry_strategy = retry_strategy_new config,
         pb_running = False\<rparr>"

definition outbound_to :: "string \<Rightarrow> outbox_message \<Rightarrow> bytes \<Rightarrow> outbound_message" where
  "outbound_to topic m payload =
     \<lparr>ob_topic = topic, ob_key = om_partition_key m, ob_payload = payload, ob_partition = None\<rparr>"

definition exhausted_text :: "outbox_message \<Rightarrow> sink_error \<Rightarrow> string" where
  "exhausted_text m e =
     ''exhausted '' @ show_u (om_retry_count m) @ '' retries; last error: '' @ sink_error_to_string e"

definition settle_failure ::
  "serde \<Rightarrow> float_lib \<Rightarrow> 's outbox_repository \<Rightarrow> 'k message_sink \<Rightarrow> retry_strategy
     \<Rightarrow> outbox_message \<Rightarrow> sink_error \<Rightarrow> 's \<Rightarrow> 'k \<Rightarrow> (core_error + unit) \<times> 's \<times> 'k" where
  "settle_failure sd fl repo sink retry m e s k =
     (case e of
        Backpressure text \<Rightarrow>
          let (_, s1) = or_release_claim repo (om_id m) s in (Ok (), s1, k)
      | Transport text \<Rightarrow>
          (case evaluate_publish_failure fl m retry of
             PF_Retry next_delay \<Rightarrow>
               let (_, s1) = or_increment_retry repo (om_id m) (Some (sink_error_to_string e)) s
               in (Ok (), s1, k)
           | PF_DeadLetter topic \<Rightarrow>
               (case sd_to_vec sd (om_payload m) of
                  Err err \<Rightarrow> (Err (CE_Serialization err), s, k)
                | Ok dlq_payload \<Rightarrow>
                    let (_, k1) = sink (outbound_to topic m dlq_payload) k;
                        (_, s1) = or_update_status repo (om_id m) Dlq (Some (exhausted_text m e)) s
                    in (Ok (), s1, k1))
           | PF_Fail \<Rightarrow>
               let (_, s1) = or_update_status repo (om_id m) Failed (Some (exhausted_text m e)) s
               in (Ok (), s1, k)))"

fun drain ::
  "serde \<Rightarrow> float_lib \<Rightarrow> 's outbox_repository \<Rightarrow> 'k message_sink \<Rightarrow> retry_strategy
     \<Rightarrow> outbox_message list \<Rightarrow> uuid list \<Rightarrow> 's \<Rightarrow> 'k \<Rightarrow> (core_error + uuid list) \<times> 's \<times> 'k" where
  "drain sd fl repo sink retry [] published s k = (Ok published, s, k)"
| "drain sd fl repo sink retry (m # ms) published s k =
     (case sd_to_vec sd (om_payload m) of
        Err err \<Rightarrow> (Err (CE_Serialization err), s, k)
      | Ok payload \<Rightarrow>
          (case sink (outbound_to (om_topic m) m payload) k of
             (Ok _, k1) \<Rightarrow> drain sd fl repo sink retry ms (published @ [om_id m]) s k1
           | (Err e, k1) \<Rightarrow>
               (case settle_failure sd fl repo sink retry m e s k1 of
                  (Err err, s1, k2) \<Rightarrow> (Err err, s1, k2)
                | (Ok _, s1, k2) \<Rightarrow> drain sd fl repo sink retry ms published s1 k2)))"

definition publish_pending ::
  "serde \<Rightarrow> float_lib \<Rightarrow> 's outbox_repository \<Rightarrow> 'k message_sink \<Rightarrow> retry_strategy \<Rightarrow> i64
     \<Rightarrow> 's \<Rightarrow> 'k \<Rightarrow> (core_error + unit) \<times> 's \<times> 'k" where
  "publish_pending sd fl repo sink retry batch_size s k =
     (case or_claim_pending repo batch_size claim_lease_secs s of
        (Err e, s1) \<Rightarrow> (Err (CE_Outbox e), s1, k)
      | (Ok pending, s1) \<Rightarrow>
          (case drain sd fl repo sink retry pending [] s1 k of
             (Err e, s2, k2) \<Rightarrow> (Err e, s2, k2)
           | (Ok published, s2, k2) \<Rightarrow>
               if published = [] then (Ok (), s2, k2)
               else let (_, s3) = or_mark_published_batch repo published s2 in (Ok (), s3, k2)))"

text \<open>The spawned task of \<open>start\<close>, over the arms its \<open>select!\<close> takes: every tick runs one round and only
  logs its error; \<open>rx.recv()\<close> ends the loop, whether it gives the shutdown message or, the sender having
  been dropped, nothing.\<close>

datatype worker_event = Tick | Shutdown | Channel_Closed

fun worker ::
  "serde \<Rightarrow> float_lib \<Rightarrow> ('s, 'k) outbox_publisher \<Rightarrow> i64 \<Rightarrow> worker_event list \<Rightarrow> 's \<Rightarrow> 'k \<Rightarrow> 's \<times> 'k" where
  "worker sd fl pb batch_size [] s k = (s, k)"
| "worker sd fl pb batch_size (Shutdown # evs) s k = (s, k)"
| "worker sd fl pb batch_size (Channel_Closed # evs) s k = (s, k)"
| "worker sd fl pb batch_size (Tick # evs) s k =
     (let (_, s1, k1) = publish_pending sd fl (pb_repository pb) (pb_sink pb) (pb_retry_strategy pb) batch_size s k
      in worker sd fl pb batch_size evs s1 k1)"

section \<open>The abstract round\<close>

text \<open>What one failed attempt does to an entry.\<close>

definition settle_entry :: "float_lib \<Rightarrow> retry_strategy \<Rightarrow> outbox_message \<Rightarrow> sink_error \<Rightarrow> entry \<Rightarrow> entry" where
  "settle_entry fl retry m e =
     (case e of
        Backpressure _ \<Rightarrow> released_if_claimed
      | Transport _ \<Rightarrow>
          (case evaluate_publish_failure fl m retry of
             PF_Retry _ \<Rightarrow> retried (Some (sink_error_to_string e))
           | PF_DeadLetter _ \<Rightarrow> settled Dlq (Some (exhausted_text m e))
           | PF_Fail \<Rightarrow> settled Failed (Some (exhausted_text m e))))"

text \<open>The round on the ledger, message by message: an accepted message is published, a refused
  one settled, and a dead-lettered one is also offered to the dead-letter topic.\<close>

fun spec_round ::
  "serde \<Rightarrow> float_lib \<Rightarrow> 'k message_sink \<Rightarrow> retry_strategy \<Rightarrow> outbox_message list \<Rightarrow> ledger \<Rightarrow> 'k \<Rightarrow> ledger \<times> 'k" where
  "spec_round sd fl sink retry [] l k = (l, k)"
| "spec_round sd fl sink retry (m # ms) l k =
     (case sd_to_vec sd (om_payload m) of
        Err err \<Rightarrow> (l, k)
      | Ok payload \<Rightarrow>
          (case sink (outbound_to (om_topic m) m payload) k of
             (Ok _, k1) \<Rightarrow> spec_round sd fl sink retry ms (on_entry (om_id m) published_if_claimed l) k1
           | (Err e, k1) \<Rightarrow>
               spec_round sd fl sink retry ms (on_entry (om_id m) (settle_entry fl retry m e) l)
                 (case (e, evaluate_publish_failure fl m retry) of
                    (Transport _, PF_DeadLetter topic) \<Rightarrow> snd (sink (outbound_to topic m payload) k1)
                  | _ \<Rightarrow> k1)))"

text \<open>A sink with a memory of what it was offered and what it answered, and what that memory
  says of a message.\<close>

type_synonym sink_log = "(outbound_message \<times> (sink_error + unit)) list"

definition recording :: "'k message_sink \<Rightarrow> ('k \<times> sink_log) message_sink" where
  "recording sink ob st = (let (r, k) = sink ob (fst st) in (r, k, snd st @ [(ob, r)]))"

definition answered :: "serde \<Rightarrow> sink_log \<Rightarrow> outbox_message \<Rightarrow> (sink_error + unit) \<Rightarrow> bool" where
  "answered sd lg m a \<longleftrightarrow>
     (\<exists>p. sd_to_vec sd (om_payload m) = Ok p \<and> (outbound_to (om_topic m) m p, a) \<in> set lg)"

lemma recording_eq: "recording sink ob (k, lg) = (fst (sink ob k), snd (sink ob k), lg @ [(ob, fst (sink ob k))])"
  by (simp add: recording_def split: prod.split)

lemma answered_mono: "answered sd lg m a \<Longrightarrow> set lg \<subseteq> set lg' \<Longrightarrow> answered sd lg' m a"
  by (auto simp: answered_def)

lemma same_content_settle [simp]: "same_content e (settle_entry fl retry m err e)"
  by (simp add: settle_entry_def split: sink_error.split publish_failure_decision.split)

lemma settle_entry_not_published:
  "en_status (settle_entry fl retry m err e) = Published \<Longrightarrow> en_status e = Published"
  by (auto simp: settle_entry_def released_if_claimed_def retried_def settled_def
      split: sink_error.splits publish_failure_decision.splits if_splits)

lemma settle_entry_dead:
  "en_status (settle_entry fl retry m err e) \<in> {Dlq, Failed} \<Longrightarrow> en_status e \<notin> {Dlq, Failed} \<Longrightarrow>
     \<not> should_retry retry (attempts_so_far m) \<and> (\<exists>t. err = Transport t)"
  by (auto simp: settle_entry_def released_if_claimed_def retried_def settled_def
      evaluate_publish_failure_def split: sink_error.splits publish_failure_decision.splits if_splits)

text \<open>Between two ledgers, each entry is the same or was settled once, on account of a message the
  sink refused.\<close>

definition settled_by ::
  "serde \<Rightarrow> float_lib \<Rightarrow> retry_strategy \<Rightarrow> sink_log \<Rightarrow> outbox_message list \<Rightarrow> ledger \<Rightarrow> ledger \<Rightarrow> bool" where
  "settled_by sd fl retry lg ms l l' \<longleftrightarrow>
     (\<forall>i. l' i = l i \<or> (\<exists>m \<in> set ms. \<exists>err. om_id m = i \<and> answered sd lg m (Err err) \<and>
                          l' i = map_option (settle_entry fl retry m err) (l i)))"

lemma settled_by_refl [simp]: "settled_by sd fl retry lg ms l l"
  by (simp add: settled_by_def)

lemma settled_byD:
  "settled_by sd fl retry lg ms l l' \<Longrightarrow>
     l' i = l i \<or> (\<exists>m err. m \<in> set ms \<and> om_id m = i \<and> answered sd lg m (Err err) \<and>
                     l' i = map_option (settle_entry fl retry m err) (l i))"
  by (auto simp: settled_by_def)

lemma settled_by_other:
  assumes "settled_by sd fl retry lg ms l l'" and "i \<notin> om_id ` set ms"
  shows "l' i = l i"
proof (rule ccontr)
  assume "l' i \<noteq> l i"
  with assms(1) obtain m where "m \<in> set ms" "om_id m = i" unfolding settled_by_def by metis
  with assms(2) show False by blast
qed

lemma settled_by_one:
  "answered sd lg m (Err err) \<Longrightarrow> l' = l \<or> l' = on_entry (om_id m) (settle_entry fl retry m err) l \<Longrightarrow>
     settled_by sd fl retry lg (m # ms) l l'"
  by (auto simp: settled_by_def)

lemma settled_by_skip: "settled_by sd fl retry lg ms l l' \<Longrightarrow> settled_by sd fl retry lg (m # ms) l l'"
  unfolding settled_by_def list.set by blast

lemma settled_by_Cons:
  assumes one: "l1 = l \<or> l1 = on_entry (om_id m) (settle_entry fl retry m err) l"
    and refused: "answered sd lg m (Err err)"
    and rest: "settled_by sd fl retry lg ms l1 l'" and new: "om_id m \<notin> om_id ` set ms"
  shows "settled_by sd fl retry lg (m # ms) l l'"
  unfolding settled_by_def
proof
  fix i
  show "l' i = l i \<or> (\<exists>m' \<in> set (m # ms). \<exists>err. om_id m' = i \<and> answered sd lg m' (Err err) \<and>
          l' i = map_option (settle_entry fl retry m' err) (l i))"
  proof (cases "i = om_id m")
    case True
    with settled_by_other [OF rest new] have "l' i = l1 i" by simp
    with one refused True show ?thesis by auto
  next
    case False
    with one have "l1 i = l i" by auto
    with settled_byD [OF rest, of i] show ?thesis by (simp only: list.set) blast
  qed
qed

section \<open>The round over any outbox that keeps the contract\<close>

context outbox_port begin

lemma settle_failure_law:
  assumes "ok s" and "settle_failure sd fl repo sink retry m e s k = (r, s', k')"
  shows "ok s' \<and> (led s' = led s \<or> led s' = on_entry (om_id m) (settle_entry fl retry m e) (led s))"
proof (cases e)
  case (Backpressure t)
  obtain r1 s1 where c: "or_release_claim repo (om_id m) s = (r1, s1)" by fastforce
  with assms(2) Backpressure have "s' = s1" by (simp add: settle_failure_def)
  with release_law [OF assms(1) c] Backpressure show ?thesis
    by (auto simp: settle_entry_def dest: effect_or)
next
  case (Transport t)
  show ?thesis
  proof (cases "evaluate_publish_failure fl m retry")
    case (PF_Retry d)
    obtain r1 s1 where c: "or_increment_retry repo (om_id m) (Some (sink_error_to_string e)) s = (r1, s1)"
      by fastforce
    with assms(2) Transport PF_Retry have "s' = s1" by (simp add: settle_failure_def)
    with increment_law [OF assms(1) c] Transport PF_Retry show ?thesis
      by (auto simp: settle_entry_def dest: effect_or)
  next
    case (PF_DeadLetter topic)
    obtain r1 s1 where c: "or_update_status repo (om_id m) Dlq (Some (exhausted_text m e)) s = (r1, s1)"
      by fastforce
    with assms(2) Transport PF_DeadLetter have "s' = s1 \<or> s' = s"
      by (auto simp: settle_failure_def split: sum.splits prod.splits)
    with update_status_law [OF assms(1) c] assms(1) Transport PF_DeadLetter show ?thesis
      by (auto simp: settle_entry_def dest: effect_or)
  next
    case PF_Fail
    obtain r1 s1 where c: "or_update_status repo (om_id m) Failed (Some (exhausted_text m e)) s = (r1, s1)"
      by fastforce
    with assms(2) Transport PF_Fail have "s' = s1" by (simp add: settle_failure_def)
    with update_status_law [OF assms(1) c] Transport PF_Fail show ?thesis
      by (auto simp: settle_entry_def dest: effect_or)
  qed
qed

lemma settle_failure_log:
  "settle_failure sd fl repo (recording sink) retry m e s (k, lg) = (r, s', k', lg') \<Longrightarrow>
     set lg \<subseteq> set lg'"
  by (auto simp: settle_failure_def recording_eq split: sink_error.splits publish_failure_decision.splits
      sum.splits prod.splits)

lemma drain_keeps:
  assumes "ok s" and "drain sd fl repo (recording sink) retry ms pub s (k, lg) = (r, s', k', lg')"
    and "distinct (map om_id ms)"
  shows "ok s' \<and> set lg \<subseteq> set lg' \<and> settled_by sd fl retry lg' ms (led s) (led s') \<and>
         (\<forall>pub'. r = Ok pub' \<longrightarrow> (\<forall>i \<in> set pub'. i \<in> set pub \<or>
            (\<exists>m \<in> set ms. om_id m = i \<and> answered sd lg' m (Ok ()) \<and> led s' i = led s i)))"
  using assms
proof (induction ms arbitrary: pub s k lg)
  case Nil
  then show ?case by auto
next
  case (Cons m ms)
  have dist: "distinct (map om_id ms)" and new: "om_id m \<notin> om_id ` set ms"
    using Cons.prems(3) by auto
  show ?case
  proof (cases "sd_to_vec sd (om_payload m)")
    case (Inl err)
    with Cons.prems show ?thesis by auto
  next
    case payload: (Inr payload)
    let ?ob = "outbound_to (om_topic m) m payload"
    obtain a k1 where a: "sink ?ob k = (a, k1)" by fastforce
    let ?lg1 = "lg @ [(?ob, a)]"
    have ans: "answered sd lg' m a" if "set ?lg1 \<subseteq> set lg'"
      using that payload by (auto simp: answered_def)
    show ?thesis
    proof (cases a)
      case acc: (Inr u)
      with a payload Cons.prems(2)
      have "drain sd fl repo (recording sink) retry ms (pub @ [om_id m]) s (k1, ?lg1) = (r, s', k', lg')"
        by (simp add: recording_eq)
      note IH = Cons.IH [OF Cons.prems(1) this dist]
      then have "led s' (om_id m) = led s (om_id m)"
        using settled_by_other [OF _ new] by blast
      with IH ans acc show ?thesis by (auto simp: settled_by_skip)
    next
      case e: (Inl e)
      obtain r1 s1 k2 lg2 where
        f: "settle_failure sd fl repo (recording sink) retry m e s (k1, ?lg1) = (r1, s1, k2, lg2)"
        by (metis prod_cases4)
      note one = settle_failure_law [OF Cons.prems(1) f] and lg2 = settle_failure_log [OF f]
      show ?thesis
      proof (cases r1)
        case (Inl err)
        with e f a payload Cons.prems(2) have "s' = s1" "lg' = lg2" "r = Err err"
          by (simp_all add: recording_eq)
        with one lg2 ans e show ?thesis by (auto intro: settled_by_one)
      next
        case (Inr u)
        with e f a payload Cons.prems(2)
        have d: "drain sd fl repo (recording sink) retry ms pub s1 (k2, lg2) = (r, s', k', lg')"
          by (simp add: recording_eq)
        from one have "ok s1" by simp
        note IH = Cons.IH [OF this d dist]
        with lg2 ans e have ref: "answered sd lg' m (Err e)" by auto
        have keep: "led s1 i = led s i" if "i \<noteq> om_id m" for i using one that by auto
        from IH have "settled_by sd fl retry lg' (m # ms) (led s) (led s')"
          by (blast intro: settled_by_Cons [OF conjunct2 [OF one] ref _ new])
        moreover have "i \<in> set pub \<or>
            (\<exists>m' \<in> set (m # ms). om_id m' = i \<and> answered sd lg' m' (Ok ()) \<and> led s' i = led s i)"
          if "r = Ok pub'" "i \<in> set pub'" for pub' i
        proof -
          from IH that consider "i \<in> set pub"
            | m' where "m' \<in> set ms" "om_id m' = i" "answered sd lg' m' (Ok ())" "led s' i = led s1 i"
            by blast
          then show ?thesis
          proof cases
            case 2
            with new have "i \<noteq> om_id m" by (metis imageI)
            with 2 keep show ?thesis by auto
          qed simp
        qed
        ultimately show ?thesis using IH lg2 by auto
      qed
    qed
  qed
qed

text \<open>What a round may do to one entry, errors of the store included.\<close>

lemma publish_pending_entry:
  assumes "ok s" and run: "publish_pending sd fl repo (recording sink) retry n s (k, []) = (r, s', k', lg)"
    and e: "led s i = Some e"
  shows "\<exists>e'. led s' i = Some e' \<and>
          (e' = e \<or> claimable e \<and>
            (e' = claimed e \<or>
             (\<exists>m. om_id m = i \<and> entry_of m = claimed e \<and>
               (answered sd lg m (Ok ()) \<and> e' = e\<lparr>en_status := Published\<rparr> \<or>
                (\<exists>err. answered sd lg m (Err err) \<and> e' = settle_entry fl retry m err (claimed e))))))"
proof -
  obtain rc s1 where c: "or_claim_pending repo n claim_lease_secs s = (rc, s1)" by fastforce
  from claim_law [OF \<open>ok s\<close> c] obtain I where "ok s1" and l1: "led s1 = on_entries I claimed (led s)"
    and I: "\<forall>i \<in> I. \<exists>e. led s i = Some e \<and> claimable e"
    and batch: "\<forall>ms. rc = Ok ms \<longrightarrow> distinct (map om_id ms) \<and> I = om_id ` set ms \<and>
                   int (length ms) \<le> sint n \<and> (\<forall>m \<in> set ms. led s1 (om_id m) = Some (entry_of m))"
    by blast
  show ?thesis
  proof (cases rc)
    case (Inl er)
    with c run have "s' = s1" by (simp add: publish_pending_def)
    with l1 I e show ?thesis by auto
  next
    case (Inr ms)
    with batch have dist: "distinct (map om_id ms)" and Ims: "I = om_id ` set ms"
      and ent: "\<And>m. m \<in> set ms \<Longrightarrow> led s1 (om_id m) = Some (entry_of m)" by auto
    obtain rd s2 k2 lg2 where d: "drain sd fl repo (recording sink) retry ms [] s1 (k, []) = (rd, s2, k2, lg2)"
      by (metis prod_cases4)
    note dk = drain_keeps [OF \<open>ok s1\<close> d dist]
    have lg: "lg = lg2" and fin: "s' = s2 \<or> (\<exists>pub rm. rd = Ok pub \<and> or_mark_published_batch repo pub s2 = (rm, s'))"
      using run c Inr d by (auto simp: publish_pending_def split: sum.splits prod.splits if_splits)
    have marked: "led s' i = led s2 i \<or>
        (\<exists>m \<in> set ms. om_id m = i \<and> answered sd lg m (Ok ()) \<and> led s2 i = led s1 i \<and>
                       led s' i = map_option published_if_claimed (led s1 i))"
      using fin
    proof
      assume "\<exists>pub rm. rd = Ok pub \<and> or_mark_published_batch repo pub s2 = (rm, s')"
      then obtain pub rm where pub: "rd = Ok pub" and mk: "or_mark_published_batch repo pub s2 = (rm, s')" by blast
      from mark_batch_law [OF _ mk] dk
      have "led s' = led s2 \<or> led s' = on_entries (set pub) published_if_claimed (led s2)"
        by (auto dest: effect_or)
      with dk pub lg show ?thesis by (cases "i \<in> set pub") fastforce+
    qed simp
    show ?thesis
    proof (cases "i \<in> I")
      case False
      with Ims have no: "i \<notin> om_id ` set ms" by simp
      from dk have "led s2 i = led s1 i" by (blast intro: settled_by_other [OF _ no])
      moreover from marked no have "led s' i = led s2 i" by auto
      ultimately show ?thesis using e l1 False by simp
    next
      case True
      with I e l1 have cl: "claimable e" and s1i: "led s1 i = Some (claimed e)" by auto
      have ent': "entry_of m = claimed e" if "m \<in> set ms" "om_id m = i" for m
        using ent [OF that(1)] that(2) s1i by simp
      from marked show ?thesis
      proof
        assume "led s' i = led s2 i"
        moreover from dk have "settled_by sd fl retry lg2 ms (led s1) (led s2)" by simp
        note settled_byD [OF this, of i]
        ultimately show ?thesis using s1i cl ent' lg by (elim disjE exE conjE) (simp_all, blast)
      next
        assume "\<exists>m \<in> set ms. om_id m = i \<and> answered sd lg m (Ok ()) \<and> led s2 i = led s1 i \<and>
                       led s' i = map_option published_if_claimed (led s1 i)"
        with s1i cl ent' show ?thesis by (auto simp: published_if_claimed_def claimed_def)
      qed
    qed
  qed
qed

end


lemma settled_by_dom:
  assumes "settled_by sd fl retry lg ms l l'"
  shows "dom l' = dom l"
proof (rule set_eqI)
  fix i from settled_byD [OF assms, of i] show "i \<in> dom l' \<longleftrightarrow> i \<in> dom l"
    by (elim disjE exE conjE) (auto simp: dom_def)
qed

context outbox_port begin

lemma publish_pending_keeps:
  assumes "ok s" and run: "publish_pending sd fl repo (recording sink) retry n s (k, []) = (r, s', k', lg)"
  shows "ok s' \<and> dom (led s') = dom (led s)"
proof -
  obtain rc s1 where c: "or_claim_pending repo n claim_lease_secs s = (rc, s1)" by fastforce
  from claim_law [OF \<open>ok s\<close> c] have "ok s1" and dom1: "dom (led s1) = dom (led s)"
    and batch: "\<forall>ms. rc = Ok ms \<longrightarrow> distinct (map om_id ms)" by auto
  show ?thesis
  proof (cases rc)
    case (Inl er)
    with c run have "s' = s1" by (simp add: publish_pending_def)
    with \<open>ok s1\<close> dom1 show ?thesis by simp
  next
    case (Inr ms)
    with batch have dist: "distinct (map om_id ms)" by simp
    obtain rd s2 k2 lg2 where d: "drain sd fl repo (recording sink) retry ms [] s1 (k, []) = (rd, s2, k2, lg2)"
      by (metis prod_cases4)
    from drain_keeps [OF \<open>ok s1\<close> d dist] have "ok s2" and dom2: "dom (led s2) = dom (led s1)"
      using settled_by_dom by blast+
    have "s' = s2 \<or> (\<exists>pub rm. or_mark_published_batch repo pub s2 = (rm, s'))"
      using run c Inr d by (auto simp: publish_pending_def split: sum.splits prod.splits if_splits)
    then show ?thesis
    proof
      assume "\<exists>pub rm. or_mark_published_batch repo pub s2 = (rm, s')"
      then obtain pub rm where "or_mark_published_batch repo pub s2 = (rm, s')" by blast
      note law = mark_batch_law [OF \<open>ok s2\<close> this]
      then have "led s' = led s2 \<or> led s' = on_entries (set pub) published_if_claimed (led s2)"
        by (blast dest: effect_or)
      then have "dom (led s') = dom (led s2)" by (elim disjE) simp_all
      with law dom1 dom2 show ?thesis by simp
    qed (use \<open>ok s2\<close> dom1 dom2 in simp)
  qed
qed

end

text \<open>The memory does not change the run.\<close>

lemma settle_failure_recording:
  "settle_failure sd fl repo sink retry m e s k = (r, s', k') \<Longrightarrow>
     \<exists>lg'. settle_failure sd fl repo (recording sink) retry m e s (k, lg) = (r, s', k', lg')"
  by (auto simp: settle_failure_def recording_eq split: sink_error.splits publish_failure_decision.splits
      sum.splits prod.splits)

lemma drain_recording:
  "drain sd fl repo sink retry ms pub s k = (r, s', k') \<Longrightarrow>
     \<exists>lg'. drain sd fl repo (recording sink) retry ms pub s (k, lg) = (r, s', k', lg')"
proof (induction ms arbitrary: pub s k lg)
  case Nil
  then show ?case by simp
next
  case (Cons m ms)
  show ?case
  proof (cases "sd_to_vec sd (om_payload m)")
    case (Inl err)
    with Cons.prems show ?thesis by simp
  next
    case payload: (Inr payload)
    let ?ob = "outbound_to (om_topic m) m payload"
    obtain a k1 where a: "sink ?ob k = (a, k1)" by fastforce
    show ?thesis
    proof (cases a)
      case (Inr u)
      with a payload Cons.prems Cons.IH [of "pub @ [om_id m]" s k1 "lg @ [(?ob, Ok ())]"]
      show ?thesis by (simp add: recording_eq)
    next
      case e: (Inl e)
      obtain r1 s1 k2 where f: "settle_failure sd fl repo sink retry m e s k1 = (r1, s1, k2)"
        by (metis prod_cases3)
      from settle_failure_recording [OF f, of "lg @ [(?ob, Err e)]"] obtain lg2 where
        f': "settle_failure sd fl repo (recording sink) retry m e s (k1, lg @ [(?ob, Err e)]) = (r1, s1, k2, lg2)"
        by blast
      show ?thesis
      proof (cases r1)
        case (Inl err)
        with e a f f' payload Cons.prems show ?thesis by (simp add: recording_eq)
      next
        case (Inr u)
        with e a f f' payload Cons.prems Cons.IH [of pub s1 k2 lg2] show ?thesis
          by (simp add: recording_eq)
      qed
    qed
  qed
qed

lemma publish_pending_recording:
  assumes "publish_pending sd fl repo sink retry n s k = (r, s', k')"
  shows "\<exists>lg. publish_pending sd fl repo (recording sink) retry n s (k, []) = (r, s', k', lg)"
proof (cases "or_claim_pending repo n claim_lease_secs s")
  case (Pair rc s1)
  show ?thesis
  proof (cases rc)
    case (Inl e)
    with Pair assms show ?thesis by (simp add: publish_pending_def)
  next
    case (Inr ms)
    obtain rd s2 k2 where d: "drain sd fl repo sink retry ms [] s1 k = (rd, s2, k2)" by (metis prod_cases3)
    from drain_recording [OF d, of "[]"] obtain lg where
      "drain sd fl repo (recording sink) retry ms [] s1 (k, []) = (rd, s2, k2, lg)" by blast
    with d Inr Pair assms show ?thesis
      by (auto simp: publish_pending_def split: sum.splits if_splits prod.splits)
  qed
qed

section \<open>The round refines the abstract round when the store does not fail\<close>

lemma on_entries_commute:
  "i \<notin> P \<Longrightarrow> on_entries P f (on_entry i g l) = on_entry i g (on_entries P f l)"
  by (rule ext) auto

lemma on_entries_snoc:
  "i \<notin> set P \<Longrightarrow> on_entries (set (P @ [i])) f l = on_entry i f (on_entries (set P) f l)"
  by (rule ext) auto

text \<open>\<open>calm\<close> says that no failure of the store is ahead.\<close>

locale calm_outbox_port = outbox_port repo led ok
  for repo :: "'s outbox_repository" and led ok +
  fixes calm :: "'s \<Rightarrow> bool"
  assumes calm_claim:
      "ok s \<Longrightarrow> calm s \<Longrightarrow> 0 \<le> sint n \<Longrightarrow> or_claim_pending repo n lease s = (q1, s') \<Longrightarrow> calm s' \<and> is_ok q1"
    and calm_mark_batch:
      "ok s \<Longrightarrow> calm s \<Longrightarrow> or_mark_published_batch repo ids s = (q2, s') \<Longrightarrow> calm s' \<and> is_ok q2"
    and calm_release:
      "ok s \<Longrightarrow> calm s \<Longrightarrow> or_release_claim repo i s = (q3, s') \<Longrightarrow> calm s' \<and> is_ok q3"
    and calm_update_status:
      "ok s \<Longrightarrow> calm s \<Longrightarrow> or_update_status repo i st err s = (q3, s') \<Longrightarrow> calm s' \<and> is_ok q3"
    and calm_increment:
      "ok s \<Longrightarrow> calm s \<Longrightarrow> led s i = Some e \<Longrightarrow> sint (en_retries e) < i32_max \<Longrightarrow>
         or_increment_retry repo i err s = (q4, s') \<Longrightarrow> calm s' \<and> is_ok q4"

context calm_outbox_port begin

lemma settle_failure_calm:
  assumes "ok s" "calm s" and to_vec: "sd_to_vec sd (om_payload m) = Ok payload"
    and e: "led s (om_id m) = Some ent" "sint (en_retries ent) < i32_max"
    and run: "settle_failure sd fl repo sink retry m err s k = (r, s', k')"
  shows "r = Ok () \<and> ok s' \<and> calm s' \<and> led s' = on_entry (om_id m) (settle_entry fl retry m err) (led s) \<and>
         k' = (case (err, evaluate_publish_failure fl m retry) of
                 (Transport _, PF_DeadLetter topic) \<Rightarrow> snd (sink (outbound_to topic m payload) k) | _ \<Rightarrow> k)"
proof (cases err)
  case (Backpressure t)
  obtain r1 s1 where c: "or_release_claim repo (om_id m) s = (r1, s1)" by fastforce
  with run Backpressure have "s' = s1" "r = Ok ()" "k' = k" by (simp_all add: settle_failure_def)
  with release_law [OF assms(1) c] calm_release [OF assms(1,2) c] Backpressure show ?thesis
    by (cases r1) (auto simp: settle_entry_def)
next
  case (Transport t)
  show ?thesis
  proof (cases "evaluate_publish_failure fl m retry")
    case (PF_Retry d)
    obtain r1 s1 where c: "or_increment_retry repo (om_id m) (Some (sink_error_to_string err)) s = (r1, s1)"
      by fastforce
    with run Transport PF_Retry have "s' = s1" "r = Ok ()" "k' = k" by (simp_all add: settle_failure_def)
    with increment_law [OF assms(1) c] calm_increment [OF assms(1,2) e c] Transport PF_Retry show ?thesis
      by (cases r1) (auto simp: settle_entry_def)
  next
    case (PF_DeadLetter topic)
    obtain r1 s1 where c: "or_update_status repo (om_id m) Dlq (Some (exhausted_text m err)) s = (r1, s1)"
      by fastforce
    with run Transport PF_DeadLetter to_vec
    have "s' = s1" "r = Ok ()" "k' = snd (sink (outbound_to topic m payload) k)"
      by (auto simp: settle_failure_def split: prod.splits)
    with update_status_law [OF assms(1) c] calm_update_status [OF assms(1,2) c] Transport PF_DeadLetter
    show ?thesis by (cases r1) (auto simp: settle_entry_def)
  next
    case PF_Fail
    obtain r1 s1 where c: "or_update_status repo (om_id m) Failed (Some (exhausted_text m err)) s = (r1, s1)"
      by fastforce
    with run Transport PF_Fail have "s' = s1" "r = Ok ()" "k' = k" by (simp_all add: settle_failure_def)
    with update_status_law [OF assms(1) c] calm_update_status [OF assms(1,2) c] Transport PF_Fail
    show ?thesis by (cases r1) (auto simp: settle_entry_def)
  qed
qed

lemma drain_refines:
  assumes "ok s" "calm s" and "\<And>m. m \<in> set ms \<Longrightarrow> is_ok (sd_to_vec sd (om_payload m))"
    and "distinct (map om_id ms)" and "set pub \<inter> om_id ` set ms = {}"
    and "\<And>m. m \<in> set ms \<Longrightarrow> \<exists>e. led s (om_id m) = Some e \<and> sint (en_retries e) < i32_max"
    and "drain sd fl repo sink retry ms pub s k = (r, s', k')"
  shows "\<exists>pub'. r = Ok pub' \<and> ok s' \<and> calm s' \<and>
           (on_entries (set pub') published_if_claimed (led s'), k') =
             spec_round sd fl sink retry ms (on_entries (set pub) published_if_claimed (led s)) k"
  using assms
proof (induction ms arbitrary: pub s k)
  case Nil
  then show ?case by (intro exI [of _ pub]) simp
next
  case (Cons m ms)
  have dist: "distinct (map om_id ms)" and new: "om_id m \<notin> om_id ` set ms" and mp: "om_id m \<notin> set pub"
    and disj: "set pub \<inter> om_id ` set ms = {}"
    using Cons.prems(4,5) by auto
  have to_vec: "is_ok (sd_to_vec sd (om_payload x))" if "x \<in> set ms" for x
    using Cons.prems(3) that by simp
  obtain payload where payload: "sd_to_vec sd (om_payload m) = Ok payload"
    using Cons.prems(3) [of m] by (cases "sd_to_vec sd (om_payload m)") auto
  let ?ob = "outbound_to (om_topic m) m payload"
  obtain a k1 where a: "sink ?ob k = (a, k1)" by fastforce
  show ?case
  proof (cases a)
    case (Inr u)
    with a payload Cons.prems(7)
    have d: "drain sd fl repo sink retry ms (pub @ [om_id m]) s k1 = (r, s', k')" by simp
    have "set (pub @ [om_id m]) \<inter> om_id ` set ms = {}" using disj new by auto
    from Cons.IH [OF Cons.prems(1,2) to_vec dist this _ d] Cons.prems(6)
    show ?thesis using a Inr payload on_entries_snoc [OF mp, of published_if_claimed "led s"]
      by (simp del: on_entries_apply on_entry_apply)
  next
    case e: (Inl e)
    obtain r1 s1 k2 where f: "settle_failure sd fl repo sink retry m e s k1 = (r1, s1, k2)"
      by (metis prod_cases3)
    from Cons.prems(6) [of m] obtain ent where ent: "led s (om_id m) = Some ent" "sint (en_retries ent) < i32_max"
      by auto
    note one = settle_failure_calm [OF Cons.prems(1,2) payload ent f]
    with e f a payload Cons.prems(7) have d: "drain sd fl repo sink retry ms pub s1 k2 = (r, s', k')" by simp
    have "\<exists>e. led s1 (om_id m') = Some e \<and> sint (en_retries e) < i32_max" if "m' \<in> set ms" for m'
    proof -
      from that new have "om_id m' \<noteq> om_id m" by (metis imageI)
      with one Cons.prems(6) [of m'] that show ?thesis by simp
    qed
    from Cons.IH [OF _ _ to_vec dist disj this d] one
    show ?thesis using a e payload on_entries_commute [OF mp]
      by (simp del: on_entries_apply on_entry_apply)
  qed
qed

lemma publish_pending_refines:
  assumes "ok s" "calm s" "0 \<le> sint n"
    and to_vec: "\<And>i e. led s i = Some e \<Longrightarrow> is_ok (sd_to_vec sd (en_payload e))"
    and small: "\<And>i e. led s i = Some e \<Longrightarrow> sint (en_retries e) < i32_max"
    and run: "publish_pending sd fl repo sink retry n s k = (r, s', k')"
  shows "r = Ok () \<and> ok s' \<and> calm s' \<and>
         (\<exists>batch s1. or_claim_pending repo n claim_lease_secs s = (Ok batch, s1) \<and>
            led s1 = on_entries (om_id ` set batch) claimed (led s) \<and>
            (led s', k') = spec_round sd fl sink retry batch (led s1) k)"
proof -
  obtain rc s1 where c: "or_claim_pending repo n claim_lease_secs s = (rc, s1)" by fastforce
  from calm_claim [OF assms(1-3) c] obtain ms where "calm s1" and rc: "rc = Ok ms"
    by (cases rc) auto
  from claim_law [OF \<open>ok s\<close> c] rc have "ok s1" and l1: "led s1 = on_entries (om_id ` set ms) claimed (led s)"
    and dist: "distinct (map om_id ms)" and ent: "\<And>m. m \<in> set ms \<Longrightarrow> led s1 (om_id m) = Some (entry_of m)"
    by auto
  have retries: "\<exists>e. led s1 (om_id m) = Some e \<and> sint (en_retries e) < i32_max" if "m \<in> set ms" for m
  proof -
    from that l1 ent [OF that] obtain e where "led s (om_id m) = Some e" "entry_of m = claimed e"
      by (auto dest: sym)
    with small ent [OF that] show ?thesis by (auto simp: claimed_def)
  qed
  have printable: "is_ok (sd_to_vec sd (om_payload m))" if "m \<in> set ms" for m
  proof -
    from that l1 ent [OF that] obtain e where "led s (om_id m) = Some e" "entry_of m = claimed e"
      by (auto dest: sym)
    moreover from this(2) have "om_payload m = en_payload e" by (cases e) (simp add: entry_of_def claimed_def)
    ultimately show ?thesis using to_vec by simp
  qed
  obtain rd s2 k2 where d: "drain sd fl repo sink retry ms [] s1 k = (rd, s2, k2)" by (metis prod_cases3)
  from drain_refines [OF \<open>ok s1\<close> \<open>calm s1\<close> printable dist _ retries d]
  obtain pub where rd: "rd = Ok pub" and "ok s2" "calm s2"
    and spec: "(on_entries (set pub) published_if_claimed (led s2), k2) = spec_round sd fl sink retry ms (led s1) k"
    by auto
  show ?thesis
  proof (cases "pub = []")
    case True
    with run c rc d rd spec \<open>ok s2\<close> \<open>calm s2\<close> l1 show ?thesis by (auto simp: publish_pending_def)
  next
    case False
    obtain rm s3 where mk: "or_mark_published_batch repo pub s2 = (rm, s3)" by fastforce
    with run c rc d rd False have "r = Ok ()" "s' = s3" "k' = k2" by (simp_all add: publish_pending_def)
    with mark_batch_law [OF \<open>ok s2\<close> mk] calm_mark_batch [OF \<open>ok s2\<close> \<open>calm s2\<close> mk] spec c rc l1
    show ?thesis by (cases rm) auto
  qed
qed

end

end
