(* ===== verification/Sql.thy ===== *)
theory Sql
  imports Core_Error
begin

text \<open>
  The database the repositories of \<open>crates/rs-broker-db\<close> talk to: the tables of
  \<open>migrations/0001_init.sql\<close> as lists of rows with their constraints, the database clock, and the
  execution of one statement. A statement is atomic. What the outside world contributes to it (time
  passing, rows locked by other transactions, a connection that fails before or after the
  statement took effect) is one entry of a script, so that every statement about the repositories
  holds for every script. The texts sqlx gives its errors are a parameter (\<open>db_error_text\<close>).
\<close>

section \<open>Rows\<close>

record outbox_row =
  ow_id :: uuid
  ow_message_id :: uuid
  ow_aggregate_type :: string
  ow_aggregate_id :: string
  ow_event_type :: string
  ow_payload :: json
  ow_headers :: "json option"
  ow_topic :: string
  ow_partition_key :: "string option"
  ow_status :: string
  ow_retry_count :: i32
  ow_error_message :: "string option"
  ow_created_at :: timestamp
  ow_updated_at :: timestamp
  ow_published_at :: "timestamp option"

record inbox_row =
  iw_id :: uuid
  iw_message_id :: uuid
  iw_topic :: string
  iw_partition :: i32
  iw_offset :: i64
  iw_key :: "string option"
  iw_event_type :: "string option"
  iw_payload :: json
  iw_headers :: "json option"
  iw_timestamp :: timestamp
  iw_status :: string
  iw_attempt_count :: i32
  iw_error_message :: "string option"
  iw_received_at :: timestamp
  iw_processed_at :: "timestamp option"

record dlq_row =
  dw_id :: uuid
  dw_original_message_id :: uuid
  dw_original_topic :: string
  dw_dlq_topic :: string
  dw_failure_reason :: string
  dw_retry_count :: i32
  dw_payload :: json
  dw_headers :: "json option"
  dw_created_at :: timestamp

record subscriber_row =
  sw_id :: uuid
  sw_subscriber_id :: string
  sw_service_name :: string
  sw_grpc_endpoint :: string
  sw_topic_patterns :: "string list"
  sw_active :: bool
  sw_delivery_config :: "json option"
  sw_registered_at :: timestamp
  sw_updated_at :: timestamp

section \<open>The database\<close>

datatype sqlx_error =
    RowNotFound                 \<comment> \<open>\<open>fetch_one\<close> on an empty result\<close>
  | Violation string            \<comment> \<open>a constraint of the table, an out-of-range value, an unknown column\<close>
  | Driver string               \<comment> \<open>connection, pool and protocol failures\<close>

datatype fate = Done | Lost_before string | Lost_after string

record stmt_env =
  se_fate :: fate
  se_elapsed :: nat             \<comment> \<open>microseconds before the statement\<close>
  se_locked :: "uuid list"      \<comment> \<open>rows other transactions hold locks on\<close>

record db =
  db_outbox :: "outbox_row list"
  db_inbox :: "inbox_row list"
  db_dlq :: "dlq_row list"
  db_subscribers :: "subscriber_row list"
  db_now :: timestamp
  db_script :: "stmt_env list"
  db_error_text :: "sqlx_error \<Rightarrow> string"

definition calm_env :: stmt_env where
  "calm_env = \<lparr>se_fate = Done, se_elapsed = 0, se_locked = []\<rparr>"

definition next_env :: "db \<Rightarrow> stmt_env \<times> db" where
  "next_env d =
     (case db_script d of
        [] \<Rightarrow> (calm_env, d)
      | env # rest \<Rightarrow> (env, d\<lparr>db_script := rest, db_now := db_now d + int (se_elapsed env)\<rparr>))"

type_synonym 'a statement = "stmt_env \<Rightarrow> db \<Rightarrow> sqlx_error + 'a \<times> db"

definition run_statement :: "'a statement \<Rightarrow> db \<Rightarrow> (sqlx_error + 'a) \<times> db" where
  "run_statement stmt d =
     (let (env, d1) = next_env d in
        case se_fate env of
          Lost_before e \<Rightarrow> (Err (Driver e), d1)
        | Lost_after e \<Rightarrow>
            (case stmt env d1 of Ok (_, d2) \<Rightarrow> (Err (Driver e), d2) | Err _ \<Rightarrow> (Err (Driver e), d1))
        | Done \<Rightarrow> (case stmt env d1 of Ok (a, d2) \<Rightarrow> (Ok a, d2) | Err e \<Rightarrow> (Err e, d1)))"

text \<open>An undisturbed database: no statement fails for a reason outside it, no row is locked by another transaction,
  and its clock stands still between the statements.\<close>

definition undisturbed :: "db \<Rightarrow> bool" where
  "undisturbed d = (db_script d = [])"

text \<open>The script and the clock are all a statement's surroundings change.\<close>

lemma next_env_tables:
  "next_env d = (env, d1) \<Longrightarrow>
     db_outbox d1 = db_outbox d \<and> db_inbox d1 = db_inbox d \<and> db_dlq d1 = db_dlq d \<and>
     db_subscribers d1 = db_subscribers d \<and> db_now d \<le> db_now d1 \<and> db_error_text d1 = db_error_text d"
  by (auto simp: next_env_def split: list.splits)

text \<open>A statement had no effect and reports an error, or it took effect and reports its result or an
  error.\<close>

lemma run_statement_cases:
  assumes "run_statement stmt d = (r, d')"
  obtains (lost) env e where "next_env d = (env, d')" and "r = Err e"
    | (effective) env d1 a where "next_env d = (env, d1)" and "stmt env d1 = Ok (a, d')" and
        "r = Ok a \<or> (\<exists>e. r = Err e)"
proof -
  obtain env d1 where n: "next_env d = (env, d1)" by fastforce
  with assms that show ?thesis
    by (cases "se_fate env"; cases "stmt env d1") (auto simp: run_statement_def)
qed

text \<open>A part of the database that neither the clock nor the statement touches stays as it is.\<close>

lemma run_statement_keeps:
  assumes "run_statement stmt d = (r, d')"
    and "\<And>d env d1. next_env d = (env, d1) \<Longrightarrow> f d1 = f d"
    and "\<And>env d1 a d2. stmt env d1 = Ok (a, d2) \<Longrightarrow> f d2 = f d1"
  shows "f d' = f d"
  using assms(1)
proof (cases rule: run_statement_cases)
  case (lost env e)
  then show ?thesis using assms(2) by blast
next
  case (effective env d1 a)
  with assms(2) [OF effective(1)] assms(3) [OF effective(2)] show ?thesis by simp
qed

lemma run_statement_calm:
  "undisturbed d \<Longrightarrow>
     run_statement stmt d = (case stmt calm_env d of Ok (a, d2) \<Rightarrow> (Ok a, d2) | Err e \<Rightarrow> (Err e, d))"
  by (simp add: run_statement_def undisturbed_def next_env_def calm_env_def)

section \<open>Tables\<close>

text \<open>\<open>VARCHAR(255)\<close> counts characters, not bytes. (Postgres truncates a longer value whose excess
  is blanks; that exception is left out.) A \<open>CHECK\<close> restricts the status columns.\<close>

definition utf8_length :: "string \<Rightarrow> nat" where
  "utf8_length s = length (filter (\<lambda>c. (of_char c :: nat) div 64 \<noteq> 2) s)"

definition varchar255 :: "string \<Rightarrow> bool" where
  "varchar255 s = (utf8_length s \<le> 255)"

definition nullable :: "('a \<Rightarrow> bool) \<Rightarrow> 'a option \<Rightarrow> bool" where
  "nullable P v = (case v of None \<Rightarrow> True | Some a \<Rightarrow> P a)"

definition outbox_row_check :: "outbox_row \<Rightarrow> bool" where
  "outbox_row_check r =
     (varchar255 (ow_aggregate_type r) \<and> varchar255 (ow_aggregate_id r) \<and> varchar255 (ow_event_type r) \<and>
      varchar255 (ow_topic r) \<and> nullable varchar255 (ow_partition_key r) \<and>
      ow_status r \<in> set [''pending'', ''publishing'', ''published'', ''retrying'', ''failed'', ''dlq''])"

definition inbox_row_check :: "inbox_row \<Rightarrow> bool" where
  "inbox_row_check r =
     (varchar255 (iw_topic r) \<and> nullable varchar255 (iw_key r) \<and> nullable varchar255 (iw_event_type r) \<and>
      iw_status r \<in> set [''received'', ''processing'', ''processed'', ''failed''])"

definition dlq_row_check :: "dlq_row \<Rightarrow> bool" where
  "dlq_row_check r = (varchar255 (dw_original_topic r) \<and> varchar255 (dw_dlq_topic r))"

definition subscriber_row_check :: "subscriber_row \<Rightarrow> bool" where
  "subscriber_row_check r =
     (varchar255 (sw_subscriber_id r) \<and> varchar255 (sw_service_name r) \<and> varchar255 (sw_grpc_endpoint r))"

definition outbox_unique :: "outbox_row list \<Rightarrow> bool" where
  "outbox_unique rows = (distinct (map ow_id rows) \<and> distinct (map ow_message_id rows))"

definition inbox_unique :: "inbox_row list \<Rightarrow> bool" where
  "inbox_unique rows = (distinct (map iw_id rows) \<and> distinct (map iw_message_id rows))"

definition dlq_unique :: "dlq_row list \<Rightarrow> bool" where
  "dlq_unique rows = distinct (map dw_id rows)"

definition subscribers_unique :: "subscriber_row list \<Rightarrow> bool" where
  "subscribers_unique rows = (distinct (map sw_id rows) \<and> distinct (map sw_subscriber_id rows))"

text \<open>\<open>INSERT\<close> of several rows at once, \<open>UPDATE .. SET .. WHERE\<close>, \<open>DELETE .. WHERE\<close>.\<close>

definition insert_rows ::
  "('r \<Rightarrow> bool) \<Rightarrow> ('r list \<Rightarrow> bool) \<Rightarrow> 'r list \<Rightarrow> 'r list \<Rightarrow> sqlx_error + 'r list" where
  "insert_rows check unique new rows =
     (if \<not> list_all check new then Err (Violation ''check'')
      else if \<not> unique (rows @ new) then Err (Violation ''unique'')
      else Ok (rows @ new))"

definition update_rows :: "('r \<Rightarrow> bool) \<Rightarrow> ('r \<Rightarrow> bool) \<Rightarrow> ('r \<Rightarrow> 'r) \<Rightarrow> 'r list \<Rightarrow> sqlx_error + 'r list" where
  "update_rows check P f rows =
     (if list_all (\<lambda>r. P r \<longrightarrow> check (f r)) rows
      then Ok (map (\<lambda>r. if P r then f r else r) rows)
      else Err (Violation ''check''))"

definition delete_rows :: "('r \<Rightarrow> bool) \<Rightarrow> 'r list \<Rightarrow> 'r list" where
  "delete_rows P rows = filter (\<lambda>r. \<not> P r) rows"

text \<open>\<open>LIMIT n OFFSET m\<close>; a negative bound is an error.\<close>

definition limit_rows :: "i64 \<Rightarrow> i64 \<Rightarrow> 'r list \<Rightarrow> sqlx_error + 'r list" where
  "limit_rows n m rows =
     (if sint n < 0 then Err (Violation ''LIMIT must not be negative'')
      else if sint m < 0 then Err (Violation ''OFFSET must not be negative'')
      else Ok (take (nat (sint n)) (drop (nat (sint m)) rows)))"

text \<open>The row with a given key.\<close>

definition row_at :: "('r \<Rightarrow> 'k) \<Rightarrow> 'r list \<Rightarrow> 'k \<Rightarrow> 'r option" where
  "row_at key rows i = find (\<lambda>r. key r = i) rows"

lemma row_at_Nil [simp]: "row_at key [] i = None"
  by (simp add: row_at_def)

lemma row_at_Cons [simp]: "row_at key (r # rows) i = (if key r = i then Some r else row_at key rows i)"
  by (simp add: row_at_def)

lemma row_at_key: "row_at key rows i = Some r \<Longrightarrow> key r = i \<and> r \<in> set rows"
  by (induction rows) (auto split: if_splits)

lemma row_at_None: "row_at key rows i = None \<longleftrightarrow> i \<notin> key ` set rows"
  by (induction rows) auto

lemma row_at_distinct: "distinct (map key rows) \<Longrightarrow> r \<in> set rows \<Longrightarrow> row_at key rows (key r) = Some r"
  by (induction rows) (auto simp: image_iff)

lemma row_at_append: "row_at key (xs @ ys) i = (case row_at key xs i of None \<Rightarrow> row_at key ys i | Some r \<Rightarrow> Some r)"
  by (induction xs) auto

lemma row_at_map: "(\<And>r. key (f r) = key r) \<Longrightarrow> row_at key (map f rows) i = map_option f (row_at key rows i)"
  by (induction rows) auto

lemma row_at_filter_key: "row_at key (filter (\<lambda>r. key r \<noteq> i) rows) j = (if i = j then None else row_at key rows j)"
  by (induction rows) auto

lemma insert_rows_Ok:
  "insert_rows check unique new rows = Ok rows' \<longleftrightarrow>
     list_all check new \<and> unique (rows @ new) \<and> rows' = rows @ new"
  by (auto simp: insert_rows_def)

lemma update_rows_Ok:
  "update_rows check P f rows = Ok rows' \<longleftrightarrow>
     list_all (\<lambda>r. P r \<longrightarrow> check (f r)) rows \<and> rows' = map (\<lambda>r. if P r then f r else r) rows"
  by (auto simp: update_rows_def)

lemma limit_rows_Ok:
  "limit_rows n m rows = Ok rows' \<longleftrightarrow>
     0 \<le> sint n \<and> 0 \<le> sint m \<and> rows' = take (nat (sint n)) (drop (nat (sint m)) rows)"
  by (auto simp: limit_rows_def)

text \<open>An \<open>UPDATE\<close> that keeps the key acts on the row under each key.\<close>

lemma row_at_update:
  "(\<And>r. key (f r) = key r) \<Longrightarrow>
     row_at key (map (\<lambda>r. if P r then f r else r) rows) i =
       map_option (\<lambda>r. if P r then f r else r) (row_at key rows i)"
  by (rule row_at_map) simp

lemma map_if_same: "(\<And>r. g (f r) = g r) \<Longrightarrow> map g (map (\<lambda>r. if P r then f r else r) rows) = map g rows"
  by (induction rows) auto

lemma distinct_map_sort_key: "distinct (map f (sort_key g xs)) = distinct (map f xs)"
  by (simp add: distinct_map)

section \<open>Enums stored as text\<close>

text \<open>A status enum is stored as its \<open>Display\<close> text and read back by a match over literals. The
  \<open>CHECK\<close> constraint admits exactly the texts the enum prints.\<close>

locale status_codec =
  fixes to_text :: "'a \<Rightarrow> string" and of_text :: "string \<Rightarrow> 'a" and admitted :: "string list"
  assumes of_to: "of_text (to_text a) = a"
    and to_admitted: "to_text a \<in> set admitted"
    and to_of: "s \<in> set admitted \<Longrightarrow> to_text (of_text s) = s"

context status_codec begin

lemma to_text_inj: "to_text a = to_text b \<longleftrightarrow> a = b"
  by (metis of_to)

lemma admitted_range: "set admitted = range to_text"
  using to_admitted to_of by (auto intro: rev_image_eqI) (metis rangeI)

lemma of_text_eq: "s \<in> set admitted \<Longrightarrow> of_text s = a \<longleftrightarrow> s = to_text a"
  by (metis of_to to_of)

end

text \<open>What a statement's checks and row updates compute to, for concrete rows.\<close>

lemmas row_eval = outbox_row_check_def inbox_row_check_def dlq_row_check_def varchar255_def nullable_def utf8_length_def
  insert_rows_def update_rows_def limit_rows_def calm_env_def

end
