(* ===== verification/Db_Outbox.thy ===== *)
theory Db_Outbox
  imports Publisher Sql
begin

text \<open>
  \<open>crates/rs-broker-db/src/outbox/repository.rs\<close>, the Postgres implementation of the outbox port,
  one definition per method: the statement it executes, the columns it binds and the conversion of
  the rows it reads. The interpretations of \<open>outbox_port\<close> and \<open>calm_outbox_port\<close> show that it keeps
  the contract of the use cases; the properties of the publisher and of the claim follow.
\<close>

section \<open>Rows and messages\<close>

definition message_status_of_string :: "string \<Rightarrow> message_status" where
  "message_status_of_string s =
     (if s = ''pending'' then Pending
      else if s = ''publishing'' then Publishing
      else if s = ''published'' then Published
      else if s = ''retrying'' then Retrying
      else if s = ''failed'' then Failed
      else if s = ''dlq'' then Dlq
      else Pending)"

definition outbox_message_of_row :: "outbox_row \<Rightarrow> outbox_message" where
  "outbox_message_of_row r =
     \<lparr>om_id = ow_id r, om_aggregate_type = ow_aggregate_type r, om_aggregate_id = ow_aggregate_id r,
      om_event_type = ow_event_type r, om_payload = ow_payload r, om_headers = ow_headers r,
      om_topic = ow_topic r, om_partition_key = ow_partition_key r,
      om_status = message_status_of_string (ow_status r), om_retry_count = ow_retry_count r,
      om_error_message = ow_error_message r, om_created_at = ow_created_at r,
      om_updated_at = ow_updated_at r, om_published_at = ow_published_at r\<rparr>"

text \<open>The columns bound by \<open>INSERT\<close>; \<open>message_id\<close> gets the identifier as well.\<close>

definition outbox_row_of_message :: "outbox_message \<Rightarrow> outbox_row" where
  "outbox_row_of_message m =
     \<lparr>ow_id = om_id m, ow_message_id = om_id m, ow_aggregate_type = om_aggregate_type m,
      ow_aggregate_id = om_aggregate_id m, ow_event_type = om_event_type m, ow_payload = om_payload m,
      ow_headers = om_headers m, ow_topic = om_topic m, ow_partition_key = om_partition_key m,
      ow_status = message_status_to_string (om_status m), ow_retry_count = om_retry_count m,
      ow_error_message = om_error_message m, ow_created_at = om_created_at m,
      ow_updated_at = om_updated_at m, ow_published_at = om_published_at m\<rparr>"

interpretation status: status_codec message_status_to_string message_status_of_string
    "[''pending'', ''publishing'', ''published'', ''retrying'', ''failed'', ''dlq'']"
proof
  fix a show "message_status_of_string (message_status_to_string a) = a"
    by (cases a) (simp_all add: message_status_of_string_def)
next
  fix a show "message_status_to_string a \<in> set [''pending'', ''publishing'', ''published'', ''retrying'', ''failed'', ''dlq'']"
    by (cases a) simp_all
next
  fix s assume "s \<in> set [''pending'', ''publishing'', ''published'', ''retrying'', ''failed'', ''dlq'']"
  then show "message_status_to_string (message_status_of_string s) = s"
    by (auto simp: message_status_of_string_def)
qed

lemma outbox_row_roundtrip [simp]: "outbox_message_of_row (outbox_row_of_message m) = m"
  by (simp add: outbox_message_of_row_def outbox_row_of_message_def status.of_to)

section \<open>The statements\<close>

definition outbox_storage :: "db \<Rightarrow> sqlx_error \<Rightarrow> outbox_error" where
  "outbox_storage d e = OE_Database (db_error_text d e)"

definition outbox_stmt :: "'a statement \<Rightarrow> db \<Rightarrow> (outbox_error + 'a) \<times> db" where
  "outbox_stmt stmt d = apfst (map_err (outbox_storage d)) (run_statement stmt d)"

definition outbox_insert :: "outbox_message list \<Rightarrow> unit statement" where
  "outbox_insert ms env d =
     map_ok (\<lambda>rows. ((), d\<lparr>db_outbox := rows\<rparr>))
       (insert_rows outbox_row_check outbox_unique (map outbox_row_of_message ms) (db_outbox d))"

text \<open>An \<open>UPDATE\<close>; the table's trigger sets \<open>updated_at\<close> on every changed row.\<close>

definition outbox_update :: "(outbox_row \<Rightarrow> bool) \<Rightarrow> (outbox_row \<Rightarrow> outbox_row) \<Rightarrow> db \<Rightarrow> sqlx_error + db" where
  "outbox_update P f d =
     map_ok (\<lambda>rows. d\<lparr>db_outbox := rows\<rparr>)
       (update_rows outbox_row_check P (\<lambda>r. (f r)\<lparr>ow_updated_at := db_now d\<rparr>) (db_outbox d))"

definition pg_outbox_create :: "outbox_message \<Rightarrow> db \<Rightarrow> (outbox_error + unit) \<times> db" where
  "pg_outbox_create m d = outbox_stmt (outbox_insert [m]) d"

definition pg_outbox_create_batch :: "outbox_message list \<Rightarrow> db \<Rightarrow> (outbox_error + unit) \<times> db" where
  "pg_outbox_create_batch ms d = (if ms = [] then (Ok (), d) else outbox_stmt (outbox_insert ms) d)"

definition pg_outbox_get_by_id :: "uuid \<Rightarrow> db \<Rightarrow> (outbox_error + outbox_message) \<times> db" where
  "pg_outbox_get_by_id i d =
     outbox_stmt (\<lambda>env d. case row_at ow_id (db_outbox d) i of
                            None \<Rightarrow> Err RowNotFound
                          | Some r \<Rightarrow> Ok (outbox_message_of_row r, d)) d"

definition pg_outbox_get_pending :: "i64 \<Rightarrow> db \<Rightarrow> (outbox_error + outbox_message list) \<times> db" where
  "pg_outbox_get_pending n d =
     outbox_stmt (\<lambda>env d.
       map_ok (\<lambda>rows. (map outbox_message_of_row rows, d))
         (limit_rows n 0 (sort_key ow_created_at
            (filter (\<lambda>r. ow_status r \<in> set [''pending'', ''retrying'']) (db_outbox d))))) d"

text \<open>The claim: the subquery picks candidates in order of creation, skipping locked rows; the
  outer \<open>UPDATE\<close> takes them, and \<open>RETURNING *\<close> reads the new rows.\<close>

definition claim_candidate :: "timestamp \<Rightarrow> i32 \<Rightarrow> outbox_row \<Rightarrow> bool" where
  "claim_candidate now lease_secs r =
     (ow_status r \<in> set [''pending'', ''retrying''] \<or>
      ow_status r = ''publishing'' \<and> ow_updated_at r < now - sint lease_secs * 1000000)"

definition claim_select :: "i64 \<Rightarrow> i32 \<Rightarrow> stmt_env \<Rightarrow> db \<Rightarrow> sqlx_error + uuid list" where
  "claim_select n lease_secs env d =
     map_ok (map ow_id)
       (limit_rows n 0
         (filter (\<lambda>r. ow_id r \<notin> set (se_locked env))
           (sort_key ow_created_at (filter (claim_candidate (db_now d) lease_secs) (db_outbox d)))))"

definition pg_outbox_claim_pending :: "i64 \<Rightarrow> i32 \<Rightarrow> db \<Rightarrow> (outbox_error + outbox_message list) \<times> db" where
  "pg_outbox_claim_pending n lease_secs d =
     outbox_stmt (\<lambda>env d.
       case claim_select n lease_secs env d of
         Err e \<Rightarrow> Err e
       | Ok ids \<Rightarrow>
           map_ok (\<lambda>d2. (map outbox_message_of_row (filter (\<lambda>r. ow_id r \<in> set ids) (db_outbox d2)), d2))
             (outbox_update (\<lambda>r. ow_id r \<in> set ids) (\<lambda>r. r\<lparr>ow_status := ''publishing''\<rparr>) d)) d"

definition pg_outbox_mark_published_batch :: "uuid list \<Rightarrow> db \<Rightarrow> (outbox_error + u64) \<times> db" where
  "pg_outbox_mark_published_batch ids d =
     (if ids = [] then (Ok 0, d)
      else outbox_stmt (\<lambda>env d.
        let P = (\<lambda>r. ow_id r \<in> set ids \<and> ow_status r = ''publishing'')
        in map_ok (\<lambda>d2. (of_nat (length (filter P (db_outbox d))), d2))
             (outbox_update P (\<lambda>r. r\<lparr>ow_status := ''published'', ow_published_at := Some (db_now d)\<rparr>) d)) d)"

definition pg_outbox_release_claim :: "uuid \<Rightarrow> db \<Rightarrow> (outbox_error + unit) \<times> db" where
  "pg_outbox_release_claim i d =
     outbox_stmt (\<lambda>env d. map_ok (Pair ())
       (outbox_update (\<lambda>r. ow_id r = i \<and> ow_status r = ''publishing'') (\<lambda>r. r\<lparr>ow_status := ''pending''\<rparr>) d)) d"

definition pg_outbox_update_status ::
  "uuid \<Rightarrow> message_status \<Rightarrow> string option \<Rightarrow> db \<Rightarrow> (outbox_error + unit) \<times> db" where
  "pg_outbox_update_status i status error_message d =
     outbox_stmt (\<lambda>env d. map_ok (Pair ())
       (outbox_update (\<lambda>r. ow_id r = i)
          (\<lambda>r. r\<lparr>ow_status := message_status_to_string status, ow_error_message := error_message\<rparr>) d)) d"

text \<open>\<open>retry_count + 1\<close> is an error when the \<open>INTEGER\<close> column would overflow.\<close>

definition pg_outbox_increment_retry :: "uuid \<Rightarrow> string option \<Rightarrow> db \<Rightarrow> (outbox_error + i32) \<times> db" where
  "pg_outbox_increment_retry i error_message d =
     outbox_stmt (\<lambda>env d.
       case row_at ow_id (db_outbox d) i of
         None \<Rightarrow> Err RowNotFound
       | Some r \<Rightarrow>
           if sint (ow_retry_count r) = i32_max then Err (Violation ''integer out of range'')
           else map_ok (Pair (ow_retry_count r + 1))
             (outbox_update (\<lambda>r. ow_id r = i)
                (\<lambda>r. r\<lparr>ow_retry_count := ow_retry_count r + 1, ow_status := ''retrying'',
                      ow_error_message := error_message\<rparr>) d)) d"

definition pg_outbox_mark_published :: "uuid \<Rightarrow> db \<Rightarrow> (outbox_error + unit) \<times> db" where
  "pg_outbox_mark_published i d =
     outbox_stmt (\<lambda>env d. map_ok (Pair ())
       (outbox_update (\<lambda>r. ow_id r = i)
          (\<lambda>r. r\<lparr>ow_status := ''published'', ow_published_at := Some (db_now d)\<rparr>) d)) d"

definition pg_outbox_delete :: "uuid \<Rightarrow> db \<Rightarrow> (outbox_error + unit) \<times> db" where
  "pg_outbox_delete i d =
     outbox_stmt (\<lambda>env d. Ok ((), d\<lparr>db_outbox := delete_rows (\<lambda>r. ow_id r = i) (db_outbox d)\<rparr>)) d"

definition pg_outbox_repository :: "db outbox_repository" where
  "pg_outbox_repository =
     \<lparr>or_create = pg_outbox_create,
      or_create_batch = pg_outbox_create_batch,
      or_get_by_id = pg_outbox_get_by_id,
      or_get_pending = pg_outbox_get_pending,
      or_claim_pending = pg_outbox_claim_pending,
      or_mark_published_batch = pg_outbox_mark_published_batch,
      or_release_claim = pg_outbox_release_claim,
      or_update_status = pg_outbox_update_status,
      or_increment_retry = pg_outbox_increment_retry,
      or_mark_published = pg_outbox_mark_published,
      or_delete = pg_outbox_delete\<rparr>"

section \<open>The ledger of the table\<close>

definition entry_of_row :: "outbox_row \<Rightarrow> entry" where
  "entry_of_row r = entry_of (outbox_message_of_row r)"

definition pg_ledger :: "db \<Rightarrow> ledger" where
  "pg_ledger d = (\<lambda>i. map_option entry_of_row (row_at ow_id (db_outbox d) i))"

definition pg_outbox_ok :: "db \<Rightarrow> bool" where
  "pg_outbox_ok d \<longleftrightarrow> outbox_unique (db_outbox d) \<and> list_all outbox_row_check (db_outbox d)"

lemma pg_ledger_cong: "db_outbox d = db_outbox d' \<Longrightarrow> pg_ledger d = pg_ledger d'"
  by (simp add: pg_ledger_def)

lemma pg_outbox_ok_cong: "db_outbox d = db_outbox d' \<Longrightarrow> pg_outbox_ok d = pg_outbox_ok d'"
  by (simp add: pg_outbox_ok_def)

text \<open>From what a statement does to the table when it succeeds to what its execution does.\<close>

lemma outbox_stmt_cases:
  assumes "outbox_stmt stmt d = (r, d')"
  obtains (lost) e where "db_outbox d' = db_outbox d" and "r = Err e"
    | (effective) env d1 a where "db_outbox d1 = db_outbox d" and "stmt env d1 = Ok (a, d')" and
        "r = Ok a \<or> (\<exists>e. r = Err e)"
proof -
  from assms obtain r0 where r0: "run_statement stmt d = (r0, d')" and r: "r = map_err (outbox_storage d) r0"
    by (cases "run_statement stmt d") (auto simp: outbox_stmt_def)
  show ?thesis
  proof (rule run_statement_cases [OF r0])
    fix env e assume "next_env d = (env, d')" "r0 = Err e"
    with next_env_tables r lost show ?thesis by fastforce
  next
    fix env d1 a assume "next_env d = (env, d1)" "stmt env d1 = Ok (a, d')" "r0 = Ok a \<or> (\<exists>e. r0 = Err e)"
    with next_env_tables [of d env d1] r effective [of d1 env a] show ?thesis by auto
  qed
qed

lemma outbox_stmt_law:
  assumes run: "outbox_stmt stmt d = (r, d')" and ok: "pg_outbox_ok d"
    and stmt: "\<And>env d1 a d2. db_outbox d1 = db_outbox d \<Longrightarrow> stmt env d1 = Ok (a, d2) \<Longrightarrow>
        pg_outbox_ok d2 \<and> pg_ledger d2 = upd \<and> Q a"
  shows "pg_outbox_ok d' \<and> effect r (pg_ledger d) upd (pg_ledger d') \<and>
         (is_ok r \<or> pg_ledger d' \<noteq> pg_ledger d \<longrightarrow> (\<exists>a. Q a)) \<and> (\<forall>a. r = Ok a \<longrightarrow> Q a)"
  using run
proof (cases rule: outbox_stmt_cases)
  case (lost e)
  then have "pg_outbox_ok d'" "pg_ledger d' = pg_ledger d"
    using ok by (simp_all add: pg_ledger_def pg_outbox_ok_def)
  with lost show ?thesis by simp
next
  case (effective env d1 a)
  from stmt [OF effective(1,2)] effective(3) show ?thesis by auto
qed

lemma ow_fields_updated_at [simp]:
  "ow_id (r\<lparr>ow_updated_at := t\<rparr>) = ow_id r" "outbox_row_check (r\<lparr>ow_updated_at := t\<rparr>) = outbox_row_check r"
  "entry_of_row (r\<lparr>ow_updated_at := t\<rparr>) = entry_of_row r"
  by (simp_all add: outbox_row_check_def entry_of_row_def entry_of_def outbox_message_of_row_def)

text \<open>An \<open>UPDATE\<close> on the ledger: \<open>f\<close> acts on rows, \<open>F\<close> on their entries.\<close>

lemma outbox_update_ledger:
  assumes ok: "pg_outbox_ok d" and upd: "outbox_update P f d = Ok d2"
    and key: "\<And>r. ow_id (f r) = ow_id r \<and> ow_message_id (f r) = ow_message_id r"
    and F: "\<And>r. r \<in> set (db_outbox d) \<Longrightarrow>
        entry_of_row (if P r then f r else r) = (if ow_id r \<in> I then F (entry_of_row r) else entry_of_row r)"
  shows "pg_outbox_ok d2 \<and> pg_ledger d2 = on_entries I F (pg_ledger d)"
proof -
  let ?f = "\<lambda>r. (f r)\<lparr>ow_updated_at := db_now d\<rparr>"
  from upd have d2: "db_outbox d2 = map (\<lambda>r. if P r then ?f r else r) (db_outbox d)"
    and chk: "list_all (\<lambda>r. P r \<longrightarrow> outbox_row_check (?f r)) (db_outbox d)"
    by (auto simp: outbox_update_def update_rows_Ok)
  have "map ow_id (db_outbox d2) = map ow_id (db_outbox d)"
    unfolding d2 by (rule map_if_same) (simp add: key)
  moreover have "map ow_message_id (db_outbox d2) = map ow_message_id (db_outbox d)"
    unfolding d2 by (rule map_if_same) (simp add: key)
  moreover have "list_all outbox_row_check (db_outbox d2)"
    using chk ok by (auto simp: d2 pg_outbox_ok_def list_all_iff)
  ultimately have "pg_outbox_ok d2" using ok by (simp add: pg_outbox_ok_def outbox_unique_def)
  moreover have "pg_ledger d2 i = on_entries I F (pg_ledger d) i" for i
  proof (cases "row_at ow_id (db_outbox d) i")
    case None
    then show ?thesis by (simp add: pg_ledger_def d2 row_at_update key)
  next
    case (Some r)
    with row_at_key have "ow_id r = i" "r \<in> set (db_outbox d)" by fastforce+
    moreover have "entry_of_row (if P r then ?f r else r) = entry_of_row (if P r then f r else r)" by simp
    ultimately show ?thesis using F [of r] Some by (simp add: pg_ledger_def d2 row_at_update key)
  qed
  ultimately show ?thesis by blast
qed

lemma on_entries_single: "on_entries {i} F l = on_entry i F l"
  by (rule ext) simp

lemmas outbox_view_defs =
  entry_of_row_def entry_of_def outbox_message_of_row_def message_status_of_string_def

lemma message_status_publishing: "message_status_of_string s = Publishing \<longleftrightarrow> s = ''publishing''"
  by (simp add: message_status_of_string_def)

lemma entry_of_row_status: "en_status (entry_of_row r) = message_status_of_string (ow_status r)"
  by (simp add: entry_of_row_def entry_of_def outbox_message_of_row_def)

section \<open>The laws\<close>

lemma outbox_insert_law:
  assumes "pg_outbox_ok d" and "outbox_insert ms env d = Ok (a, d2)"
  shows "pg_outbox_ok d2 \<and> pg_ledger d2 = add_entries ms (pg_ledger d) \<and>
         distinct (map om_id ms) \<and> om_id ` set ms \<inter> dom (pg_ledger d) = {}"
proof -
  let ?new = "map outbox_row_of_message ms"
  from assms have d2: "db_outbox d2 = db_outbox d @ ?new" and chk: "list_all outbox_row_check ?new"
    and uni: "outbox_unique (db_outbox d @ ?new)"
    by (auto simp: outbox_insert_def insert_rows_Ok)
  have ids: "map ow_id ?new = map om_id ms" by (simp add: outbox_row_of_message_def)
  from uni have dist: "distinct (map om_id ms)" and disj: "ow_id ` set (db_outbox d) \<inter> om_id ` set ms = {}"
    unfolding outbox_unique_def map_append ids distinct_append by auto
  have dom: "dom (pg_ledger d) = ow_id ` set (db_outbox d)"
    by (auto simp: pg_ledger_def dom_def row_at_None dest: row_at_key)
  have new: "map_option entry_of_row (row_at ow_id ?new i) = map_of (map (\<lambda>m. (om_id m, entry_of m)) ms) i" for i
    by (induction ms) (auto simp: outbox_row_of_message_def entry_of_row_def outbox_row_roundtrip [unfolded outbox_row_of_message_def])
  have "pg_ledger d2 i = add_entries ms (pg_ledger d) i" for i
  proof (cases "row_at ow_id (db_outbox d) i")
    case None
    with new [of i] show ?thesis
      by (simp add: pg_ledger_def d2 row_at_append add_entries_def map_add_def split: option.split)
  next
    case (Some r)
    then have "i \<in> ow_id ` set (db_outbox d)" by (auto dest: row_at_key)
    with disj have "map_of (map (\<lambda>m. (om_id m, entry_of m)) ms) i = None"
      by (auto simp: map_of_eq_None_iff)
    with Some show ?thesis by (simp add: pg_ledger_def d2 row_at_append add_entries_def map_add_def)
  qed
  moreover have "pg_outbox_ok d2" using assms(1) chk uni by (simp add: pg_outbox_ok_def d2)
  ultimately show ?thesis using dist disj dom by auto
qed

lemma pg_outbox_create_law:
  assumes "pg_outbox_ok d" and "pg_outbox_create m d = (r, d')"
  shows "pg_outbox_ok d' \<and> effect r (pg_ledger d) (add_entries [m] (pg_ledger d)) (pg_ledger d') \<and>
         (pg_ledger d' \<noteq> pg_ledger d \<or> is_ok r \<longrightarrow> om_id m \<notin> dom (pg_ledger d))"
proof -
  have stmt: "pg_outbox_ok d2 \<and> pg_ledger d2 = add_entries [m] (pg_ledger d) \<and> om_id m \<notin> dom (pg_ledger d)"
    if "db_outbox d1 = db_outbox d" "outbox_insert [m] env d1 = Ok (a, d2)" for env d1 a d2
    using outbox_insert_law [OF _ that(2)] assms(1) pg_outbox_ok_cong [OF that(1)] pg_ledger_cong [OF that(1)]
    by auto
  have "pg_outbox_ok d' \<and> effect r (pg_ledger d) (add_entries [m] (pg_ledger d)) (pg_ledger d') \<and>
      (is_ok r \<or> pg_ledger d' \<noteq> pg_ledger d \<longrightarrow> (\<exists>a :: unit. om_id m \<notin> dom (pg_ledger d))) \<and>
      (\<forall>a. r = Ok a \<longrightarrow> om_id m \<notin> dom (pg_ledger d))"
    by (rule outbox_stmt_law [OF assms(2) [unfolded pg_outbox_create_def] assms(1)]) (rule stmt)
  then show ?thesis by blast
qed

lemma pg_outbox_create_batch_law:
  assumes "pg_outbox_ok d" and "pg_outbox_create_batch ms d = (r, d')"
  shows "pg_outbox_ok d' \<and> effect r (pg_ledger d) (add_entries ms (pg_ledger d)) (pg_ledger d') \<and>
         (pg_ledger d' \<noteq> pg_ledger d \<or> is_ok r \<longrightarrow>
            distinct (map om_id ms) \<and> om_id ` set ms \<inter> dom (pg_ledger d) = {})"
proof (cases "ms = []")
  case True
  with assms show ?thesis by (auto simp: pg_outbox_create_batch_def add_entries_def)
next
  case False
  with assms(2) have run: "outbox_stmt (outbox_insert ms) d = (r, d')"
    by (simp add: pg_outbox_create_batch_def)
  have stmt: "pg_outbox_ok d2 \<and> pg_ledger d2 = add_entries ms (pg_ledger d) \<and>
      (distinct (map om_id ms) \<and> om_id ` set ms \<inter> dom (pg_ledger d) = {})"
    if "db_outbox d1 = db_outbox d" "outbox_insert ms env d1 = Ok (a, d2)" for env d1 a d2
    using outbox_insert_law [OF _ that(2)] assms(1) pg_outbox_ok_cong [OF that(1)] pg_ledger_cong [OF that(1)]
    by auto
  let ?new = "distinct (map om_id ms) \<and> om_id ` set ms \<inter> dom (pg_ledger d) = {}"
  have "pg_outbox_ok d' \<and> effect r (pg_ledger d) (add_entries ms (pg_ledger d)) (pg_ledger d') \<and>
      (is_ok r \<or> pg_ledger d' \<noteq> pg_ledger d \<longrightarrow> (\<exists>a :: unit. ?new)) \<and> (\<forall>a. r = Ok a \<longrightarrow> ?new)"
    by (rule outbox_stmt_law [OF run assms(1)]) (rule stmt)
  then show ?thesis by blast
qed

text \<open>The one-statement updates.\<close>

lemma outbox_update_stmt_law:
  assumes "pg_outbox_ok d" and "outbox_stmt stmt d = (r, d')"
    and stmt: "\<And>env d1 a d2. db_outbox d1 = db_outbox d \<Longrightarrow> stmt env d1 = Ok (a, d2) \<Longrightarrow>
        outbox_update P (f d1) d1 = Ok d2 \<and> Q a"
    and key: "\<And>d1 r. ow_id (f d1 r) = ow_id r \<and> ow_message_id (f d1 r) = ow_message_id r"
    and F: "\<And>d1 r. entry_of_row (if P r then f d1 r else r) =
                 (if ow_id r \<in> I then F (entry_of_row r) else entry_of_row r)"
  shows "pg_outbox_ok d' \<and> effect r (pg_ledger d) (on_entries I F (pg_ledger d)) (pg_ledger d') \<and>
         (\<forall>a. r = Ok a \<longrightarrow> Q a)"
proof -
  have law: "pg_outbox_ok d2 \<and> pg_ledger d2 = on_entries I F (pg_ledger d) \<and> Q a"
    if "db_outbox d1 = db_outbox d" "stmt env d1 = Ok (a, d2)" for env d1 a d2
  proof -
    from stmt [OF that] have upd: "outbox_update P (f d1) d1 = Ok d2" and "Q a" by auto
    have "pg_outbox_ok d1" using assms(1) pg_outbox_ok_cong [OF that(1)] by simp
    from outbox_update_ledger [OF this upd key F] \<open>Q a\<close> pg_ledger_cong [OF that(1)] show ?thesis by simp
  qed
  have "pg_outbox_ok d' \<and> effect r (pg_ledger d) (on_entries I F (pg_ledger d)) (pg_ledger d') \<and>
      (is_ok r \<or> pg_ledger d' \<noteq> pg_ledger d \<longrightarrow> (\<exists>a. Q a)) \<and> (\<forall>a. r = Ok a \<longrightarrow> Q a)"
    by (rule outbox_stmt_law [OF assms(2,1)]) (rule law)
  then show ?thesis by blast
qed

lemma pg_outbox_mark_published_batch_law:
  assumes "pg_outbox_ok d" and "pg_outbox_mark_published_batch ids d = (r, d')"
  shows "pg_outbox_ok d' \<and>
         effect r (pg_ledger d) (on_entries (set ids) published_if_claimed (pg_ledger d)) (pg_ledger d')"
proof (cases "ids = []")
  case True
  with assms show ?thesis by (auto simp: pg_outbox_mark_published_batch_def)
next
  case False
  with assms(2) have "outbox_stmt (\<lambda>env d.
        let P = (\<lambda>r. ow_id r \<in> set ids \<and> ow_status r = ''publishing'')
        in map_ok (\<lambda>d2. (of_nat (length (filter P (db_outbox d))), d2))
             (outbox_update P (\<lambda>r. r\<lparr>ow_status := ''published'', ow_published_at := Some (db_now d)\<rparr>) d)) d = (r, d')"
    by (simp add: pg_outbox_mark_published_batch_def)
  note law = outbox_update_stmt_law [OF assms(1) this]
  have "pg_outbox_ok d' \<and>
      effect r (pg_ledger d) (on_entries (set ids) published_if_claimed (pg_ledger d)) (pg_ledger d') \<and>
      (\<forall>a. r = Ok a \<longrightarrow> True)"
    by (rule law [where P = "\<lambda>r. ow_id r \<in> set ids \<and> ow_status r = ''publishing''"
          and f = "\<lambda>d r. r\<lparr>ow_status := ''published'', ow_published_at := Some (db_now d)\<rparr>"])
       (auto simp: Let_def published_if_claimed_def entry_of_row_status message_status_publishing,
        auto simp: outbox_view_defs)
  then show ?thesis by blast
qed

lemma outbox_set_status:
  assumes "pg_outbox_ok d"
    and "outbox_stmt (\<lambda>env d. map_ok (Pair ()) (outbox_update P (f d) d)) d = (r, d')"
    and "\<And>d1 r. ow_id (f d1 r) = ow_id r \<and> ow_message_id (f d1 r) = ow_message_id r"
    and "\<And>d1 r. entry_of_row (if P r then f d1 r else r) = (if ow_id r = i then F (entry_of_row r) else entry_of_row r)"
  shows "pg_outbox_ok d' \<and> effect r (pg_ledger d) (on_entry i F (pg_ledger d)) (pg_ledger d')"
proof -
  have "pg_outbox_ok d' \<and> effect r (pg_ledger d) (on_entries {i} F (pg_ledger d)) (pg_ledger d') \<and>
      (\<forall>a. r = Ok a \<longrightarrow> True)"
    by (rule outbox_update_stmt_law [OF assms(1,2), where P = P and f = f]) (use assms(3,4) in auto)
  then show ?thesis by (simp add: on_entries_single)
qed

lemma pg_outbox_release_law:
  assumes "pg_outbox_ok d" and "pg_outbox_release_claim i d = (r, d')"
  shows "pg_outbox_ok d' \<and> effect r (pg_ledger d) (on_entry i released_if_claimed (pg_ledger d)) (pg_ledger d')"
  by (rule outbox_set_status [OF assms(1) assms(2) [unfolded pg_outbox_release_claim_def]])
     (auto simp: released_if_claimed_def entry_of_row_status message_status_publishing, auto simp: outbox_view_defs)

lemma pg_outbox_update_status_law:
  assumes "pg_outbox_ok d" and "pg_outbox_update_status i st err d = (r, d')"
  shows "pg_outbox_ok d' \<and> effect r (pg_ledger d) (on_entry i (settled st err) (pg_ledger d)) (pg_ledger d')"
  by (rule outbox_set_status [OF assms(1) assms(2) [unfolded pg_outbox_update_status_def]])
     (auto simp: settled_def entry_of_row_def entry_of_def outbox_message_of_row_def status.of_to)

lemma pg_outbox_mark_published_law:
  assumes "pg_outbox_ok d" and "pg_outbox_mark_published i d = (r, d')"
  shows "pg_outbox_ok d' \<and>
         effect r (pg_ledger d) (on_entry i (\<lambda>e. e\<lparr>en_status := Published\<rparr>) (pg_ledger d)) (pg_ledger d')"
  by (rule outbox_set_status [OF assms(1) assms(2) [unfolded pg_outbox_mark_published_def]])
     (auto simp: outbox_view_defs)

lemma pg_outbox_increment_law:
  assumes "pg_outbox_ok d" and "pg_outbox_increment_retry i err d = (r, d')"
  shows "pg_outbox_ok d' \<and> effect r (pg_ledger d) (on_entry i (retried err) (pg_ledger d)) (pg_ledger d') \<and>
         (\<forall>c. r = Ok c \<longrightarrow> (\<exists>e. pg_ledger d i = Some e \<and> c = en_retries e + 1))"
proof -
  note run = assms(2) [unfolded pg_outbox_increment_retry_def]
  have "pg_outbox_ok d' \<and> effect r (pg_ledger d) (on_entries {i} (retried err) (pg_ledger d)) (pg_ledger d') \<and>
      (\<forall>c. r = Ok c \<longrightarrow> (\<exists>e. pg_ledger d i = Some e \<and> c = en_retries e + 1))"
  proof (rule outbox_update_stmt_law [OF assms(1) run, where P = "\<lambda>r. ow_id r = i"
        and f = "\<lambda>_ r. r\<lparr>ow_retry_count := ow_retry_count r + 1, ow_status := ''retrying'', ow_error_message := err\<rparr>"])
    fix env d1 c d2
    assume same: "db_outbox d1 = db_outbox d"
      and "(case row_at ow_id (db_outbox d1) i of None \<Rightarrow> Err RowNotFound
            | Some r \<Rightarrow> if sint (ow_retry_count r) = i32_max then Err (Violation ''integer out of range'')
                else map_ok (Pair (ow_retry_count r + 1))
                  (outbox_update (\<lambda>r. ow_id r = i)
                    (\<lambda>r. r\<lparr>ow_retry_count := ow_retry_count r + 1, ow_status := ''retrying'', ow_error_message := err\<rparr>) d1))
            = Ok (c, d2)"
    then show "outbox_update (\<lambda>r. ow_id r = i)
        (\<lambda>r. r\<lparr>ow_retry_count := ow_retry_count r + 1, ow_status := ''retrying'', ow_error_message := err\<rparr>) d1 = Ok d2 \<and>
        (\<exists>e. pg_ledger d i = Some e \<and> c = en_retries e + 1)"
      by (auto simp: pg_ledger_def entry_of_row_def entry_of_def outbox_message_of_row_def split: option.splits if_splits)
  qed (auto simp: retried_def outbox_view_defs)
  then show ?thesis by (simp add: on_entries_single)
qed

lemma pg_outbox_delete_law:
  assumes "pg_outbox_ok d" and "pg_outbox_delete i d = (r, d')"
  shows "pg_outbox_ok d' \<and> effect r (pg_ledger d) ((pg_ledger d)(i := None)) (pg_ledger d')"
proof -
  have law: "pg_outbox_ok d2 \<and> pg_ledger d2 = (pg_ledger d)(i := None) \<and> True"
    if "db_outbox d1 = db_outbox d"
      and "Ok ((), d1\<lparr>db_outbox := delete_rows (\<lambda>r. ow_id r = i) (db_outbox d1)\<rparr>) = Ok (a, d2)" for d1 a d2
  proof -
    from that have d2: "db_outbox d2 = filter (\<lambda>r. ow_id r \<noteq> i) (db_outbox d)"
      by (auto simp: delete_rows_def)
    with assms(1) have "pg_outbox_ok d2"
      by (auto simp: pg_outbox_ok_def outbox_unique_def list_all_iff intro: distinct_map_filter)
    with d2 show ?thesis by (auto simp: pg_ledger_def row_at_filter_key)
  qed
  have "pg_outbox_ok d' \<and> effect r (pg_ledger d) ((pg_ledger d)(i := None)) (pg_ledger d') \<and>
      (is_ok r \<or> pg_ledger d' \<noteq> pg_ledger d \<longrightarrow> (\<exists>a :: unit. True)) \<and> (\<forall>a. r = Ok a \<longrightarrow> True)"
    by (rule outbox_stmt_law [OF assms(2) [unfolded pg_outbox_delete_def] assms(1)]) (rule law)
  then show ?thesis by blast
qed

text \<open>Reads.\<close>

lemma outbox_query_law:
  assumes run: "outbox_stmt stmt d = (r, d')" and ok: "pg_outbox_ok d"
    and stmt: "\<And>env d1 a d2. db_outbox d1 = db_outbox d \<Longrightarrow> stmt env d1 = Ok (a, d2) \<Longrightarrow> d2 = d1 \<and> Q a"
  shows "pg_outbox_ok d' \<and> pg_ledger d' = pg_ledger d \<and> (\<forall>a. r = Ok a \<longrightarrow> Q a)"
  using run
proof (cases rule: outbox_stmt_cases)
  case (lost e)
  with ok show ?thesis by (simp add: pg_ledger_def pg_outbox_ok_def)
next
  case (effective env d1 a)
  from stmt [OF effective(1,2)] effective ok show ?thesis
    by (auto simp: pg_ledger_def pg_outbox_ok_def)
qed

lemma pg_ledger_row:
  "pg_outbox_ok d \<Longrightarrow> r \<in> set (db_outbox d) \<Longrightarrow> pg_ledger d (ow_id r) = Some (entry_of_row r)"
  by (simp add: pg_ledger_def pg_outbox_ok_def outbox_unique_def row_at_distinct)

lemma om_id_of_row [simp]: "om_id (outbox_message_of_row r) = ow_id r"
  by (simp add: outbox_message_of_row_def)

lemma map_om_id_of_row [simp]: "map om_id (map outbox_message_of_row rows) = map ow_id rows"
  by simp

lemma pg_outbox_get_by_id_law:
  assumes "pg_outbox_ok d" and "pg_outbox_get_by_id i d = (r, d')"
  shows "pg_outbox_ok d' \<and> pg_ledger d' = pg_ledger d \<and>
         (\<forall>m. r = Ok m \<longrightarrow> om_id m = i \<and> pg_ledger d i = Some (entry_of m))"
  by (rule outbox_query_law [OF assms(2) [unfolded pg_outbox_get_by_id_def] assms(1)])
     (auto simp: pg_ledger_def entry_of_row_def dest: row_at_key split: option.splits)

lemma pg_outbox_get_pending_law:
  assumes ok: "pg_outbox_ok d" and run: "pg_outbox_get_pending n d = (r, d')"
  shows "pg_outbox_ok d' \<and> pg_ledger d' = pg_ledger d \<and>
         (\<forall>ms. r = Ok ms \<longrightarrow> distinct (map om_id ms) \<and>
            (\<forall>m \<in> set ms. pg_ledger d (om_id m) = Some (entry_of m) \<and> om_status m \<in> {Pending, Retrying}))"
proof (rule outbox_query_law [OF run [unfolded pg_outbox_get_pending_def] ok])
  fix env d1 ms d2
  assume same: "db_outbox d1 = db_outbox d"
    and "map_ok (\<lambda>rows. (map outbox_message_of_row rows, d1))
      (limit_rows n 0 (sort_key ow_created_at
         (filter (\<lambda>r. ow_status r \<in> set [''pending'', ''retrying'']) (db_outbox d1)))) = Ok (ms, d2)"
  then obtain k where d2: "d2 = d1" and ms: "ms = map outbox_message_of_row (take k (sort_key ow_created_at
      (filter (\<lambda>r. ow_status r \<in> set [''pending'', ''retrying'']) (db_outbox d))))" (is "_ = map _ (take k ?sorted)")
    by (auto simp: limit_rows_Ok)
  have dist: "distinct (map ow_id ?sorted)"
    using ok by (simp add: distinct_map_sort_key distinct_map_filter pg_outbox_ok_def outbox_unique_def)
  then have "distinct (map ow_id (take k ?sorted))"
    unfolding take_map [symmetric] by (rule distinct_take)
  moreover have "pg_ledger d (om_id m) = Some (entry_of m) \<and> om_status m \<in> {Pending, Retrying}"
    if m: "m \<in> set ms" for m
  proof -
    from m obtain row where row: "m = outbox_message_of_row row" "row \<in> set (db_outbox d)"
      and st: "ow_status row = ''pending'' \<or> ow_status row = ''retrying''"
      by (auto simp: ms dest!: in_set_takeD)
    from st have "om_status m \<in> {Pending, Retrying}"
      by (auto simp: row(1) outbox_message_of_row_def message_status_of_string_def)
    with pg_ledger_row [OF ok row(2)] show ?thesis by (simp add: row(1) entry_of_row_def)
  qed
  ultimately show "d2 = d1 \<and> distinct (map om_id ms) \<and>
      (\<forall>m \<in> set ms. pg_ledger d (om_id m) = Some (entry_of m) \<and> om_status m \<in> {Pending, Retrying})"
    by (simp add: d2 ms del: map_map)
qed

section \<open>The claim\<close>

text \<open>What the claiming statement does: the claimed rows were candidates, unlocked and at most as
  many as the limit; exactly they are returned, in their new state.\<close>

lemma claim_select_spec:
  assumes "claim_select n lease env d = Ok ids" and ok: "pg_outbox_ok d"
  shows "distinct ids \<and> int (length ids) \<le> sint n \<and> set ids \<inter> set (se_locked env) = {} \<and>
         (\<forall>i \<in> set ids. \<exists>r \<in> set (db_outbox d). ow_id r = i \<and> claim_candidate (db_now d) lease r)"
proof -
  let ?cands = "filter (\<lambda>r. ow_id r \<notin> set (se_locked env))
      (sort_key ow_created_at (filter (claim_candidate (db_now d) lease) (db_outbox d)))"
  from assms(1) have n: "0 \<le> sint n" and ids: "ids = map ow_id (take (nat (sint n)) ?cands)"
    by (auto simp: claim_select_def limit_rows_Ok)
  have "distinct (map ow_id ?cands)"
    using ok by (simp add: distinct_map_filter distinct_map_sort_key pg_outbox_ok_def outbox_unique_def)
  then have "distinct ids" unfolding ids by (metis distinct_take take_map)
  moreover have "int (length ids) \<le> sint n" using n unfolding ids length_map length_take by linarith
  moreover have "set ids \<inter> set (se_locked env) = {}" by (auto simp: ids dest: in_set_takeD)
  moreover have "\<exists>r \<in> set (db_outbox d). ow_id r = i \<and> claim_candidate (db_now d) lease r" if "i \<in> set ids" for i
    using that by (auto simp: ids dest!: in_set_takeD)
  ultimately show ?thesis by blast
qed

lemma claim_candidate_claimable: "claim_candidate now lease r \<Longrightarrow> claimable (entry_of_row r)"
  by (auto simp: claim_candidate_def claimable_def entry_of_row_status message_status_of_string_def)

text \<open>An effective claim: the selected rows and only they changed, and they are the answer.\<close>

definition claim_row :: "uuid list \<Rightarrow> timestamp \<Rightarrow> outbox_row \<Rightarrow> outbox_row" where
  "claim_row ids now r = (if ow_id r \<in> set ids then r\<lparr>ow_status := ''publishing'', ow_updated_at := now\<rparr> else r)"

lemma claim_row_id [simp]: "ow_id (claim_row ids now r) = ow_id r"
  by (simp add: claim_row_def)

lemma pg_outbox_claim_effect:
  assumes ok: "pg_outbox_ok d" and run: "pg_outbox_claim_pending n lease d = (r, d')"
  obtains (lost) e where "db_outbox d' = db_outbox d" and "r = Err e"
    | (effective) env d1 ids ms where "db_outbox d1 = db_outbox d" and "db_now d' = db_now d1" and
        "claim_select n lease env d1 = Ok ids" and
        "outbox_update (\<lambda>r. ow_id r \<in> set ids) (\<lambda>r. r\<lparr>ow_status := ''publishing''\<rparr>) d1 = Ok d'" and
        "db_outbox d' = map (claim_row ids (db_now d1)) (db_outbox d)" and
        "ms = map outbox_message_of_row (filter (\<lambda>r. ow_id r \<in> set ids) (db_outbox d'))" and
        "set ids = om_id ` set ms" and "r = Ok ms \<or> (\<exists>e. r = Err e)"
  using run [unfolded pg_outbox_claim_pending_def]
proof (cases rule: outbox_stmt_cases)
  case (lost e)
  then show ?thesis by (rule that(1))
next
  case (effective env d1 ms)
  from effective(2) obtain ids where sel: "claim_select n lease env d1 = Ok ids"
    and upd: "outbox_update (\<lambda>r. ow_id r \<in> set ids) (\<lambda>r. r\<lparr>ow_status := ''publishing''\<rparr>) d1 = Ok d'"
    and ms: "ms = map outbox_message_of_row (filter (\<lambda>r. ow_id r \<in> set ids) (db_outbox d'))"
    by (auto split: sum.splits)
  have rows: "db_outbox d' = map (claim_row ids (db_now d1)) (db_outbox d)"
    using upd effective(1) by (auto simp: outbox_update_def update_rows_Ok claim_row_def)
  have now: "db_now d' = db_now d1" using upd by (auto simp: outbox_update_def)
  have "pg_outbox_ok d1" using ok effective(1) by (simp add: pg_outbox_ok_def)
  note spec = claim_select_spec [OF sel this]
  have "set ids \<subseteq> om_id ` set ms"
  proof
    fix i assume "i \<in> set ids"
    with spec effective(1) obtain row where "row \<in> set (db_outbox d)" "ow_id row = i" by auto
    with \<open>i \<in> set ids\<close> have "outbox_message_of_row (claim_row ids (db_now d1) row) \<in> set ms"
      by (simp add: ms rows)
    then show "i \<in> om_id ` set ms"
      by (rule rev_image_eqI) (simp add: \<open>ow_id row = i\<close>)
  qed
  then have "set ids = om_id ` set ms" by (auto simp: ms)
  from that(2) [OF effective(1) now sel upd rows ms this effective(3)] show ?thesis .
qed

lemma pg_outbox_claim_law:
  assumes ok: "pg_outbox_ok d" and run: "pg_outbox_claim_pending n lease d = (r, d')"
  shows "pg_outbox_ok d' \<and>
         (\<exists>I. pg_ledger d' = on_entries I claimed (pg_ledger d) \<and>
              (\<forall>i \<in> I. \<exists>e. pg_ledger d i = Some e \<and> claimable e) \<and>
              (\<forall>ms. r = Ok ms \<longrightarrow> distinct (map om_id ms) \<and> I = om_id ` set ms \<and>
                      int (length ms) \<le> sint n \<and>
                      (\<forall>m \<in> set ms. pg_ledger d' (om_id m) = Some (entry_of m))))"
  using ok run
proof (cases rule: pg_outbox_claim_effect)
  case (lost e)
  with ok have "pg_outbox_ok d'" "pg_ledger d' = on_entries {} claimed (pg_ledger d)"
    by (simp_all add: pg_ledger_def pg_outbox_ok_def)
  with lost show ?thesis by (intro conjI exI [of _ "{}"]) simp_all
next
  case (effective env d1 ids ms)
  have ok1: "pg_outbox_ok d1" and led1: "pg_ledger d1 = pg_ledger d"
    using ok effective(1) by (simp_all add: pg_ledger_def pg_outbox_ok_def)
  have ok': "pg_outbox_ok d'" and led': "pg_ledger d' = on_entries (set ids) claimed (pg_ledger d)"
    using outbox_update_ledger [OF ok1 effective(4), of "set ids" claimed] led1
    by (auto simp: claimed_def outbox_view_defs)
  note spec = claim_select_spec [OF effective(3) ok1]
  have cands: "\<forall>i \<in> set ids. \<exists>e. pg_ledger d i = Some e \<and> claimable e"
  proof
    fix i assume "i \<in> set ids"
    with spec obtain row where "row \<in> set (db_outbox d1)" "ow_id row = i" "claim_candidate (db_now d1) lease row"
      by blast
    with pg_ledger_row [OF ok1] claim_candidate_claimable led1
    show "\<exists>e. pg_ledger d i = Some e \<and> claimable e" by fastforce
  qed
  have dist: "distinct (map om_id ms)"
    unfolding effective(6) map_om_id_of_row
    using ok' by (intro distinct_map_filter) (simp add: pg_outbox_ok_def outbox_unique_def)
  have "length ms = card (set ids)"
    using distinct_card [OF dist] by (simp add: effective(7))
  then have len: "int (length ms) \<le> sint n"
    using spec card_length [of ids] by linarith
  have ent: "\<forall>m \<in> set ms. pg_ledger d' (om_id m) = Some (entry_of m)"
    using pg_ledger_row [OF ok'] by (auto simp: effective(6) entry_of_row_def)
  show ?thesis
    using ok' led' cands effective(7,8) dist len ent by (intro conjI exI [of _ "set ids"]) auto
qed

section \<open>The repository keeps the contract\<close>

lemma pg_outbox_repository_simps [simp]:
  "or_create pg_outbox_repository = pg_outbox_create"
  "or_create_batch pg_outbox_repository = pg_outbox_create_batch"
  "or_get_by_id pg_outbox_repository = pg_outbox_get_by_id"
  "or_get_pending pg_outbox_repository = pg_outbox_get_pending"
  "or_claim_pending pg_outbox_repository = pg_outbox_claim_pending"
  "or_mark_published_batch pg_outbox_repository = pg_outbox_mark_published_batch"
  "or_release_claim pg_outbox_repository = pg_outbox_release_claim"
  "or_update_status pg_outbox_repository = pg_outbox_update_status"
  "or_increment_retry pg_outbox_repository = pg_outbox_increment_retry"
  "or_mark_published pg_outbox_repository = pg_outbox_mark_published"
  "or_delete pg_outbox_repository = pg_outbox_delete"
  by (simp_all add: pg_outbox_repository_def)

interpretation pg: outbox_port pg_outbox_repository pg_ledger pg_outbox_ok
proof (unfold_locales, unfold pg_outbox_repository_simps)
qed (rule pg_outbox_create_law pg_outbox_create_batch_law pg_outbox_get_by_id_law pg_outbox_get_pending_law
      pg_outbox_claim_law pg_outbox_mark_published_batch_law pg_outbox_release_law pg_outbox_update_status_law
      pg_outbox_increment_law pg_outbox_mark_published_law pg_outbox_delete_law; assumption)+

text \<open>On an undisturbed database no statement fails for an outside reason, and the ladder's updates never
  violate a constraint.\<close>

lemma outbox_stmt_calm:
  assumes "undisturbed d" and "outbox_stmt stmt d = (r, d')"
    and "\<exists>a d2. stmt calm_env d = Ok (a, d2) \<and> undisturbed d2"
  shows "undisturbed d' \<and> is_ok r"
  using assms run_statement_calm [OF assms(1), of stmt] by (auto simp: outbox_stmt_def)

lemma outbox_update_succeeds:
  assumes "pg_outbox_ok d" and "undisturbed d" and "\<And>r. outbox_row_check r \<Longrightarrow> outbox_row_check (f r)"
  shows "\<exists>d2. outbox_update P f d = Ok d2 \<and> undisturbed d2"
  using assms by (auto simp: outbox_update_def update_rows_def pg_outbox_ok_def list_all_iff undisturbed_def)

lemma outbox_row_check_updates [simp]:
  "outbox_row_check (r\<lparr>ow_published_at := p\<rparr>) = outbox_row_check r"
  "outbox_row_check (r\<lparr>ow_error_message := e\<rparr>) = outbox_row_check r"
  "outbox_row_check (r\<lparr>ow_retry_count := c\<rparr>) = outbox_row_check r"
  by (simp_all add: outbox_row_check_def)

lemma outbox_row_check_status:
  "outbox_row_check r \<Longrightarrow> s \<in> set [''pending'', ''publishing'', ''published'', ''retrying'', ''failed'', ''dlq''] \<Longrightarrow>
     outbox_row_check (r\<lparr>ow_status := s\<rparr>)"
  by (simp add: outbox_row_check_def)

lemmas outbox_row_checks =
  outbox_row_check_status [of _ "''pending''"] outbox_row_check_status [of _ "''publishing''"]
  outbox_row_check_status [of _ "''published''"] outbox_row_check_status [of _ "''retrying''"]
  outbox_row_check_status [OF _ status.to_admitted]

interpretation pg: calm_outbox_port pg_outbox_repository pg_ledger pg_outbox_ok undisturbed
proof (unfold_locales, unfold pg_outbox_repository_simps)
  fix s n lease q1 s'
  assume s: "pg_outbox_ok s" "undisturbed s" "0 \<le> sint n" and run: "pg_outbox_claim_pending n lease s = (q1, s')"
  have "\<exists>ids. claim_select n lease calm_env s = Ok ids"
    using s by (simp add: claim_select_def limit_rows_def)
  then obtain ids where ids: "claim_select n lease calm_env s = Ok ids" by blast
  from outbox_update_succeeds [OF s(1,2), of "\<lambda>r. r\<lparr>ow_status := ''publishing''\<rparr>" "\<lambda>r. ow_id r \<in> set ids"]
  obtain d2 where "outbox_update (\<lambda>r. ow_id r \<in> set ids) (\<lambda>r. r\<lparr>ow_status := ''publishing''\<rparr>) s = Ok d2" "undisturbed d2"
    by (auto simp: outbox_row_checks)
  with ids show "undisturbed s' \<and> is_ok q1"
    by (intro outbox_stmt_calm [OF s(2) run [unfolded pg_outbox_claim_pending_def]]) auto
next
  fix s ids q2 s'
  assume s: "pg_outbox_ok s" "undisturbed s" and run: "pg_outbox_mark_published_batch ids s = (q2, s')"
  show "undisturbed s' \<and> is_ok q2"
  proof (cases "ids = []")
    case True
    with run s show ?thesis by (auto simp: pg_outbox_mark_published_batch_def)
  next
    case False
    with run have run': "outbox_stmt (\<lambda>env d.
        let P = (\<lambda>r. ow_id r \<in> set ids \<and> ow_status r = ''publishing'')
        in map_ok (\<lambda>d2. (of_nat (length (filter P (db_outbox d))) :: u64, d2))
             (outbox_update P (\<lambda>r. r\<lparr>ow_status := ''published'', ow_published_at := Some (db_now d)\<rparr>) d)) s = (q2, s')"
      by (simp add: pg_outbox_mark_published_batch_def)
    from outbox_update_succeeds [OF s, of "\<lambda>r. r\<lparr>ow_status := ''published'', ow_published_at := Some (db_now s)\<rparr>"
        "\<lambda>r. ow_id r \<in> set ids \<and> ow_status r = ''publishing''"]
    show ?thesis
      by (intro outbox_stmt_calm [OF s(2) run']) (auto simp: outbox_row_checks)
  qed
next
  fix s i q3 s'
  assume s: "pg_outbox_ok s" "undisturbed s" and run: "pg_outbox_release_claim i s = (q3, s')"
  from outbox_update_succeeds [OF s, of "\<lambda>r. r\<lparr>ow_status := ''pending''\<rparr>" "\<lambda>r. ow_id r = i \<and> ow_status r = ''publishing''"]
  show "undisturbed s' \<and> is_ok q3"
    by (intro outbox_stmt_calm [OF s(2) run [unfolded pg_outbox_release_claim_def]])
       (auto simp: outbox_row_checks)
next
  fix s i st err q3 s'
  assume s: "pg_outbox_ok s" "undisturbed s" and run: "pg_outbox_update_status i st err s = (q3, s')"
  from outbox_update_succeeds [OF s, of "\<lambda>r. r\<lparr>ow_status := message_status_to_string st, ow_error_message := err\<rparr>" "\<lambda>r. ow_id r = i"]
  show "undisturbed s' \<and> is_ok q3"
    by (intro outbox_stmt_calm [OF s(2) run [unfolded pg_outbox_update_status_def]])
       (auto simp: outbox_row_checks)
next
  fix s i e err q4 s'
  assume s: "pg_outbox_ok s" "undisturbed s" and e: "pg_ledger s i = Some e" "sint (en_retries e) < i32_max"
    and run: "pg_outbox_increment_retry i err s = (q4, s')"
  from e obtain r where r: "row_at ow_id (db_outbox s) i = Some r" "sint (ow_retry_count r) \<noteq> i32_max"
    by (auto simp: pg_ledger_def entry_of_row_def entry_of_def outbox_message_of_row_def)
  from outbox_update_succeeds [OF s, of "\<lambda>r. r\<lparr>ow_retry_count := ow_retry_count r + 1, ow_status := ''retrying'', ow_error_message := err\<rparr>" "\<lambda>r. ow_id r = i"]
  show "undisturbed s' \<and> is_ok q4"
    using r by (intro outbox_stmt_calm [OF s(2) run [unfolded pg_outbox_increment_retry_def]])
       (auto simp: outbox_row_checks)
qed

end
