(* ===== verification/Outbox_System.thy ===== *)
theory Outbox_System
  imports Db_Outbox
begin

text \<open>
  The outbox as a whole: the drain of theory Publisher running on the Postgres repository of theory
  Db_Outbox. What one round, a whole run of the worker and a race between two publishers do to the
  ledger, for every script of outside events unless a property says otherwise.
\<close>

section \<open>A small outbox for the witnesses\<close>

definition sample_outbox_row :: "uuid \<Rightarrow> string \<Rightarrow> i32 \<Rightarrow> outbox_row" where
  "sample_outbox_row i st n =
     \<lparr>ow_id = i, ow_message_id = i, ow_aggregate_type = ''Order'', ow_aggregate_id = ''o1'',
      ow_event_type = ''OrderCreated'', ow_payload = JNull, ow_headers = None, ow_topic = ''orders'',
      ow_partition_key = None, ow_status = st, ow_retry_count = n, ow_error_message = None,
      ow_created_at = 0, ow_updated_at = 0, ow_published_at = None\<rparr>"

definition sample_db :: "outbox_row list \<Rightarrow> db" where
  "sample_db rows =
     \<lparr>db_outbox = rows, db_inbox = [], db_dlq = [], db_subscribers = [], db_now = 100000000,
      db_script = [], db_error_text = (\<lambda>_. ''db'')\<rparr>"

definition null_serde :: serde where
  "null_serde = \<lparr>sd_from_slice = (\<lambda>b. Ok JNull), sd_to_vec = (\<lambda>j. Ok [0]), sd_map_to_value = (\<lambda>m. Ok JNull)\<rparr>"

definition accepting :: "unit message_sink" where
  "accepting ob k = (Ok (), k)"

definition refusing :: "unit message_sink" where
  "refusing ob k = (Err (Transport ''down''), k)"

lemma sample_db_simps [simp]:
  "db_outbox (sample_db rows) = rows" "db_script (sample_db rows) = []" "undisturbed (sample_db rows)"
  by (simp_all add: sample_db_def undisturbed_def)

lemma sample_outbox_ok:
  "pg_outbox_ok (sample_db rows) \<longleftrightarrow> outbox_unique rows \<and> list_all outbox_row_check rows"
  "outbox_unique rows \<longleftrightarrow> distinct (map ow_id rows) \<and> distinct (map ow_message_id rows)"
  "ow_id (sample_outbox_row i st n) = i" "ow_message_id (sample_outbox_row i st n) = i"
  "outbox_row_check (sample_outbox_row i st n) \<longleftrightarrow>
     st \<in> {''pending'', ''publishing'', ''published'', ''failed'', ''retrying'', ''dlq''}"
  by (auto simp: pg_outbox_ok_def outbox_unique_def sample_outbox_row_def row_eval)

section \<open>One round\<close>

text \<open>The content of an entry was offered to the sink on its own topic, and the sink gave that answer.\<close>

definition offered :: "serde \<Rightarrow> sink_log \<Rightarrow> entry \<Rightarrow> (sink_error + unit) \<Rightarrow> bool" where
  "offered sd lg e a \<longleftrightarrow>
     (\<exists>p. sd_to_vec sd (en_payload e) = Ok p \<and>
          (\<lparr>ob_topic = en_topic e, ob_key = en_key e, ob_payload = p, ob_partition = None\<rparr>, a) \<in> set lg)"

lemma entry_of_claimed:
  "entry_of m = claimed e \<Longrightarrow>
     en_topic e = om_topic m \<and> en_key e = om_partition_key m \<and> en_payload e = om_payload m \<and>
     en_retries e = om_retry_count m"
  by (cases e) (auto simp: entry_of_def claimed_def)

lemma answered_offered: "entry_of m = claimed e \<Longrightarrow> answered sd lg m a \<Longrightarrow> offered sd lg e a"
  by (auto simp: answered_def offered_def outbound_to_def dest: entry_of_claimed)

lemma exhausted_retries:
  assumes "entry_of m = claimed e" and "\<not> should_retry retry (attempts_so_far m)"
  shows "int (unat (rs_max_retries retry)) \<le> max 0 (sint (en_retries e))"
proof -
  from entry_of_claimed [OF assms(1)] have "en_retries e = om_retry_count m" by simp
  moreover have "int (unat (attempts_so_far m)) = max 0 (sint (om_retry_count m))"
    by (simp add: attempts_so_far_def sint_nonneg_unat)
  moreover have "int (unat (rs_max_retries retry)) \<le> int (unat (attempts_so_far m))"
    using assms(2) by (simp only: should_retry_def word_less_nat_alt of_nat_le_iff not_less)
  ultimately show ?thesis by (simp only:)
qed

lemma few_retries:
  assumes "\<forall>r \<in> set (db_outbox d). sint (ow_retry_count r) < i32_max" and "pg_ledger d i = Some e"
  shows "sint (en_retries e) < i32_max"
  using assms by (auto simp: pg_ledger_def row_at_def find_Some_iff entry_of_row_def entry_of_def outbox_message_of_row_def)

text \<open>The four ways a round treats an entry, and what each means for it.\<close>

lemma round_entry_safe:
  assumes "e' = e \<or> claimable e \<and>
            (e' = claimed e \<or>
             (\<exists>m. om_id m = i \<and> entry_of m = claimed e \<and>
               (answered sd lg m (Ok ()) \<and> e' = e\<lparr>en_status := Published\<rparr> \<or>
                (\<exists>err. answered sd lg m (Err err) \<and> e' = settle_entry fl retry m err (claimed e)))))"
  shows "same_content e e' \<and> (e' \<noteq> e \<longrightarrow> en_status e \<in> {Pending, Retrying, Publishing}) \<and>
      (en_status e' = Published \<longrightarrow> en_status e = Published \<or> offered sd lg e (Ok ())) \<and>
      (en_status e' \<in> {Dlq, Failed} \<longrightarrow> en_status e \<in> {Dlq, Failed} \<or>
         (\<exists>t. offered sd lg e (Err (Transport t))) \<and>
         int (unat (rs_max_retries retry)) \<le> max 0 (sint (en_retries e)))"
proof -
  from assms consider "e' = e" | "claimable e" "e' = claimed e"
    | m where "claimable e" "entry_of m = claimed e" "answered sd lg m (Ok ())" "e' = e\<lparr>en_status := Published\<rparr>"
    | m err where "claimable e" "entry_of m = claimed e" "answered sd lg m (Err err)"
        "e' = settle_entry fl retry m err (claimed e)"
    by blast
  then show ?thesis
  proof cases
    case 1
    then show ?thesis by simp
  next
    case 2
    then show ?thesis by (simp add: claimable_def) (simp add: claimed_def)
  next
    case 3
    then show ?thesis
      using answered_offered [OF 3(2,3)] by (simp add: claimable_def same_content_def)
  next
    case 4
    have "same_content e e'"
      using same_content_trans [OF same_content_updates(1) same_content_settle] 4(4) by simp
    moreover have "en_status e' \<noteq> Published"
      using settle_entry_not_published [of fl retry m err "claimed e"] 4(4) by (auto simp: claimed_def)
    moreover have "(\<exists>t. offered sd lg e (Err (Transport t))) \<and>
        int (unat (rs_max_retries retry)) \<le> max 0 (sint (en_retries e))" if "en_status e' \<in> {Dlq, Failed}"
      using settle_entry_dead [of fl retry m err "claimed e"] that 4(4) answered_offered [OF 4(2,3)]
        exhausted_retries [OF 4(2)] by (auto simp: claimed_def)
    ultimately show ?thesis using 4(1) by (simp add: claimable_def)
  qed
qed

text \<open>C1: At-least-once draining, whatever the store does. In one round of the publisher, for every
  script of database failures, lost acknowledgements and delays and for every sink, each message of
  the outbox is still there afterwards with its topic, key and payload; only a pending, retrying or
  claimed message changes at all; a message becomes published only if the sink accepted its
  content in this round; and it becomes dead-lettered or failed only if the sink refused it and its
  retries are exhausted.\<close>

theorem publish_round_safe:
  assumes "pg_outbox_ok d" and "pg_ledger d i = Some e"
  shows "case publish_pending sd fl pg_outbox_repository (recording sink) retry n d (k, []) of
           (r, d', k', lg) \<Rightarrow>
             \<exists>e'. pg_ledger d' i = Some e' \<and> same_content e e' \<and>
               (e' \<noteq> e \<longrightarrow> en_status e \<in> {Pending, Retrying, Publishing}) \<and>
               (en_status e' = Published \<longrightarrow> en_status e = Published \<or> offered sd lg e (Ok ())) \<and>
               (en_status e' \<in> {Dlq, Failed} \<longrightarrow> en_status e \<in> {Dlq, Failed} \<or>
                  (\<exists>t. offered sd lg e (Err (Transport t))) \<and>
                  int (unat (rs_max_retries retry)) \<le> max 0 (sint (en_retries e)))"
proof -
  obtain r d' k' lg where run:
    "publish_pending sd fl pg_outbox_repository (recording sink) retry n d (k, []) = (r, d', k', lg)"
    by (metis prod_cases4)
  from pg.publish_pending_entry [OF assms(1) run assms(2)] obtain e' where e': "pg_ledger d' i = Some e'"
    and cases: "e' = e \<or> claimable e \<and>
            (e' = claimed e \<or>
             (\<exists>m. om_id m = i \<and> entry_of m = claimed e \<and>
               (answered sd lg m (Ok ()) \<and> e' = e\<lparr>en_status := Published\<rparr> \<or>
                (\<exists>err. answered sd lg m (Err err) \<and> e' = settle_entry fl retry m err (claimed e)))))"
    by blast
  from round_entry_safe [OF cases] e' run show ?thesis by auto
qed

theorem publish_round_safe_witness:
  "case publish_pending null_serde exact_floats pg_outbox_repository (recording accepting)
          (retry_strategy_new default_retry_config) 10 (sample_db [sample_outbox_row 1 ''pending'' 0]) ((), []) of
     (r, d', k', lg) \<Rightarrow> \<exists>e'. pg_ledger d' 1 = Some e' \<and>
        same_content (entry_of_row (sample_outbox_row 1 ''pending'' 0)) e'"
proof -
  have "pg_outbox_ok (sample_db [sample_outbox_row 1 ''pending'' 0])" by (simp add: sample_outbox_ok)
  moreover have "pg_ledger (sample_db [sample_outbox_row 1 ''pending'' 0]) 1 =
      Some (entry_of_row (sample_outbox_row 1 ''pending'' 0))" by code_simp
  ultimately show ?thesis
    using publish_round_safe [where d = "sample_db [sample_outbox_row 1 ''pending'' 0]" and i = 1
        and e = "entry_of_row (sample_outbox_row 1 ''pending'' 0)" and sd = null_serde and fl = exact_floats
        and sink = accepting and retry = "retry_strategy_new default_retry_config" and n = 10 and k = "()"]
    by (auto split: prod.splits)
qed

text \<open>C2: Refinement. On an undisturbed database a round does to the ledger exactly what the
  abstract round does: it claims a batch and then, message by message in the batch's order,
  publishes what the sink accepts, releases what it pushes back, and retries, dead-letters or fails
  what it refuses; the sink sees the same calls in the same order.\<close>

theorem publish_round_refines:
  assumes "pg_outbox_ok d" and "undisturbed d" and "0 \<le> sint n"
    and "\<And>v. is_ok (sd_to_vec sd v)"
    and "\<And>i e. pg_ledger d i = Some e \<Longrightarrow> sint (en_retries e) < i32_max"
  shows "case publish_pending sd fl pg_outbox_repository sink retry n d k of
           (r, d', k') \<Rightarrow> r = Ok () \<and>
             (\<exists>batch d1. pg_outbox_claim_pending n claim_lease_secs d = (Ok batch, d1) \<and>
                pg_ledger d1 = on_entries (om_id ` set batch) claimed (pg_ledger d) \<and>
                (pg_ledger d', k') = spec_round sd fl sink retry batch (pg_ledger d1) k)"
proof -
  obtain r d' k' where run: "publish_pending sd fl pg_outbox_repository sink retry n d k = (r, d', k')"
    by (metis prod_cases3)
  from pg.publish_pending_refines [OF assms(1-3) assms(4) assms(5) run] show ?thesis using run by auto
qed

theorem publish_round_refines_witness:
  "case publish_pending null_serde exact_floats pg_outbox_repository refusing
          (retry_strategy_new default_retry_config) 10 (sample_db [sample_outbox_row 1 ''retrying'' 3]) () of
     (r, d', k') \<Rightarrow> r = Ok () \<and> map ow_status (db_outbox d') = [''dlq'']"
proof -
  let ?d = "sample_db [sample_outbox_row 1 ''retrying'' 3]"
  have "pg_outbox_ok ?d" by (simp add: sample_outbox_ok)
  moreover have "sint (en_retries e) < i32_max" if "pg_ledger ?d i = Some e" for i e
    using that by (auto simp: pg_ledger_def entry_of_row_def entry_of_def outbox_message_of_row_def
        sample_outbox_row_def i32_max_def split: if_splits)
  moreover have "0 \<le> sint (10 :: i64)" by simp
  moreover have "is_ok (sd_to_vec null_serde v)" for v by (simp add: null_serde_def)
  moreover have "map ow_status (db_outbox (fst (snd (publish_pending null_serde exact_floats pg_outbox_repository
      refusing (retry_strategy_new default_retry_config) 10 ?d ())))) = [''dlq'']" by code_simp
  ultimately show ?thesis
    using publish_round_refines [where d = ?d and n = 10 and sd = null_serde and fl = exact_floats
        and sink = refusing and retry = "retry_strategy_new default_retry_config" and k = "()"]
    by (auto split: prod.splits)
qed

section \<open>The claim\<close>

lemma pg_outbox_claim_Ok:
  assumes "pg_outbox_ok d" and "pg_outbox_claim_pending n lease d = (Ok ms, d')"
  obtains env d1 ids where "db_outbox d1 = db_outbox d" and "db_now d' = db_now d1"
    and "claim_select n lease env d1 = Ok ids" and "db_outbox d' = map (claim_row ids (db_now d')) (db_outbox d)"
    and "set ids = om_id ` set ms"
proof (rule pg_outbox_claim_effect [OF assms])
  fix e assume "Ok ms = (Err e :: outbox_error + outbox_message list)"
  then show thesis by simp
next
  fix env d1 ids and ms' :: "outbox_message list"
  assume *: "db_outbox d1 = db_outbox d" "db_now d' = db_now d1" "claim_select n lease env d1 = Ok ids"
    "db_outbox d' = map (claim_row ids (db_now d1)) (db_outbox d)" "set ids = om_id ` set ms'"
  assume "Ok ms = (Ok ms' :: outbox_error + outbox_message list) \<or> (\<exists>e. Ok ms = (Err e :: outbox_error + outbox_message list))"
  then have "ms' = ms" by simp
  with * show thesis by (intro that [of d1 env ids]) simp_all
qed

lemma outbox_stmt_undisturbed:
  "undisturbed d \<Longrightarrow> outbox_stmt stmt d =
     (case stmt calm_env d of Ok (a, d2) \<Rightarrow> (Ok a, d2) | Err e \<Rightarrow> (Err (outbox_storage d e), d))"
  by (auto simp: outbox_stmt_def run_statement_calm split: sum.split)

lemmas outbox_eval = pg_outbox_repository_simps pg_outbox_get_by_id_def pg_outbox_delete_def pg_outbox_create_def
  pg_outbox_claim_pending_def outbox_stmt_undisturbed outbox_insert_def outbox_update_def outbox_unique_def claim_select_def
  claim_candidate_def outbox_row_of_message_def outbox_message_of_row_def message_status_of_string_def sample_outbox_row_def

text \<open>C5: Exclusive claims. A second claim made while the first one's lease runs, by whichever
  publisher and with whatever locks and delays, returns none of the messages the first returned.\<close>

theorem claims_exclusive:
  assumes ok: "pg_outbox_ok d" and c1: "pg_outbox_claim_pending n1 lease1 d = (Ok ms1, d1)"
    and c2: "pg_outbox_claim_pending n2 lease2 d1 = (Ok ms2, d2)"
    and lease: "db_now d2 \<le> db_now d1 + sint lease2 * 1000000"
  shows "om_id ` set ms1 \<inter> om_id ` set ms2 = {}"
proof -
  have ok1: "pg_outbox_ok d1" using pg_outbox_claim_law [OF ok c1] by blast
  obtain env1 e1 ids1 where rows1: "db_outbox d1 = map (claim_row ids1 (db_now d1)) (db_outbox d)"
    and ids1: "set ids1 = om_id ` set ms1"
    by (rule pg_outbox_claim_Ok [OF ok c1])
  obtain env e2 ids2 where tab: "db_outbox e2 = db_outbox d1" and now: "db_now d2 = db_now e2"
    and sel: "claim_select n2 lease2 env e2 = Ok ids2" and ids2: "set ids2 = om_id ` set ms2"
    by (rule pg_outbox_claim_Ok [OF ok1 c2])
  have "pg_outbox_ok e2" using ok1 tab by (simp add: pg_outbox_ok_def)
  note spec = claim_select_spec [OF sel this]
  have False if "i \<in> set ids1" "i \<in> set ids2" for i
  proof -
    from spec that(2) obtain row where "row \<in> set (db_outbox d1)" "ow_id row = i"
      and cand: "claim_candidate (db_now e2) lease2 row" unfolding tab by blast
    then obtain row0 where "row = claim_row ids1 (db_now d1) row0" unfolding rows1 by auto
    with that(1) \<open>ow_id row = i\<close> have "ow_status row = ''publishing''" "ow_updated_at row = db_now d1"
      by (simp_all add: claim_row_def split: if_splits)
    with cand lease now show False by (simp add: claim_candidate_def)
  qed
  with ids1 ids2 show ?thesis by blast
qed

theorem claims_exclusive_witness:
  "\<exists>ms1 d1 ms2 d2.
     pg_outbox_claim_pending 1 60 (sample_db [sample_outbox_row 1 ''pending'' 0, sample_outbox_row 2 ''pending'' 0]) = (Ok ms1, d1) \<and>
     pg_outbox_claim_pending 5 60 d1 = (Ok ms2, d2) \<and> ms1 \<noteq> [] \<and> ms2 \<noteq> [] \<and>
     om_id ` set ms1 \<inter> om_id ` set ms2 = {}"
proof -
  let ?d = "sample_db [sample_outbox_row 1 ''pending'' 0, sample_outbox_row 2 ''pending'' 0]"
  let ?c1 = "pg_outbox_claim_pending 1 60 ?d"
  let ?c2 = "pg_outbox_claim_pending 5 60 (snd ?c1)"
  have "case fst ?c1 of Ok ms \<Rightarrow> ms \<noteq> [] | Err _ \<Rightarrow> False" by code_simp
  then obtain ms1 where ms1: "fst ?c1 = Ok ms1" "ms1 \<noteq> []" by (cases "fst ?c1") simp_all
  have "case fst ?c2 of Ok ms \<Rightarrow> ms \<noteq> [] | Err _ \<Rightarrow> False" by code_simp
  then obtain ms2 where ms2: "fst ?c2 = Ok ms2" "ms2 \<noteq> []" by (cases "fst ?c2") simp_all
  have ok: "pg_outbox_ok ?d" by (simp add: sample_outbox_ok)
  have lease: "db_now (snd ?c2) \<le> db_now (snd ?c1) + sint (60 :: i32) * 1000000" by code_simp
  have c1: "?c1 = (Ok ms1, snd ?c1)" and c2: "?c2 = (Ok ms2, snd ?c2)"
    using ms1 ms2 by (metis prod.collapse)+
  from claims_exclusive [OF ok c1 c2 lease] c1 c2 ms1(2) ms2(2) show ?thesis by blast
qed

text \<open>With room for all candidates, a claim in calm surroundings takes every one of them.\<close>

lemma claim_due_run:
  assumes "pg_outbox_ok d" and "undisturbed d"
    and due: "claim_candidate (db_now d) lease r" and r: "r \<in> set (db_outbox d)"
    and room: "int (length (filter (claim_candidate (db_now d) lease) (db_outbox d))) \<le> sint n"
  shows "\<exists>ms d'. pg_outbox_claim_pending n lease d = (Ok ms, d') \<and> ow_id r \<in> om_id ` set ms \<and>
           pg_ledger d' (ow_id r) = Some (claimed (entry_of_row r))"
proof -
  let ?due = "filter (claim_candidate (db_now d) lease) (db_outbox d)"
  let ?ids = "map ow_id (sort_key ow_created_at ?due)"
  from room have n: "0 \<le> sint n" by linarith
  have all: "take (nat (sint n)) (sort_key ow_created_at ?due) = sort_key ow_created_at ?due"
    using room n by (intro take_all) (simp add: le_nat_iff)
  have sel: "claim_select n lease calm_env d = Ok ?ids"
    using n all by (simp add: claim_select_def limit_rows_def calm_env_def)
  obtain d' where upd: "outbox_update (\<lambda>x. ow_id x \<in> set ?ids) (\<lambda>r. r\<lparr>ow_status := ''publishing''\<rparr>) d = Ok d'"
    using outbox_update_succeeds [OF assms(1,2), of "\<lambda>r. r\<lparr>ow_status := ''publishing''\<rparr>" "\<lambda>x. ow_id x \<in> set ?ids"]
    by (auto simp: outbox_row_checks)
  let ?ms = "map outbox_message_of_row (filter (\<lambda>x. ow_id x \<in> set ?ids) (db_outbox d'))"
  have run: "pg_outbox_claim_pending n lease d = (Ok ?ms, d')"
    by (simp only: pg_outbox_claim_pending_def outbox_stmt_undisturbed [OF assms(2)] sel sum.case upd map_ok_simps prod.case)
  have mem: "ow_id r \<in> set ?ids" using due r by simp
  have led: "pg_ledger d' = on_entries (set ?ids) claimed (pg_ledger d)"
    using outbox_update_ledger [OF assms(1) upd, of "set ?ids" claimed]
    by (auto simp: claimed_def outbox_view_defs)
  have led_r: "pg_ledger d' (ow_id r) = Some (claimed (entry_of_row r))"
    using mem pg_ledger_row [OF assms(1) r] by (simp only: led on_entries_apply if_True option.map)
  then obtain r' where "row_at ow_id (db_outbox d') (ow_id r) = Some r'" by (auto simp: pg_ledger_def)
  then have r': "r' \<in> set (db_outbox d')" "ow_id r' = ow_id r" by (auto dest: row_at_key)
  with mem have "outbox_message_of_row r' \<in> set ?ms" by simp
  then have "ow_id r \<in> om_id ` set ?ms"
    by (rule rev_image_eqI) (simp add: r'(2))
  with led_r run show ?thesis by blast
qed

text \<open>C20: No message is stuck. On an undisturbed database a message
  that is pending, due for a retry, or abandoned by a publisher for longer than the lease is
  claimed, provided the batch is large enough for all such messages.\<close>

theorem claim_takes_all_due:
  assumes "pg_outbox_ok d" and "undisturbed d"
    and due: "claim_candidate (db_now d) lease r" and r: "r \<in> set (db_outbox d)"
    and room: "int (length (filter (claim_candidate (db_now d) lease) (db_outbox d))) \<le> sint n"
  shows "case pg_outbox_claim_pending n lease d of
           (res, d') \<Rightarrow> \<exists>ms. res = Ok ms \<and> ow_id r \<in> om_id ` set ms \<and>
             pg_ledger d' (ow_id r) = Some (claimed (entry_of_row r))"
  using claim_due_run [OF assms] by auto

theorem claim_takes_all_due_witness:
  "case pg_outbox_claim_pending 10 60 (sample_db [sample_outbox_row 1 ''publishing'' 0]) of
     (res, d') \<Rightarrow> pg_ledger d' 1 = Some (claimed (entry_of_row (sample_outbox_row 1 ''publishing'' 0)))"
proof -
  let ?r = "sample_outbox_row 1 ''publishing'' 0"
  have "pg_outbox_ok (sample_db [?r])" by (simp add: sample_outbox_ok)
  moreover have "claim_candidate (db_now (sample_db [?r])) 60 ?r" by code_simp
  moreover have "int (length (filter (claim_candidate (db_now (sample_db [?r])) 60) (db_outbox (sample_db [?r])))) \<le> sint (10 :: i64)"
    by code_simp
  moreover have "ow_id ?r = 1" by (simp add: sample_outbox_row_def)
  ultimately show ?thesis
    using claim_takes_all_due [where d = "sample_db [?r]" and lease = 60 and n = 10 and r = ?r]
    by (auto split: prod.splits)
qed

section \<open>The worker\<close>

lemma publish_pending_ledger:
  assumes "pg_outbox_ok d" and run: "publish_pending sd fl pg_outbox_repository sink retry n d k = (r, d', k')"
  shows "pg_outbox_ok d' \<and> dom (pg_ledger d') = dom (pg_ledger d) \<and>
         (\<forall>i e. pg_ledger d i = Some e \<longrightarrow> (\<exists>e'. pg_ledger d' i = Some e' \<and> same_content e e' \<and>
            (\<not> claimable e \<longrightarrow> e' = e)))"
proof -
  from publish_pending_recording [OF run] obtain lg where
    rec: "publish_pending sd fl pg_outbox_repository (recording sink) retry n d (k, []) = (r, d', k', lg)" by blast
  have "\<exists>e'. pg_ledger d' i = Some e' \<and> same_content e e' \<and> (\<not> claimable e \<longrightarrow> e' = e)"
    if "pg_ledger d i = Some e" for i e
    using pg.publish_pending_entry [OF assms(1) rec that]
  proof (elim exE conjE disjE)
    fix e' m err assume "pg_ledger d' i = Some e'" "claimable e" "e' = settle_entry fl retry m err (claimed e)"
    then show ?thesis using same_content_trans [OF same_content_updates(1) same_content_settle] by auto
  qed (simp_all add: same_content_def claimed_def)
  with pg.publish_pending_keeps [OF assms(1) rec] show ?thesis by blast
qed

text \<open>C9: The worker never loses or alters a message. Over any run of the background task, ticks,
  shutdown and the closing of its channel in any order, and for every script, no message appears in or disappears from the
  outbox, every message keeps its topic, key and payload, and a message that is published, failed
  or dead-lettered stays exactly as it is.\<close>

theorem worker_keeps_messages:
  assumes "pg_outbox_ok d" and "pb_repository pb = pg_outbox_repository"
  shows "case worker sd fl pb n evs d k of
           (d', k') \<Rightarrow> dom (pg_ledger d') = dom (pg_ledger d) \<and>
             (\<forall>i e. pg_ledger d i = Some e \<longrightarrow> (\<exists>e'. pg_ledger d' i = Some e' \<and> same_content e e' \<and>
                (en_status e \<in> {Published, Failed, Dlq} \<longrightarrow> e' = e)))"
  using assms(1)
proof (induction evs arbitrary: d k)
  case Nil
  then show ?case by simp
next
  case (Cons ev evs)
  show ?case
  proof (cases ev)
    case Tick
    obtain r d1 k1 where run:
      "publish_pending sd fl pg_outbox_repository (pb_sink pb) (pb_retry_strategy pb) n d k = (r, d1, k1)"
      by (metis prod_cases3)
    note one = publish_pending_ledger [OF Cons.prems run]
    obtain d' k' where w: "worker sd fl pb n evs d1 k1 = (d', k')" by fastforce
    from one have "pg_outbox_ok d1" by simp
    note rest = Cons.IH [OF this, of k1, unfolded w prod.case]
    have "\<exists>e'. pg_ledger d' i = Some e' \<and> same_content e e' \<and>
        (en_status e \<in> {Published, Failed, Dlq} \<longrightarrow> e' = e)" if e: "pg_ledger d i = Some e" for i e
    proof -
      from one e obtain e1 where e1: "pg_ledger d1 i = Some e1" "same_content e e1" "\<not> claimable e \<longrightarrow> e1 = e"
        by blast
      from rest e1(1) obtain e' where e': "pg_ledger d' i = Some e'" "same_content e1 e'"
        "en_status e1 \<in> {Published, Failed, Dlq} \<longrightarrow> e' = e1" by blast
      have "e' = e" if "en_status e \<in> {Published, Failed, Dlq}"
      proof -
        from that have "\<not> claimable e" by (auto simp: claimable_def)
        with e1(3) e'(3) that show ?thesis by blast
      qed
      with same_content_trans [OF e1(2) e'(2)] e'(1) show ?thesis by blast
    qed
    moreover from one rest have "dom (pg_ledger d') = dom (pg_ledger d)" by simp
    ultimately show ?thesis using Tick run w assms(2) by simp
  qed simp_all
qed

definition sample_publisher :: "(db, unit) outbox_publisher" where
  "sample_publisher =
     \<lparr>pb_repository = pg_outbox_repository, pb_sink = accepting,
      pb_retry_strategy = retry_strategy_new default_retry_config, pb_running = True\<rparr>"

theorem worker_keeps_messages_witness:
  "case worker null_serde exact_floats sample_publisher 10 [Tick, Tick, Shutdown, Tick]
          (sample_db [sample_outbox_row 1 ''pending'' 0, sample_outbox_row 2 ''failed'' 3]) () of
     (d', k') \<Rightarrow> 1 \<in> dom (pg_ledger d') \<and>
       pg_ledger d' 2 = Some (entry_of_row (sample_outbox_row 2 ''failed'' 3))"
proof -
  let ?d = "sample_db [sample_outbox_row 1 ''pending'' 0, sample_outbox_row 2 ''failed'' 3]"
  have "pg_outbox_ok ?d" by (simp add: sample_outbox_ok)
  moreover have "pb_repository sample_publisher = pg_outbox_repository" by (simp add: sample_publisher_def)
  moreover have "1 \<in> dom (pg_ledger ?d)" by (simp add: pg_ledger_def sample_outbox_row_def dom_def)
  moreover have "pg_ledger ?d 2 = Some (entry_of_row (sample_outbox_row 2 ''failed'' 3))"
    by (simp add: pg_ledger_def sample_outbox_row_def)
  moreover have "en_status (entry_of_row (sample_outbox_row 2 ''failed'' 3)) = Failed"
    by (simp add: entry_of_row_status sample_outbox_row_def message_status_of_string_def)
  ultimately show ?thesis
    using worker_keeps_messages [where d = ?d and pb = sample_publisher and sd = null_serde
        and fl = exact_floats and n = 10 and evs = "[Tick, Tick, Shutdown, Tick]" and k = "()"]
    by (auto split: prod.splits)
qed

text \<open>Stale publishers. On a message that is already published, the guarded calls of a
  publisher whose lease has run out do nothing, but \<open>increment_retry\<close>, which is not guarded by the
  status, takes the message back to \<open>retrying\<close>, so it will be sent again.\<close>

theorem stale_publisher_reverts:
  assumes "pg_outbox_ok d" and "undisturbed d" and "pg_ledger d i = Some e"
    and "en_status e = Published" and "sint (en_retries e) < i32_max"
  shows "pg_ledger (snd (pg_outbox_release_claim i d)) i = Some e \<and>
         pg_ledger (snd (pg_outbox_mark_published_batch [i] d)) i = Some e \<and>
         pg_ledger (snd (pg_outbox_increment_retry i err d)) i = Some (retried err e) \<and>
         claimable (retried err e)"
proof -
  obtain r1 d1 where c1: "pg_outbox_release_claim i d = (r1, d1)" by fastforce
  from pg_outbox_release_law [OF assms(1) c1] assms(3,4) have "pg_ledger d1 i = Some e"
    by (auto dest!: effect_or simp: released_if_claimed_def)
  moreover obtain r2 d2 where c2: "pg_outbox_mark_published_batch [i] d = (r2, d2)" by fastforce
  from pg_outbox_mark_published_batch_law [OF assms(1) c2] assms(3,4) have "pg_ledger d2 i = Some e"
    by (auto dest!: effect_or simp: published_if_claimed_def)
  moreover obtain r3 d3 where c3: "pg_outbox_increment_retry i err d = (r3, d3)" by fastforce
  from pg_outbox_increment_law [OF assms(1) c3]
    pg.calm_increment [OF assms(1,2,3,5), unfolded pg_outbox_repository_simps, OF c3] assms(3)
  have "pg_ledger d3 i = Some (retried err e)" by (cases r3) auto
  ultimately show ?thesis using c1 c2 c3 by (simp add: claimable_def retried_def)
qed

theorem stale_publisher_reverts_witness:
  "pg_ledger (snd (pg_outbox_increment_retry 1 (Some ''late'') (sample_db [sample_outbox_row 1 ''published'' 0]))) 1 =
     Some (retried (Some ''late'') (entry_of_row (sample_outbox_row 1 ''published'' 0)))"
proof -
  let ?r = "sample_outbox_row 1 ''published'' 0"
  have "pg_outbox_ok (sample_db [?r])" by (simp add: sample_outbox_ok)
  moreover have "pg_ledger (sample_db [?r]) 1 = Some (entry_of_row ?r)"
    by (simp add: pg_ledger_def sample_outbox_row_def)
  moreover have "en_status (entry_of_row ?r) = Published" "sint (en_retries (entry_of_row ?r)) < i32_max"
    by (simp_all add: entry_of_row_def entry_of_def outbox_message_of_row_def sample_outbox_row_def
        message_status_of_string_def i32_max_def)
  ultimately show ?thesis
    using stale_publisher_reverts [where d = "sample_db [?r]" and i = 1 and e = "entry_of_row ?r" and err = "Some ''late''"]
    by simp
qed

end
