(* ===== verification/Accept.thy ===== *)
theory Accept
  imports Outbox_System
begin

text \<open>
  \<open>features/publishing/accept.rs\<close>: validating publish requests and storing them in the outbox, one
  at a time (\<open>apply\<close>) or as a batch in one statement (\<open>apply_batch\<close>).
\<close>

section \<open>The use case\<close>

record publish_request_input =
  pi_message_id :: "string option"
  pi_aggregate_type :: string
  pi_aggregate_id :: string
  pi_event_type :: string
  pi_payload :: bytes
  pi_headers :: "(string \<times> string) list"
  pi_topic :: string
  pi_partition_key :: "string option"

datatype accept_error = InvalidPayload string | InvalidMessageId string | Storage string

fun accept_error_to_string :: "accept_error \<Rightarrow> string" where
  "accept_error_to_string (InvalidPayload e) = ''Invalid payload JSON: '' @ e"
| "accept_error_to_string (InvalidMessageId e) = ''Invalid message_id: '' @ e"
| "accept_error_to_string (Storage e) = ''Failed to create message: '' @ e"

text \<open>An absent or empty identifier is generated.\<close>

definition resolve_message_id :: "uuid_lib \<Rightarrow> string option \<Rightarrow> runtime \<Rightarrow> (accept_error + uuid) \<times> runtime" where
  "resolve_message_id ul message_id rt =
     (case message_id of
        Some i \<Rightarrow>
          if i \<noteq> [] then (map_err InvalidMessageId (ul_parse ul i), rt)
          else (let (u, rt1) = now_v7 rt in (Ok u, rt1))
      | None \<Rightarrow> let (u, rt1) = now_v7 rt in (Ok u, rt1))"

definition parse_payload :: "serde \<Rightarrow> bytes \<Rightarrow> accept_error + json" where
  "parse_payload sd payload =
     (if payload = [] then Ok json_empty_object
      else map_err InvalidPayload (sd_from_slice sd payload))"

text \<open>Collecting pairs into a \<open>HashMap\<close> keeps the last value of a key; \<open>.ok()\<close> drops an error.\<close>

definition header_value :: "serde \<Rightarrow> (string \<times> string) list \<Rightarrow> json option" where
  "header_value sd headers =
     (if headers = [] then None
      else case sd_map_to_value sd (map_of (rev headers)) of Ok v \<Rightarrow> Some v | Err _ \<Rightarrow> None)"

definition build_message ::
  "uuid_lib \<Rightarrow> serde \<Rightarrow> publish_request_input \<Rightarrow> runtime \<Rightarrow> (accept_error + outbox_message) \<times> runtime" where
  "build_message ul sd inp rt =
     (case resolve_message_id ul (pi_message_id inp) rt of
        (Err e, rt1) \<Rightarrow> (Err e, rt1)
      | (Ok message_id, rt1) \<Rightarrow>
          (case parse_payload sd (pi_payload inp) of
             Err e \<Rightarrow> (Err e, rt1)
           | Ok payload \<Rightarrow>
               let headers = header_value sd (pi_headers inp);
                   (message, rt2) = outbox_message_new (pi_aggregate_type inp) (pi_aggregate_id inp)
                      (pi_event_type inp) payload (pi_topic inp) rt1
               in (Ok (message\<lparr>om_id := message_id, om_headers := headers,
                               om_partition_key := pi_partition_key inp\<rparr>), rt2)))"

definition accept_apply ::
  "uuid_lib \<Rightarrow> serde \<Rightarrow> 's outbox_repository \<Rightarrow> publish_request_input \<Rightarrow> runtime \<Rightarrow> 's
     \<Rightarrow> (accept_error + uuid) \<times> runtime \<times> 's" where
  "accept_apply ul sd repo inp rt s =
     (case resolve_message_id ul (pi_message_id inp) rt of
        (Err e, rt1) \<Rightarrow> (Err e, rt1, s)
      | (Ok message_id, rt1) \<Rightarrow>
          (case parse_payload sd (pi_payload inp) of
             Err e \<Rightarrow> (Err e, rt1, s)
           | Ok payload \<Rightarrow>
               let headers = header_value sd (pi_headers inp);
                   (message, rt2) = outbox_message_new (pi_aggregate_type inp) (pi_aggregate_id inp)
                      (pi_event_type inp) payload (pi_topic inp) rt1;
                   message = message\<lparr>om_id := message_id, om_headers := headers,
                                     om_partition_key := pi_partition_key inp\<rparr>
               in case or_create repo message s of
                    (Err e, s1) \<Rightarrow> (Err (Storage (outbox_error_to_string ul e)), rt2, s1)
                  | (Ok _, s1) \<Rightarrow> (Ok message_id, rt2, s1)))"

text \<open>The loop of the batch: valid messages on one side, the errors of the others on the other.\<close>

fun build_loop ::
  "uuid_lib \<Rightarrow> serde \<Rightarrow> publish_request_input list \<Rightarrow> outbox_message list \<Rightarrow> (accept_error + uuid) list \<Rightarrow> runtime
     \<Rightarrow> outbox_message list \<times> (accept_error + uuid) list \<times> runtime" where
  "build_loop ul sd [] messages results rt = (messages, results, rt)"
| "build_loop ul sd (inp # inps) messages results rt =
     (case build_message ul sd inp rt of
        (Ok message, rt1) \<Rightarrow> build_loop ul sd inps (messages @ [message]) results rt1
      | (Err e, rt1) \<Rightarrow> build_loop ul sd inps messages (results @ [Err e]) rt1)"

definition accept_apply_batch ::
  "uuid_lib \<Rightarrow> serde \<Rightarrow> 's outbox_repository \<Rightarrow> publish_request_input list \<Rightarrow> runtime \<Rightarrow> 's
     \<Rightarrow> (accept_error + uuid) list \<times> runtime \<times> 's" where
  "accept_apply_batch ul sd repo inps rt s =
     (let (messages, results, rt1) = build_loop ul sd inps [] [] rt in
        case or_create_batch repo messages s of
          (Ok _, s1) \<Rightarrow> (results @ map (\<lambda>m. Ok (om_id m)) messages, rt1, s1)
        | (Err e, s1) \<Rightarrow>
            (results @ replicate (length messages) (Err (Storage (outbox_error_to_string ul e))), rt1, s1))"

section \<open>What building a message gives\<close>

text \<open>The request a message was built from.\<close>

definition built_from :: "uuid_lib \<Rightarrow> serde \<Rightarrow> publish_request_input \<Rightarrow> outbox_message \<Rightarrow> bool" where
  "built_from ul sd inp m \<longleftrightarrow>
     (\<forall>i. pi_message_id inp = Some i \<and> i \<noteq> [] \<longrightarrow> ul_parse ul i = Ok (om_id m)) \<and>
     parse_payload sd (pi_payload inp) = Ok (om_payload m) \<and>
     om_topic m = pi_topic inp \<and> om_partition_key m = pi_partition_key inp \<and>
     om_aggregate_type m = pi_aggregate_type inp \<and> om_aggregate_id m = pi_aggregate_id inp \<and>
     om_event_type m = pi_event_type inp \<and> om_headers m = header_value sd (pi_headers inp) \<and>
     om_status m = Pending \<and> om_retry_count m = 0 \<and> om_error_message m = None \<and> om_published_at m = None"

lemma build_message_Ok: "build_message ul sd inp rt = (Ok m, rt') \<Longrightarrow> built_from ul sd inp m"
  by (auto simp: build_message_def resolve_message_id_def built_from_def outbox_message_new_def utc_now_def
      now_v7_def split: option.splits sum.splits if_splits prod.splits)

text \<open>A request is refused exactly for an identifier that does not parse or, that being fine, for a
  payload that does not.\<close>

definition refusal :: "uuid_lib \<Rightarrow> serde \<Rightarrow> publish_request_input \<Rightarrow> accept_error option" where
  "refusal ul sd inp =
     (case pi_message_id inp of
        Some i \<Rightarrow>
          (if i = [] then None else case ul_parse ul i of Err e \<Rightarrow> Some (InvalidMessageId e) | Ok _ \<Rightarrow> None)
      | None \<Rightarrow> None)"

definition payload_refusal :: "serde \<Rightarrow> publish_request_input \<Rightarrow> accept_error option" where
  "payload_refusal sd inp = (case parse_payload sd (pi_payload inp) of Err e \<Rightarrow> Some e | Ok _ \<Rightarrow> None)"

definition request_error :: "uuid_lib \<Rightarrow> serde \<Rightarrow> publish_request_input \<Rightarrow> accept_error option" where
  "request_error ul sd inp =
     (case refusal ul sd inp of Some e \<Rightarrow> Some e | None \<Rightarrow> payload_refusal sd inp)"

lemma build_message_request_error:
  "fst (build_message ul sd inp rt) = Err e \<longleftrightarrow> request_error ul sd inp = Some e"
  by (auto simp: build_message_def resolve_message_id_def request_error_def refusal_def payload_refusal_def
      now_v7_def outbox_message_new_def utc_now_def split: option.splits sum.splits if_splits prod.splits)

lemma build_message_is_ok: "is_ok (fst (build_message ul sd inp rt)) \<longleftrightarrow> request_error ul sd inp = None"
proof (cases "fst (build_message ul sd inp rt)")
  case (Inl e)
  then show ?thesis using build_message_request_error [of ul sd inp rt e] by simp
next
  case (Inr m)
  then have "request_error ul sd inp \<noteq> Some e" for e
    using build_message_request_error [of ul sd inp rt e] by simp
  then have "request_error ul sd inp = None" by (cases "request_error ul sd inp") auto
  with Inr show ?thesis by simp
qed

lemma accept_apply_build:
  "accept_apply ul sd repo inp rt s =
     (case build_message ul sd inp rt of
        (Err e, rt1) \<Rightarrow> (Err e, rt1, s)
      | (Ok m, rt1) \<Rightarrow>
          (case or_create repo m s of
             (Err e, s1) \<Rightarrow> (Err (Storage (outbox_error_to_string ul e)), rt1, s1)
           | (Ok _, s1) \<Rightarrow> (Ok (om_id m), rt1, s1)))"
  by (auto simp: accept_apply_def build_message_def Let_def split: sum.splits prod.splits)

text \<open>The loop keeps both orders and sorts the requests by validity.\<close>

definition errors_of :: "uuid_lib \<Rightarrow> serde \<Rightarrow> publish_request_input list \<Rightarrow> accept_error list" where
  "errors_of ul sd inps = List.map_filter (request_error ul sd) inps"

definition valid_of :: "uuid_lib \<Rightarrow> serde \<Rightarrow> publish_request_input list \<Rightarrow> publish_request_input list" where
  "valid_of ul sd inps = filter (\<lambda>inp. request_error ul sd inp = None) inps"

lemma build_loop_spec:
  "build_loop ul sd inps ms rs rt = (ms', rs', rt') \<Longrightarrow>
     \<exists>new. ms' = ms @ new \<and> list_all2 (built_from ul sd) (valid_of ul sd inps) new \<and>
           rs' = rs @ map Err (errors_of ul sd inps)"
proof (induction inps arbitrary: ms rs rt)
  case Nil
  then show ?case by (auto simp: valid_of_def errors_of_def map_filter_simps)
next
  case (Cons inp inps)
  obtain b rt1 where b: "build_message ul sd inp rt = (b, rt1)" by fastforce
  show ?case
  proof (cases b)
    case (Inl e)
    then have "request_error ul sd inp = Some e"
      using build_message_request_error [of ul sd inp rt e] b by simp
    with Cons.IH [of ms "rs @ [Err e]" rt1] Cons.prems b Inl show ?thesis
      by (auto simp: valid_of_def errors_of_def map_filter_simps)
  next
    case (Inr m)
    then have "request_error ul sd inp = None"
      using build_message_is_ok [of ul sd inp rt] b by simp
    with Cons.IH [of "ms @ [m]" rs rt1] Cons.prems b Inr build_message_Ok [of ul sd inp rt m rt1] show ?thesis
      by (auto simp: valid_of_def errors_of_def map_filter_simps)
  qed
qed

lemma length_valid_errors: "length (valid_of ul sd inps) + length (errors_of ul sd inps) = length inps"
  by (induction inps) (auto simp: valid_of_def errors_of_def map_filter_simps split: option.split)

section \<open>Storing requests\<close>

text \<open>A failing store does not say whether the messages were stored.\<close>

context outbox_port begin

lemma apply_law:
  assumes "ok s" and run: "accept_apply ul sd repo inp rt s = (r, rt', s')"
  shows "ok s' \<and>
         (\<forall>i. r = Ok i \<longrightarrow> (\<exists>m. built_from ul sd inp m \<and> om_id m = i \<and> i \<notin> dom (led s) \<and>
                                led s' = (led s)(i \<mapsto> entry_of m))) \<and>
         (\<forall>e. r = Err e \<longrightarrow> (request_error ul sd inp = Some e \<and> s' = s) \<or>
            (\<exists>t. e = Storage t \<and> (led s' = led s \<or>
               (\<exists>m. built_from ul sd inp m \<and> om_id m \<notin> dom (led s) \<and> led s' = (led s)(om_id m \<mapsto> entry_of m)))))"
proof -
  obtain b rt1 where b: "build_message ul sd inp rt = (b, rt1)" by fastforce
  show ?thesis
  proof (cases b)
    case (Inl e)
    with b build_message_request_error [of ul sd inp rt e] run assms(1) show ?thesis
      by (auto simp: accept_apply_build)
  next
    case (Inr m)
    obtain c s1 where c: "or_create repo m s = (c, s1)" by fastforce
    note law = create_law [OF assms(1) c]
    from b Inr have m: "built_from ul sd inp m" by (simp add: build_message_Ok)
    show ?thesis
    proof (cases c)
      case (Inl e)
      from law Inl have "led s' = led s \<or> (om_id m \<notin> dom (led s) \<and> led s' = (led s)(om_id m \<mapsto> entry_of m))"
        using run b c \<open>b = Ok m\<close> by (auto simp: accept_apply_build add_entries_def)
      with run b c \<open>b = Ok m\<close> Inl law m show ?thesis by (auto simp: accept_apply_build)
    next
      case (Inr u)
      from law Inr have "om_id m \<notin> dom (led s)" "led s1 = (led s)(om_id m \<mapsto> entry_of m)"
        by (auto simp: add_entries_def)
      with run b c \<open>b = Ok m\<close> Inr law m show ?thesis by (auto simp: accept_apply_build)
    qed
  qed
qed

lemma apply_batch_law:
  assumes "ok s" and run: "accept_apply_batch ul sd repo inps rt s = (rs, rt', s')"
  shows "ok s' \<and>
         (\<exists>ms. list_all2 (built_from ul sd) (valid_of ul sd inps) ms \<and>
            (led s' = led s \<or>
               distinct (map om_id ms) \<and> om_id ` set ms \<inter> dom (led s) = {} \<and> led s' = add_entries ms (led s)) \<and>
            (rs = map Err (errors_of ul sd inps) @ map (\<lambda>m. Ok (om_id m)) ms \<and> led s' = add_entries ms (led s) \<or>
             (\<exists>t. rs = map Err (errors_of ul sd inps @ replicate (length ms) (Storage t)))))"
proof -
  obtain ms res rt1 where b: "build_loop ul sd inps [] [] rt = (ms, res, rt1)" by (metis prod_cases3)
  from build_loop_spec [OF b] have ms: "list_all2 (built_from ul sd) (valid_of ul sd inps) ms"
    and res: "res = map Err (errors_of ul sd inps)" by auto
  obtain c s1 where c: "or_create_batch repo ms s = (c, s1)" by fastforce
  note law = create_batch_law [OF assms(1) c]
  show ?thesis
  proof (cases c)
    case (Inl e)
    with run b c res have s': "s' = s1" and rs: "rs = map Err (errors_of ul sd inps @
        replicate (length ms) (Storage (outbox_error_to_string ul e)))"
      by (simp_all add: accept_apply_batch_def)
    from law Inl s' have "led s' = led s \<or>
        distinct (map om_id ms) \<and> om_id ` set ms \<inter> dom (led s) = {} \<and> led s' = add_entries ms (led s)" by auto
    with law s' rs ms show ?thesis by blast
  next
    case (Inr u)
    with run b c res have s': "s' = s1"
      and rs: "rs = map Err (errors_of ul sd inps) @ map (\<lambda>m. Ok (om_id m)) ms"
      by (simp_all add: accept_apply_batch_def)
    with law Inr ms show ?thesis by auto
  qed
qed

end

lemmas accept_eval = accept_apply_def resolve_message_id_def parse_payload_def header_value_def outbox_message_new_def
  now_v7_def utc_now_def counting_runtime_def

text \<open>C10: Accepting one request. On the Postgres outbox, for every script: \<open>Ok id\<close> means that exactly
  one new message is in the outbox under \<open>id\<close>, pending, with no retries and the request's topic,
  key, headers and parsed payload, and that \<open>id\<close> is the client's identifier when one was given and
  was not in use; a validation error leaves the database as it was; a storage error means that
  either nothing was stored or the message was and only the acknowledgement was lost.\<close>

theorem accept_stores_message:
  assumes "pg_outbox_ok d"
  shows "case accept_apply ul sd pg_outbox_repository inp rt d of (r, rt', d') \<Rightarrow>
           case r of
             Ok i \<Rightarrow> \<exists>m. built_from ul sd inp m \<and> om_id m = i \<and> i \<notin> dom (pg_ledger d) \<and>
                         pg_ledger d' = (pg_ledger d)(i \<mapsto> entry_of m)
           | Err (Storage t) \<Rightarrow> pg_ledger d' = pg_ledger d \<or>
               (\<exists>m. built_from ul sd inp m \<and> om_id m \<notin> dom (pg_ledger d) \<and>
                    pg_ledger d' = (pg_ledger d)(om_id m \<mapsto> entry_of m))
           | Err e \<Rightarrow> request_error ul sd inp = Some e \<and> d' = d"
proof -
  obtain r rt' d' where run: "accept_apply ul sd pg_outbox_repository inp rt d = (r, rt', d')"
    by (metis prod_cases3)
  have not_storage: "request_error ul sd inp \<noteq> Some (Storage t)" for t
    by (auto simp: request_error_def refusal_def payload_refusal_def parse_payload_def
        split: option.splits sum.splits if_splits)
  from pg.apply_law [OF assms run] not_storage show ?thesis
    unfolding run prod.case by (cases r) (auto split: accept_error.split)
qed

definition sample_request :: "string option \<Rightarrow> bytes \<Rightarrow> publish_request_input" where
  "sample_request i p =
     \<lparr>pi_message_id = i, pi_aggregate_type = ''Order'', pi_aggregate_id = ''o1'',
      pi_event_type = ''OrderCreated'', pi_payload = p, pi_headers = [(''k'', ''v'')],
      pi_topic = ''orders'', pi_partition_key = None\<rparr>"

theorem accept_stores_message_witness:
  "case accept_apply decimal_uuids null_serde pg_outbox_repository (sample_request (Some ''7'') []) counting_runtime
          (sample_db [sample_outbox_row 1 ''pending'' 0]) of
     (r, rt', d') \<Rightarrow> r = Ok 7 \<and> (\<exists>e. pg_ledger d' = (pg_ledger (sample_db [sample_outbox_row 1 ''pending'' 0]))(7 \<mapsto> e))"
proof -
  let ?d = "sample_db [sample_outbox_row 1 ''pending'' 0]"
  have ok: "pg_outbox_ok ?d" by (simp add: sample_outbox_ok)
  have "fst (accept_apply decimal_uuids null_serde pg_outbox_repository (sample_request (Some ''7'') [])
      counting_runtime ?d) = Ok 7"
    by (simp add: sample_request_def null_serde_def decimal_eval accept_eval row_eval outbox_eval)
  with accept_stores_message [OF ok, where ul = decimal_uuids and sd = null_serde and rt = counting_runtime
      and inp = "sample_request (Some ''7'') []"]
  show ?thesis by (auto split: prod.splits)
qed

text \<open>Accepting a batch. The valid requests are stored together or not at all, whatever the
  invalid ones are. The answer has one entry per request, but not in the order of the requests: the
  errors of the invalid requests come first, in their order, then the identifiers of the valid ones
  in theirs, or as many storage errors.\<close>

theorem accept_batch_results:
  assumes "pg_outbox_ok d"
  shows "case accept_apply_batch ul sd pg_outbox_repository inps rt d of (rs, rt', d') \<Rightarrow>
           length rs = length inps \<and>
           (\<exists>ms. list_all2 (built_from ul sd) (valid_of ul sd inps) ms \<and>
              (pg_ledger d' = pg_ledger d \<or>
                 distinct (map om_id ms) \<and> om_id ` set ms \<inter> dom (pg_ledger d) = {} \<and>
                 pg_ledger d' = add_entries ms (pg_ledger d)) \<and>
              (rs = map Err (errors_of ul sd inps) @ map (\<lambda>m. Ok (om_id m)) ms \<and>
                 pg_ledger d' = add_entries ms (pg_ledger d) \<or>
               (\<exists>t. rs = map Err (errors_of ul sd inps @ replicate (length ms) (Storage t)))))"
proof -
  obtain rs rt' d' where run: "accept_apply_batch ul sd pg_outbox_repository inps rt d = (rs, rt', d')"
    by (metis prod_cases3)
  note law = pg.apply_batch_law [OF assms run]
  then have "length rs = length inps"
    using length_valid_errors [of ul sd inps] by (auto dest: list_all2_lengthD)
  with law show ?thesis unfolding run prod.case by blast
qed

theorem accept_batch_results_witness:
  "case accept_apply_batch decimal_uuids null_serde pg_outbox_repository
          [sample_request (Some ''7'') [], sample_request (Some ''no'') []] counting_runtime (sample_db []) of
     (rs, rt', d') \<Rightarrow> length rs = 2 \<and> rs = [Err (InvalidMessageId ''not a UUID''), Ok 7]"
proof -
  have ok: "pg_outbox_ok (sample_db [])" by (simp add: sample_outbox_ok)
  have "fst (accept_apply_batch decimal_uuids null_serde pg_outbox_repository
      [sample_request (Some ''7'') [], sample_request (Some ''no'') []] counting_runtime (sample_db []))
    = [Err (InvalidMessageId ''not a UUID''), Ok 7]"
    by (simp add: accept_apply_batch_def build_message_def sample_request_def null_serde_def pg_outbox_create_batch_def Let_def
      decimal_eval accept_eval row_eval outbox_eval)
  with accept_batch_results [OF ok, where ul = decimal_uuids and sd = null_serde and rt = counting_runtime
      and inps = "[sample_request (Some ''7'') [], sample_request (Some ''no'') []]"]
  show ?thesis by (auto split: prod.splits)
qed

text \<open>One request is a batch of one. \<open>apply\<close> and \<open>apply_batch\<close> on a single request give the
  same answer, the same database and the same use of the generator and the clock.\<close>

theorem apply_is_batch_of_one:
  "accept_apply_batch ul sd pg_outbox_repository [inp] rt d =
     (case accept_apply ul sd pg_outbox_repository inp rt d of (r, rt', d') \<Rightarrow> ([r], rt', d'))"
proof -
  obtain b rt1 where b: "build_message ul sd inp rt = (b, rt1)" by fastforce
  then show ?thesis
    by (cases b) (auto simp: accept_apply_batch_def accept_apply_build pg_outbox_create_batch_def
        pg_outbox_create_def split: sum.split prod.split)
qed

end
