(* ===== verification/Fifo_Cache.thy ===== *)
theory Fifo_Cache
  imports Prelude
begin

text \<open>
  The contract two components share: a bounded set of keys that, when full, gives up its oldest key
  for a new one. The deduplicator of the inbox and the subscriber cache of the message dispatcher
  interpret it.
\<close>

locale fifo_cache =
  fixes order :: "'c \<Rightarrow> 'k list"      \<comment> \<open>the keys, oldest first\<close>
    and cap :: "'c \<Rightarrow> nat"
    and put :: "'k \<Rightarrow> 'v \<Rightarrow> 'c \<Rightarrow> 'c"
    and ok :: "'c \<Rightarrow> bool"
  assumes put_ok: "ok c \<Longrightarrow> ok (put k v c)"
    and ok_distinct: "ok c \<Longrightarrow> distinct (order c)"
    and ok_bound: "ok c \<Longrightarrow> length (order c) \<le> max 1 (cap c)"
    and put_cap: "ok c \<Longrightarrow> cap (put k v c) = cap c"
    and put_hit: "ok c \<Longrightarrow> k \<in> set (order c) \<Longrightarrow> order (put k v c) = order c"
    and put_miss: "ok c \<Longrightarrow> k \<notin> set (order c) \<Longrightarrow>
        order (put k v c) = drop (Suc (length (order c)) - cap c) (order c) @ [k]"

context fifo_cache begin

definition puts :: "('k \<times> 'v) list \<Rightarrow> 'c \<Rightarrow> 'c" where
  "puts kvs c = fold (\<lambda>(k, v). put k v) kvs c"

lemma puts_Nil [simp]: "puts [] c = c"
  and puts_Cons [simp]: "puts ((k, v) # kvs) c = puts kvs (put k v c)"
  by (simp_all add: puts_def)

lemma puts_ok: "ok c \<Longrightarrow> ok (puts kvs c) \<and> cap (puts kvs c) = cap c"
  by (induction kvs arbitrary: c) (auto simp: put_ok put_cap)

lemma put_member: "ok c \<Longrightarrow> k \<in> set (order (put k v c))"
  by (cases "k \<in> set (order c)") (simp_all add: put_hit put_miss)

lemma put_subset: "ok c \<Longrightarrow> set (order (put k v c)) \<subseteq> insert k (set (order c))"
  by (cases "k \<in> set (order c)") (auto simp: put_hit put_miss dest: in_set_dropD)

lemma puts_subset: "ok c \<Longrightarrow> set (order (puts kvs c)) \<subseteq> fst ` set kvs \<union> set (order c)"
proof (induction kvs arbitrary: c)
  case Nil
  then show ?case by simp
next
  case (Cons kv kvs)
  obtain k v where kv: "kv = (k, v)" by (cases kv)
  from Cons.IH [OF put_ok [OF Cons.prems]] put_subset [OF Cons.prems, of k v] show ?case
    by (simp add: kv) blast
qed

text \<open>A key followed by \<open>n\<close> younger ones stays through fewer than \<open>cap - n\<close> further calls.\<close>

lemma put_young:
  assumes "ok c" and ord: "order c = xs @ k # ys" and young: "Suc (length ys) < cap c"
  shows "\<exists>xs' ys'. order (put j v c) = xs' @ k # ys' \<and> length ys' \<le> Suc (length ys)"
proof (cases "j \<in> set (order c)")
  case True
  with put_hit [OF assms(1) True] ord show ?thesis
    by (intro exI [of _ xs] exI [of _ ys]) simp
next
  case False
  let ?n = "Suc (length (order c)) - cap c"
  have "?n \<le> length xs" using ord young by simp
  then have "order (put j v c) = drop ?n xs @ k # (ys @ [j])"
    using put_miss [OF assms(1) False] ord by simp
  then show ?thesis by (intro exI [of _ "drop ?n xs"] exI [of _ "ys @ [j]"]) simp
qed

lemma puts_young:
  assumes "ok c" and "order c = xs @ k # ys" and "length ys + length kvs < cap c"
  shows "k \<in> set (order (puts kvs c))"
  using assms
proof (induction kvs arbitrary: c xs ys)
  case Nil
  then show ?case by simp
next
  case (Cons kv kvs)
  obtain j v where kv: "kv = (j, v)" by (cases kv)
  have "Suc (length ys) < cap c" using Cons.prems(3) by simp
  from put_young [OF Cons.prems(1,2) this, of j v] obtain xs' ys' where
    "order (put j v c) = xs' @ k # ys'" "length ys' \<le> Suc (length ys)" by blast
  with Cons.IH [OF put_ok [OF Cons.prems(1)], of j v xs' ys'] Cons.prems put_cap [OF Cons.prems(1), of j v]
  show ?case by (simp add: kv)
qed

text \<open>A newly inserted key outlives the next \<open>cap - 1\<close> calls.\<close>

lemma put_then_puts:
  assumes "ok c" and "k \<notin> set (order c)" and "length kvs < cap c"
  shows "k \<in> set (order (puts kvs (put k v c)))"
  using puts_young [OF put_ok [OF assms(1)], of k v _ k "[]" kvs] put_miss [OF assms(1,2), of v] assms
  by (simp add: put_cap)

end

end
