(* ===== verification/Dedup.thy ===== *)
theory Dedup
  imports Fifo_Cache
begin

text \<open>
  \<open>features/consuming/dedup.rs\<close>: the bounded memory of seen message keys. Each operation holds the
  lock for its whole body and is one step here.
\<close>

section \<open>The code\<close>

record dedup_state =
  ds_seen :: "string set"
  ds_order :: "string list"

record deduplicator =
  dd_state :: dedup_state
  dd_max_size :: nat

definition deduplicator_new :: "nat \<Rightarrow> deduplicator" where
  "deduplicator_new max_size = \<lparr>dd_state = \<lparr>ds_seen = {}, ds_order = []\<rparr>, dd_max_size = max_size\<rparr>"

definition is_duplicate :: "string \<Rightarrow> deduplicator \<Rightarrow> bool" where
  "is_duplicate key d = (key \<in> ds_seen (dd_state d))"

text \<open>The eviction loop: while the set is full, drop the oldest key.\<close>

fun evict :: "nat \<Rightarrow> string set \<Rightarrow> string list \<Rightarrow> dedup_state" where
  "evict max_size seen [] = \<lparr>ds_seen = seen, ds_order = []\<rparr>"
| "evict max_size seen (oldest # order) =
     (if card seen \<ge> max_size then evict max_size (seen - {oldest}) order
      else \<lparr>ds_seen = seen, ds_order = oldest # order\<rparr>)"

definition check_and_mark :: "string \<Rightarrow> deduplicator \<Rightarrow> bool \<times> deduplicator" where
  "check_and_mark key d =
     (if key \<in> ds_seen (dd_state d) then (False, d)
      else let st = evict (dd_max_size d) (ds_seen (dd_state d)) (ds_order (dd_state d))
           in (True, d\<lparr>dd_state := \<lparr>ds_seen = insert key (ds_seen st), ds_order = ds_order st @ [key]\<rparr>\<rparr>))"

definition mark_seen :: "string \<Rightarrow> deduplicator \<Rightarrow> deduplicator" where
  "mark_seen key d =
     (let st = evict (dd_max_size d) (ds_seen (dd_state d)) (ds_order (dd_state d))
      in if key \<notin> ds_seen st
         then d\<lparr>dd_state := \<lparr>ds_seen = insert key (ds_seen st), ds_order = ds_order st @ [key]\<rparr>\<rparr>
         else d\<lparr>dd_state := st\<rparr>)"

definition dedup_clear :: "deduplicator \<Rightarrow> deduplicator" where
  "dedup_clear d = d\<lparr>dd_state := \<lparr>ds_seen = {}, ds_order = []\<rparr>\<rparr>"

section \<open>The invariant\<close>

text \<open>The queue lists the set, and the set is within its bound.\<close>

definition dedup_ok :: "deduplicator \<Rightarrow> bool" where
  "dedup_ok d \<longleftrightarrow>
     ds_seen (dd_state d) = set (ds_order (dd_state d)) \<and> distinct (ds_order (dd_state d)) \<and>
     length (ds_order (dd_state d)) \<le> max 1 (dd_max_size d)"

lemma dedup_ok_new [simp]: "dedup_ok (deduplicator_new n)"
  by (simp add: dedup_ok_def deduplicator_new_def)

lemma evict_spec:
  "distinct order \<Longrightarrow> evict n (set order) order =
     \<lparr>ds_seen = set (drop (Suc (length order) - n) order), ds_order = drop (Suc (length order) - n) order\<rparr>"
proof (induction order)
  case Nil
  then show ?case by simp
next
  case (Cons x xs)
  then have diff: "set (x # xs) - {x} = set xs" and card: "card (set (x # xs)) = Suc (length xs)"
    using distinct_card [OF Cons.prems] by auto
  show ?case
  proof (cases "n \<le> Suc (length xs)")
    case True
    then have "Suc (length (x # xs)) - n = Suc (Suc (length xs) - n)" by simp
    with Cons True diff card show ?thesis by simp
  next
    case False
    with card show ?thesis by simp
  qed
qed

lemma evicted_bound: "length xs \<le> max 1 n \<Longrightarrow> Suc (length (drop (Suc (length xs) - n) xs)) \<le> max 1 n"
  by (cases n) auto

lemma check_and_mark_new:
  assumes "dedup_ok d" and "key \<notin> set (ds_order (dd_state d))"
  shows "check_and_mark key d = (True, d\<lparr>dd_state :=
     (let order = drop (Suc (length (ds_order (dd_state d))) - dd_max_size d) (ds_order (dd_state d)) @ [key]
      in \<lparr>ds_seen = set order, ds_order = order\<rparr>)\<rparr>)"
  using assms by (auto simp: check_and_mark_def dedup_ok_def evict_spec Let_def)

lemma check_and_mark_ok: "dedup_ok d \<Longrightarrow> dedup_ok (snd (check_and_mark key d))"
proof (cases "key \<in> set (ds_order (dd_state d))")
  case True
  assume "dedup_ok d"
  with True show ?thesis by (simp add: check_and_mark_def dedup_ok_def)
next
  case False
  assume ok: "dedup_ok d"
  let ?o = "ds_order (dd_state d)"
  have "key \<notin> set (drop (Suc (length ?o) - dd_max_size d) ?o)"
    using False by (auto dest: in_set_dropD)
  with ok evicted_bound [of ?o "dd_max_size d"] show ?thesis
    by (simp add: check_and_mark_new [OF ok False] dedup_ok_def Let_def)
qed

interpretation dedup: fifo_cache "\<lambda>d. ds_order (dd_state d)" dd_max_size
    "\<lambda>key (_ :: unit) d. snd (check_and_mark key d)" dedup_ok
proof
  fix d :: deduplicator and k :: string and v :: unit
  assume ok: "dedup_ok d"
  from ok show "dedup_ok (snd (check_and_mark k d))" by (rule check_and_mark_ok)
  from ok show "distinct (ds_order (dd_state d))" "length (ds_order (dd_state d)) \<le> max 1 (dd_max_size d)"
    by (simp_all add: dedup_ok_def)
  show "dd_max_size (snd (check_and_mark k d)) = dd_max_size d"
    by (simp add: check_and_mark_def Let_def)
next
  fix d :: deduplicator and k :: string and v :: unit
  assume ok: "dedup_ok d" and "k \<in> set (ds_order (dd_state d))"
  then show "ds_order (dd_state (snd (check_and_mark k d))) = ds_order (dd_state d)"
    by (simp add: check_and_mark_def dedup_ok_def)
next
  fix d :: deduplicator and k :: string and v :: unit
  assume ok: "dedup_ok d" and new: "k \<notin> set (ds_order (dd_state d))"
  show "ds_order (dd_state (snd (check_and_mark k d))) =
      drop (Suc (length (ds_order (dd_state d))) - dd_max_size d) (ds_order (dd_state d)) @ [k]"
    by (simp add: check_and_mark_new [OF ok new] Let_def)
qed

section \<open>Runs\<close>

fun mark_all :: "string list \<Rightarrow> deduplicator \<Rightarrow> bool list \<times> deduplicator" where
  "mark_all [] d = ([], d)"
| "mark_all (k # ks) d =
     (let (b, d1) = check_and_mark k d; (bs, d2) = mark_all ks d1 in (b # bs, d2))"

lemma mark_all_puts: "snd (mark_all ks d) = dedup.puts (map (\<lambda>k. (k, ())) ks) d"
  by (induction ks arbitrary: d) (simp_all add: case_prod_beta Let_def)

lemma mark_all_ok: "dedup_ok d \<Longrightarrow> dedup_ok (snd (mark_all ks d)) \<and> dd_max_size (snd (mark_all ks d)) = dd_max_size d"
  unfolding mark_all_puts by (rule dedup.puts_ok)

lemma check_and_mark_answer: "dedup_ok d \<Longrightarrow> fst (check_and_mark k d) \<longleftrightarrow> k \<notin> set (ds_order (dd_state d))"
  by (simp add: check_and_mark_def dedup_ok_def Let_def)

text \<open>C35: Deduplication. Starting empty and after any sequence of keys, a key is reported as a
  duplicate only if it occurred before; a key that was new when marked is reported as a duplicate
  if it comes again before as many keys as the capacity have been checked; and the memory never holds
  more keys than the capacity (one, if the capacity is zero).\<close>

theorem dedup_window:
  assumes "d = snd (mark_all ks (deduplicator_new n))"
  shows "(\<not> fst (check_and_mark k d) \<longrightarrow> k \<in> set ks) \<and>
         (fst (check_and_mark k d) \<and> length js < n \<longrightarrow>
            \<not> fst (check_and_mark k (snd (mark_all js (snd (check_and_mark k d)))))) \<and>
         card (ds_seen (dd_state d)) \<le> max 1 n"
proof (intro conjI impI)
  have ok: "dedup_ok d" and cap: "dd_max_size d = n"
    using mark_all_ok [OF dedup_ok_new, of ks n] unfolding assms by (simp_all add: deduplicator_new_def)
  show "k \<in> set ks" if "\<not> fst (check_and_mark k d)"
  proof -
    from that ok have "k \<in> set (ds_order (dd_state d))" by (simp add: check_and_mark_answer)
    moreover have "set (ds_order (dd_state d)) \<subseteq> set ks"
    proof -
      have "ds_order (dd_state (deduplicator_new n)) = []" by (simp add: deduplicator_new_def)
      with dedup.puts_subset [OF dedup_ok_new, of "map (\<lambda>k. (k, ())) ks" n] show ?thesis
        unfolding assms mark_all_puts by (simp add: image_image)
    qed
    ultimately show ?thesis by blast
  qed
  show "\<not> fst (check_and_mark k (snd (mark_all js (snd (check_and_mark k d)))))"
    if "fst (check_and_mark k d) \<and> length js < n"
  proof -
    from that ok have "k \<notin> set (ds_order (dd_state d))" by (simp add: check_and_mark_answer)
    from dedup.put_then_puts [OF ok this, of "map (\<lambda>k. (k, ())) js"] that cap
    have "k \<in> set (ds_order (dd_state (snd (mark_all js (snd (check_and_mark k d))))))"
      by (simp add: mark_all_puts)
    moreover have "dedup_ok (snd (mark_all js (snd (check_and_mark k d))))"
      using mark_all_ok check_and_mark_ok [OF ok] by blast
    ultimately show ?thesis by (simp add: check_and_mark_answer)
  qed
  show "card (ds_seen (dd_state d)) \<le> max 1 n"
    using ok cap card_length [of "ds_order (dd_state d)"] by (simp add: dedup_ok_def)
qed

theorem dedup_window_witness:
  "\<not> fst (check_and_mark ''b'' (snd (mark_all [''c''] (snd (check_and_mark ''b''
       (snd (mark_all [''a''] (deduplicator_new 2))))))))"
proof -
  have "fst (check_and_mark ''b'' (snd (mark_all [''a''] (deduplicator_new 2))))" by code_simp
  with dedup_window [OF refl, of "''b''" "[''a'']" 2 "[''c'']"] show ?thesis by simp
qed

text \<open>\<open>mark_seen\<close> is not \<open>check_and_mark\<close> without the answer. When the memory is full, marking a
  key that is already in it forgets the oldest other key, where \<open>check_and_mark\<close> changes nothing.\<close>

theorem mark_seen_forgets:
  assumes "dedup_ok d" and "ds_order (dd_state d) = oldest # order" and "k \<in> set order"
    and "length (oldest # order) = dd_max_size d"
  shows "ds_order (dd_state (mark_seen k d)) = order \<and> is_duplicate oldest d \<and>
         \<not> is_duplicate oldest (mark_seen k d) \<and> snd (check_and_mark k d) = d"
proof -
  from assms(1,2) have seen: "ds_seen (dd_state d) = set (oldest # order)" and dist: "distinct (oldest # order)"
    by (simp_all add: dedup_ok_def)
  have "evict (dd_max_size d) (ds_seen (dd_state d)) (ds_order (dd_state d)) = \<lparr>ds_seen = set order, ds_order = order\<rparr>"
    unfolding seen assms(2) using evict_spec [OF dist, of "dd_max_size d"] assms(4) by simp
  with assms(3) have "mark_seen k d = d\<lparr>dd_state := \<lparr>ds_seen = set order, ds_order = order\<rparr>\<rparr>"
    by (simp add: mark_seen_def Let_def)
  with seen dist assms(3) show ?thesis by (simp add: is_duplicate_def check_and_mark_def)
qed

theorem mark_seen_forgets_witness:
  "\<not> is_duplicate ''a'' (mark_seen ''b'' (snd (mark_all [''a'', ''b''] (deduplicator_new 2))))"
proof -
  let ?d = "snd (mark_all [''a'', ''b''] (deduplicator_new 2))"
  have "dedup_ok ?d" using mark_all_ok [OF dedup_ok_new] by blast
  moreover have "ds_order (dd_state ?d) = [''a'', ''b'']" by code_simp
  moreover have "length [''a'', ''b''] = dd_max_size ?d" by code_simp
  ultimately show ?thesis using mark_seen_forgets [of ?d "''a''" "[''b'']" "''b''"] by simp
qed

end
