(* ===== verification/Inbox.thy ===== *)
theory Inbox
  imports Core_Error
begin

text \<open>
  The consuming feature's durable side: the inbox message (\<open>features/consuming/domain.rs\<close>), its
  storage port (\<open>ports.rs\<close>) and the inbox manager (\<open>manager.rs\<close>). The locale \<open>inbox_port\<close> is what
  the manager relies on; theory Db_Inbox interprets it with the Postgres repository.
\<close>

section \<open>The message\<close>

datatype inbox_status = Received | Processing | Processed | Inbox_Failed

fun inbox_status_to_string :: "inbox_status \<Rightarrow> string" where
  "inbox_status_to_string Received = ''received''"
| "inbox_status_to_string Processing = ''processing''"
| "inbox_status_to_string Processed = ''processed''"
| "inbox_status_to_string Inbox_Failed = ''failed''"

record inbox_message =
  im_id :: uuid
  im_topic :: string
  im_partition :: i32
  im_offset :: i64
  im_key :: "string option"
  im_event_type :: "string option"
  im_payload :: json
  im_headers :: "json option"
  im_timestamp :: timestamp
  im_status :: inbox_status
  im_attempt_count :: i32
  im_error_message :: "string option"
  im_received_at :: timestamp
  im_processed_at :: "timestamp option"

definition inbox_message_new :: "string \<Rightarrow> i32 \<Rightarrow> i64 \<Rightarrow> json \<Rightarrow> runtime \<Rightarrow> inbox_message \<times> runtime" where
  "inbox_message_new topic part off payload rt =
     (let (now, rt1) = utc_now rt;
          (i, rt2) = now_v7 rt1
      in (\<lparr>im_id = i, im_topic = topic, im_partition = part, im_offset = off, im_key = None,
           im_event_type = None, im_payload = payload, im_headers = None, im_timestamp = now,
           im_status = Received, im_attempt_count = 0, im_error_message = None, im_received_at = now,
           im_processed_at = None\<rparr>, rt2))"

section \<open>The port\<close>

record 's inbox_repository =
  ir_create :: "inbox_message \<Rightarrow> 's \<Rightarrow> (inbox_error + unit) \<times> 's"
  ir_create_batch :: "inbox_message list \<Rightarrow> 's \<Rightarrow> (inbox_error + unit) \<times> 's"
  ir_get_by_id :: "uuid \<Rightarrow> 's \<Rightarrow> (inbox_error + inbox_message) \<times> 's"
  ir_get_by_topic_offset :: "string \<Rightarrow> i64 \<Rightarrow> 's \<Rightarrow> (inbox_error + inbox_message option) \<times> 's"
  ir_update_status :: "uuid \<Rightarrow> inbox_status \<Rightarrow> string option \<Rightarrow> 's \<Rightarrow> (inbox_error + unit) \<times> 's"
  ir_mark_processed :: "uuid \<Rightarrow> 's \<Rightarrow> (inbox_error + unit) \<times> 's"
  ir_delete :: "uuid \<Rightarrow> 's \<Rightarrow> (inbox_error + unit) \<times> 's"

text \<open>The abstract inbox: the stored messages by identifier, without the time of processing.\<close>

type_synonym inbox = "uuid \<rightharpoonup> inbox_message"

definition inbox_entry :: "inbox_message \<Rightarrow> inbox_message" where
  "inbox_entry m = m\<lparr>im_processed_at := None\<rparr>"

definition add_inbox :: "inbox_message list \<Rightarrow> inbox \<Rightarrow> inbox" where
  "add_inbox ms b = b ++ map_of (map (\<lambda>m. (im_id m, inbox_entry m)) ms)"

definition on_inbox :: "uuid \<Rightarrow> (inbox_message \<Rightarrow> inbox_message) \<Rightarrow> inbox \<Rightarrow> inbox" where
  "on_inbox i f b = b(i := map_option f (b i))"

locale inbox_port =
  fixes repo :: "'s inbox_repository"
    and box :: "'s \<Rightarrow> inbox"
    and ok :: "'s \<Rightarrow> bool"
  assumes create_law:
      "ok s \<Longrightarrow> ir_create repo m s = (r1, s') \<Longrightarrow>
         ok s' \<and> effect r1 (box s) (add_inbox [m] (box s)) (box s') \<and>
         (is_ok r1 \<or> box s' \<noteq> box s \<longrightarrow> im_id m \<notin> dom (box s))"
    and create_batch_law:
      "ok s \<Longrightarrow> ir_create_batch repo ms s = (r2, s') \<Longrightarrow>
         ok s' \<and> effect r2 (box s) (add_inbox ms (box s)) (box s') \<and>
         (is_ok r2 \<or> box s' \<noteq> box s \<longrightarrow> distinct (map im_id ms) \<and> im_id ` set ms \<inter> dom (box s) = {})"
    and get_by_id_law:
      "ok s \<Longrightarrow> ir_get_by_id repo i s = (r3, s') \<Longrightarrow>
         ok s' \<and> box s' = box s \<and> (\<forall>m. r3 = Ok m \<longrightarrow> im_id m = i \<and> box s i = Some (inbox_entry m))"
    and get_by_topic_offset_law:
      "ok s \<Longrightarrow> ir_get_by_topic_offset repo t off s = (r4, s') \<Longrightarrow>
         ok s' \<and> box s' = box s \<and>
         (\<forall>v. r4 = Ok v \<longrightarrow>
            (case v of
               None \<Rightarrow> \<forall>i e. box s i = Some e \<longrightarrow> \<not> (im_topic e = t \<and> im_offset e = off)
             | Some m \<Rightarrow> box s (im_id m) = Some (inbox_entry m) \<and> im_topic m = t \<and> im_offset m = off))"
    and update_status_law:
      "ok s \<Longrightarrow> ir_update_status repo i st err s = (r5, s') \<Longrightarrow>
         ok s' \<and> effect r5 (box s) (on_inbox i (\<lambda>e. e\<lparr>im_status := st, im_error_message := err\<rparr>) (box s)) (box s')"
    and mark_processed_law:
      "ok s \<Longrightarrow> ir_mark_processed repo i s = (r6, s') \<Longrightarrow>
         ok s' \<and> effect r6 (box s) (on_inbox i (im_status_update (\<lambda>_. Processed)) (box s)) (box s')"
    and delete_law:
      "ok s \<Longrightarrow> ir_delete repo i s = (r7, s') \<Longrightarrow>
         ok s' \<and> effect r7 (box s) ((box s)(i := None)) (box s')"

section \<open>InboxManager\<close>

definition store_message ::
  "'s inbox_repository \<Rightarrow> string \<Rightarrow> i32 \<Rightarrow> i64 \<Rightarrow> json \<Rightarrow> runtime \<Rightarrow> 's
     \<Rightarrow> (core_error + uuid) \<times> runtime \<times> 's" where
  "store_message repo topic part off payload rt s =
     (let (m, rt1) = inbox_message_new topic part off payload rt;
          (r, s1) = ir_create repo m s
      in (map_ok (\<lambda>_. im_id m) (map_err CE_Inbox r), rt1, s1))"

definition store_messages ::
  "'s inbox_repository \<Rightarrow> inbox_message list \<Rightarrow> 's \<Rightarrow> (core_error + uuid list) \<times> 's" where
  "store_messages repo ms s =
     (if ms = [] then (Ok [], s)
      else let ids = map im_id ms;
               (r, s1) = ir_create_batch repo ms s
           in (map_ok (\<lambda>_. ids) (map_err CE_Inbox r), s1))"

definition inbox_get_message :: "'s inbox_repository \<Rightarrow> uuid \<Rightarrow> 's \<Rightarrow> (core_error + inbox_message) \<times> 's" where
  "inbox_get_message repo i s = apfst (map_err CE_Inbox) (ir_get_by_id repo i s)"

definition inbox_mark_processed :: "'s inbox_repository \<Rightarrow> uuid \<Rightarrow> 's \<Rightarrow> (core_error + unit) \<times> 's" where
  "inbox_mark_processed repo i s = apfst (map_err CE_Inbox) (ir_mark_processed repo i s)"

definition check_duplicate ::
  "'s inbox_repository \<Rightarrow> string \<Rightarrow> i64 \<Rightarrow> 's \<Rightarrow> (core_error + inbox_message option) \<times> 's" where
  "check_duplicate repo topic off s = apfst (map_err CE_Inbox) (ir_get_by_topic_offset repo topic off s)"

section \<open>What the manager promises\<close>

lemma add_inbox_apply:
  "distinct (map im_id ms) \<Longrightarrow> m \<in> set ms \<Longrightarrow> add_inbox ms b (im_id m) = Some (inbox_entry m)"
proof -
  assume "distinct (map im_id ms)" "m \<in> set ms"
  then have "map_of (map (\<lambda>m. (im_id m, inbox_entry m)) ms) (im_id m) = Some (inbox_entry m)"
    by (intro map_of_is_SomeI) (auto simp: comp_def)
  then show ?thesis by (simp add: add_inbox_def map_add_def)
qed

lemma add_inbox_other: "i \<notin> im_id ` set ms \<Longrightarrow> add_inbox ms b i = b i"
proof -
  assume "i \<notin> im_id ` set ms"
  then have "map_of (map (\<lambda>m. (im_id m, inbox_entry m)) ms) i = None"
    by (auto simp: map_of_eq_None_iff)
  then show ?thesis by (simp add: add_inbox_def map_add_def)
qed

lemma add_inbox_Nil [simp]: "add_inbox [] b = b"
  by (simp add: add_inbox_def)

context inbox_port begin

text \<open>A batch is stored whole or not at all; success means it is stored.\<close>

lemma store_messages_law:
  assumes ok: "ok s" and run: "store_messages repo ms s = (r, s')"
  shows "ok s' \<and> (box s' = box s \<or> box s' = add_inbox ms (box s)) \<and>
         (\<forall>ids. r = Ok ids \<longrightarrow> ids = map im_id ms \<and> distinct ids \<and> set ids \<inter> dom (box s) = {} \<and>
            box s' = add_inbox ms (box s))"
proof (cases "ms = []")
  case True
  with ok run show ?thesis by (auto simp: store_messages_def)
next
  case False
  obtain c s1 where c: "ir_create_batch repo ms s = (c, s1)" by fastforce
  from create_batch_law [OF ok c] False run c show ?thesis
    by (cases c) (auto simp: store_messages_def Let_def)
qed

text \<open>A stored message is a duplicate for its topic and offset until it is deleted; marking it
  processed does not change that.\<close>

lemma stored_is_duplicate:
  assumes ok: "ok s" and e: "box s i = Some e" "im_topic e = t" "im_offset e = off"
    and run: "check_duplicate repo t off s = (Ok v, s')"
  shows "v \<noteq> None"
proof -
  from run obtain r where "ir_get_by_topic_offset repo t off s = (r, s')" "r = Ok v"
    by (cases "ir_get_by_topic_offset repo t off s") (auto simp: check_duplicate_def)
  with get_by_topic_offset_law [OF ok this(1)] e show ?thesis by (auto split: option.splits)
qed

lemma mark_processed_keeps:
  assumes ok: "ok s" and run: "inbox_mark_processed repo i s = (r, s')" and e: "box s j = Some e"
  shows "ok s' \<and> (\<exists>e'. box s' j = Some e' \<and> im_topic e' = im_topic e \<and> im_offset e' = im_offset e \<and>
           (r = Ok () \<and> i = j \<longrightarrow> im_status e' = Processed))"
proof -
  from run obtain c where c: "ir_mark_processed repo i s = (c, s')" "r = map_err CE_Inbox c"
    by (cases "ir_mark_processed repo i s") (auto simp: inbox_mark_processed_def)
  from mark_processed_law [OF ok c(1)] have "ok s'"
    and eff: "effect c (box s) (on_inbox i (im_status_update (\<lambda>_. Processed)) (box s)) (box s')" by auto
  moreover from eff e c(2) have "\<exists>e'. box s' j = Some e' \<and> im_topic e' = im_topic e \<and> im_offset e' = im_offset e \<and>
           (r = Ok () \<and> i = j \<longrightarrow> im_status e' = Processed)"
    by (cases rule: effect_cases) (auto simp: on_inbox_def)
  ultimately show ?thesis by blast
qed

end

end
