(* ===== verification/Db_Table.thy ===== *)
theory Db_Table
  imports Sql
begin

text \<open>
  What the repositories share: a method executes one statement on one table and turns the driver's
  error into its own; a table with a key column is read as a map from keys to views of the rows. The
  locale \<open>db_table\<close> derives, for any table, what an \<open>INSERT\<close>, an \<open>UPDATE\<close> that keeps the key, a
  \<open>DELETE\<close> and a query do to that map, whatever happened around the statement.
\<close>

definition table_map :: "('r \<Rightarrow> 'k) \<Rightarrow> ('r \<Rightarrow> 'v) \<Rightarrow> 'r list \<Rightarrow> 'k \<rightharpoonup> 'v" where
  "table_map key view rs = (\<lambda>i. map_option view (row_at key rs i))"

definition table_ok :: "('r \<Rightarrow> bool) \<Rightarrow> ('r list \<Rightarrow> bool) \<Rightarrow> 'r list \<Rightarrow> bool" where
  "table_ok check unique rs \<longleftrightarrow> list_all check rs \<and> unique rs"

text \<open>An empty database, for the witnesses.\<close>

definition empty_db :: db where
  "empty_db =
     \<lparr>db_outbox = [], db_inbox = [], db_dlq = [], db_subscribers = [], db_now = 100000000,
      db_script = [], db_error_text = (\<lambda>_. ''db'')\<rparr>"

lemma table_map_Some: "table_map key view rs i = Some v \<Longrightarrow> \<exists>r \<in> set rs. key r = i \<and> view r = v"
  by (auto simp: table_map_def dest: row_at_key)

lemma table_map_filter:
  "table_map key view (filter (\<lambda>r. \<not> key r = i) rs) = (table_map key view rs)(i := None)"
  by (rule ext) (simp add: table_map_def row_at_filter_key)

lemma table_map_update:
  assumes "\<And>r. key (f r) = key r" and "\<And>r. view (f r) = F (view r)"
  shows "table_map key view (map (\<lambda>r. if key r = i then f r else r) rs) =
         (table_map key view rs)(i := map_option F (table_map key view rs i))"
proof (rule ext)
  fix j
  show "table_map key view (map (\<lambda>r. if key r = i then f r else r) rs) j =
      ((table_map key view rs)(i := map_option F (table_map key view rs i))) j"
    using assms row_at_key [of key rs j]
    by (cases "row_at key rs j") (auto simp: table_map_def row_at_update)
qed

lemma table_map_append:
  "table_map key view (rs @ new) = map_of (map (\<lambda>r. (key r, view r)) new) ++ table_map key view rs"
proof (rule ext)
  fix i
  have "row_at key new i = None \<and> map_of (map (\<lambda>r. (key r, view r)) new) i = None \<or>
      map_option view (row_at key new i) = map_of (map (\<lambda>r. (key r, view r)) new) i"
    by (induction new) auto
  then show "table_map key view (rs @ new) i = (map_of (map (\<lambda>r. (key r, view r)) new) ++ table_map key view rs) i"
    by (cases "row_at key rs i") (auto simp: table_map_def row_at_append map_add_def)
qed

locale db_table =
  fixes rows :: "db \<Rightarrow> 'r list"
    and key :: "'r \<Rightarrow> 'k"
    and view :: "'r \<Rightarrow> 'v"
    and check :: "'r \<Rightarrow> bool"
    and unique :: "'r list \<Rightarrow> bool"
  assumes rows_env: "next_env d = (env, d1) \<Longrightarrow> rows d1 = rows d"
    and unique_key: "unique rs \<Longrightarrow> distinct (map key rs)"
    and unique_filter: "unique rs \<Longrightarrow> unique (filter P rs)"

context db_table begin

abbreviation table :: "db \<Rightarrow> 'k \<rightharpoonup> 'v" where
  "table d \<equiv> table_map key view (rows d)"

abbreviation sound :: "db \<Rightarrow> bool" where
  "sound d \<equiv> table_ok check unique (rows d)"

text \<open>From what a statement does when it takes effect to what the method does. \<open>Q\<close> is whatever the
  statement guarantees of its answer.\<close>

lemma method_law:
  assumes run: "apfst (map_err f) (run_statement stmt d) = (r, d')" and sound: "sound d"
    and stmt: "\<And>env d1 a d2. rows d1 = rows d \<Longrightarrow> stmt env d1 = Ok (a, d2) \<Longrightarrow>
        sound d2 \<and> table d2 = upd \<and> Q a"
  shows "sound d' \<and> effect r (table d) upd (table d') \<and>
         (is_ok r \<or> table d' \<noteq> table d \<longrightarrow> (\<exists>a. Q a)) \<and> (\<forall>a. r = Ok a \<longrightarrow> Q a)"
proof -
  from run obtain r0 where r0: "run_statement stmt d = (r0, d')" and r: "r = map_err f r0"
    by (cases "run_statement stmt d") auto
  show ?thesis
  proof (rule run_statement_cases [OF r0])
    fix env e assume "next_env d = (env, d')" "r0 = Err e"
    with rows_env sound r show ?thesis by fastforce
  next
    fix env d1 a assume n: "next_env d = (env, d1)" and s: "stmt env d1 = Ok (a, d')"
      and "r0 = Ok a \<or> (\<exists>e. r0 = Err e)"
    with stmt [OF rows_env [OF n] s] r show ?thesis by auto
  qed
qed

text \<open>A query changes nothing and answers from the table.\<close>

lemma query_law:
  assumes run: "apfst (map_err f) (run_statement stmt d) = (r, d')" and sound: "sound d"
    and stmt: "\<And>env d1 a d2. rows d1 = rows d \<Longrightarrow> stmt env d1 = Ok (a, d2) \<Longrightarrow> d2 = d1 \<and> Q a"
  shows "sound d' \<and> table d' = table d \<and> (\<forall>a. r = Ok a \<longrightarrow> Q a)"
proof -
  have "sound d' \<and> effect r (table d) (table d) (table d') \<and>
      (is_ok r \<or> table d' \<noteq> table d \<longrightarrow> (\<exists>a. Q a)) \<and> (\<forall>a. r = Ok a \<longrightarrow> Q a)"
  proof (rule method_law [OF run sound])
    fix env d1 a d2 assume "rows d1 = rows d" "stmt env d1 = Ok (a, d2)"
    from stmt [OF this] this(1) sound show "sound d2 \<and> table d2 = table d \<and> Q a" by simp
  qed
  then show ?thesis by (auto dest: effect_or)
qed

lemma insert_table:
  assumes "sound d" and "insert_rows check unique new (rows d) = Ok rs"
  shows "table_ok check unique rs \<and> distinct (map key new) \<and>
         key ` set new \<inter> dom (table d) = {} \<and>
         table_map key view rs = table d ++ map_of (map (\<lambda>r. (key r, view r)) new)"
proof -
  from assms(2) have rs: "rs = rows d @ new" and chk: "list_all check new" and u: "unique rs"
    by (auto simp: insert_rows_Ok)
  from unique_key [OF u] have dist: "distinct (map key new)" and "key ` set (rows d) \<inter> key ` set new = {}"
    by (auto simp: rs)
  then have disj: "key ` set new \<inter> dom (table d) = {}"
    by (auto dest!: table_map_Some)
  have new: "dom (map_of (map (\<lambda>r. (key r, view r)) new)) = key ` set new"
    by (simp add: dom_map_of_conv_image_fst image_image)
  have "table_map key view rs = table d ++ map_of (map (\<lambda>r. (key r, view r)) new)"
    unfolding rs table_map_append by (rule map_add_comm) (use disj new in blast)
  with rs chk u dist disj assms(1) show ?thesis by (simp add: table_ok_def)
qed

lemma insert_one:
  assumes "sound d" and "insert_rows check unique [r] (rows d) = Ok rs"
  shows "table_ok check unique rs \<and> key r \<notin> dom (table d) \<and> table_map key view rs = (table d)(key r \<mapsto> view r)"
  using insert_table [OF assms] by simp

lemma update_table:
  assumes "sound d" and "update_rows check (\<lambda>r. key r = i) f (rows d) = Ok rs"
    and "\<And>r. key (f r) = key r" and "\<And>r. view (f r) = F (view r)"
    and "\<And>rs P. unique (map (\<lambda>r. if P r then f r else r) rs) = unique rs"
  shows "table_ok check unique rs \<and> table_map key view rs = (table d)(i := map_option F (table d i))"
proof -
  from assms(2) have rs: "rs = map (\<lambda>r. if key r = i then f r else r) (rows d)"
    and "list_all (\<lambda>r. key r = i \<longrightarrow> check (f r)) (rows d)" by (auto simp: update_rows_Ok)
  with assms(1,5) have "table_ok check unique rs" by (auto simp: table_ok_def list_all_iff)
  moreover have "table_map key view rs = (table d)(i := map_option F (table d i))"
    unfolding rs by (rule table_map_update) (simp_all add: assms(3,4))
  ultimately show ?thesis by blast
qed

lemma delete_table:
  assumes "sound d"
  shows "table_ok check unique (delete_rows (\<lambda>r. key r = i) (rows d)) \<and>
         table_map key view (delete_rows (\<lambda>r. key r = i) (rows d)) = (table d)(i := None)"
  using assms unique_filter by (auto simp: table_ok_def delete_rows_def table_map_filter list_all_iff)

lemma row_in_table: "sound d \<Longrightarrow> r \<in> set (rows d) \<Longrightarrow> table d (key r) = Some (view r)"
  using unique_key by (simp add: table_map_def table_ok_def row_at_distinct)

lemma sorted_rows: "sound d \<Longrightarrow> distinct (map key (sort_key g (filter P (rows d))))"
  using unique_key [OF unique_filter [of "rows d" P]] by (simp add: table_ok_def distinct_map_sort_key)

end

end
