(* ===== verification/Db_Inbox.thy ===== *)
theory Db_Inbox
  imports Inbox Db_Table
begin

text \<open>
  \<open>crates/rs-broker-db/src/inbox/repository.rs\<close>, the Postgres implementation of the inbox port, one
  definition per method, and its interpretation of \<open>inbox_port\<close>. \<open>update_status\<close> assigns a column
  \<open>updated_at\<close> that \<open>inbox_messages\<close> does not have, so the statement is refused.
\<close>

section \<open>Rows and messages\<close>

definition inbox_status_of_string :: "string \<Rightarrow> inbox_status" where
  "inbox_status_of_string s =
     (if s = ''received'' then Received
      else if s = ''processing'' then Processing
      else if s = ''processed'' then Processed
      else if s = ''failed'' then Inbox_Failed
      else Received)"

definition inbox_message_of_row :: "inbox_row \<Rightarrow> inbox_message" where
  "inbox_message_of_row r =
     \<lparr>im_id = iw_id r, im_topic = iw_topic r, im_partition = iw_partition r, im_offset = iw_offset r,
      im_key = iw_key r, im_event_type = iw_event_type r, im_payload = iw_payload r, im_headers = iw_headers r,
      im_timestamp = iw_timestamp r, im_status = inbox_status_of_string (iw_status r),
      im_attempt_count = iw_attempt_count r, im_error_message = iw_error_message r,
      im_received_at = iw_received_at r, im_processed_at = iw_processed_at r\<rparr>"

text \<open>The columns bound by \<open>INSERT\<close>; \<open>message_id\<close> gets the identifier as well.\<close>

definition inbox_row_of_message :: "inbox_message \<Rightarrow> inbox_row" where
  "inbox_row_of_message m =
     \<lparr>iw_id = im_id m, iw_message_id = im_id m, iw_topic = im_topic m, iw_partition = im_partition m,
      iw_offset = im_offset m, iw_key = im_key m, iw_event_type = im_event_type m, iw_payload = im_payload m,
      iw_headers = im_headers m, iw_timestamp = im_timestamp m, iw_status = inbox_status_to_string (im_status m),
      iw_attempt_count = im_attempt_count m, iw_error_message = im_error_message m,
      iw_received_at = im_received_at m, iw_processed_at = im_processed_at m\<rparr>"

interpretation inbox_status: status_codec inbox_status_to_string inbox_status_of_string
    "[''received'', ''processing'', ''processed'', ''failed'']"
proof
  fix a show "inbox_status_of_string (inbox_status_to_string a) = a"
    by (cases a) (simp_all add: inbox_status_of_string_def)
next
  fix a show "inbox_status_to_string a \<in> set [''received'', ''processing'', ''processed'', ''failed'']"
    by (cases a) simp_all
next
  fix s assume "s \<in> set [''received'', ''processing'', ''processed'', ''failed'']"
  then show "inbox_status_to_string (inbox_status_of_string s) = s"
    by (auto simp: inbox_status_of_string_def)
qed

lemma inbox_row_roundtrip [simp]: "inbox_message_of_row (inbox_row_of_message m) = m"
  by (simp add: inbox_message_of_row_def inbox_row_of_message_def inbox_status.of_to)

lemma im_id_of_row [simp]: "im_id (inbox_message_of_row r) = iw_id r"
  by (simp add: inbox_message_of_row_def)

lemma iw_id_of_message [simp]: "iw_id (inbox_row_of_message m) = im_id m"
  by (simp add: inbox_row_of_message_def)

section \<open>The statements\<close>

definition inbox_storage :: "db \<Rightarrow> sqlx_error \<Rightarrow> inbox_error" where
  "inbox_storage d e = IE_Database (db_error_text d e)"

definition inbox_stmt :: "'a statement \<Rightarrow> db \<Rightarrow> (inbox_error + 'a) \<times> db" where
  "inbox_stmt stmt d = apfst (map_err (inbox_storage d)) (run_statement stmt d)"

definition inbox_insert :: "inbox_message list \<Rightarrow> unit statement" where
  "inbox_insert ms env d =
     map_ok (\<lambda>rs. ((), d\<lparr>db_inbox := rs\<rparr>))
       (insert_rows inbox_row_check inbox_unique (map inbox_row_of_message ms) (db_inbox d))"

definition pg_inbox_create :: "inbox_message \<Rightarrow> db \<Rightarrow> (inbox_error + unit) \<times> db" where
  "pg_inbox_create m d = inbox_stmt (inbox_insert [m]) d"

definition pg_inbox_create_batch :: "inbox_message list \<Rightarrow> db \<Rightarrow> (inbox_error + unit) \<times> db" where
  "pg_inbox_create_batch ms d = (if ms = [] then (Ok (), d) else inbox_stmt (inbox_insert ms) d)"

definition pg_inbox_get_by_id :: "uuid \<Rightarrow> db \<Rightarrow> (inbox_error + inbox_message) \<times> db" where
  "pg_inbox_get_by_id i d =
     inbox_stmt (\<lambda>env d. case row_at iw_id (db_inbox d) i of
                           None \<Rightarrow> Err RowNotFound
                         | Some r \<Rightarrow> Ok (inbox_message_of_row r, d)) d"

text \<open>\<open>fetch_optional\<close> takes the first row the database returns.\<close>

definition pg_inbox_get_by_topic_offset ::
  "string \<Rightarrow> i64 \<Rightarrow> db \<Rightarrow> (inbox_error + inbox_message option) \<times> db" where
  "pg_inbox_get_by_topic_offset topic off d =
     inbox_stmt (\<lambda>env d. Ok (map_option inbox_message_of_row
                              (find (\<lambda>r. iw_topic r = topic \<and> iw_offset r = off) (db_inbox d)), d)) d"

text \<open>The columns of \<open>inbox_messages\<close> in \<open>migrations/0001_init.sql\<close>. A statement that assigns any
  other column is refused when it is prepared.\<close>

definition inbox_columns :: "string list" where
  "inbox_columns =
     [''id'', ''message_id'', ''topic'', ''partition'', ''offset'', ''key'', ''event_type'', ''payload'',
      ''headers'', ''timestamp'', ''status'', ''attempt_count'', ''error_message'', ''received_at'', ''processed_at'']"

definition pg_inbox_update_status ::
  "uuid \<Rightarrow> inbox_status \<Rightarrow> string option \<Rightarrow> db \<Rightarrow> (inbox_error + unit) \<times> db" where
  "pg_inbox_update_status i status error_message d =
     inbox_stmt (\<lambda>env d.
       if list_all (\<lambda>c. c \<in> set inbox_columns) [''status'', ''error_message'', ''updated_at'']
       then map_ok (\<lambda>rs. ((), d\<lparr>db_inbox := rs\<rparr>))
              (update_rows inbox_row_check (\<lambda>r. iw_id r = i)
                 (\<lambda>r. r\<lparr>iw_status := inbox_status_to_string status, iw_error_message := error_message\<rparr>) (db_inbox d))
       else Err (Violation ''column does not exist'')) d"

definition pg_inbox_mark_processed :: "uuid \<Rightarrow> db \<Rightarrow> (inbox_error + unit) \<times> db" where
  "pg_inbox_mark_processed i d =
     inbox_stmt (\<lambda>env d.
       map_ok (\<lambda>rs. ((), d\<lparr>db_inbox := rs\<rparr>))
         (update_rows inbox_row_check (\<lambda>r. iw_id r = i)
            (\<lambda>r. r\<lparr>iw_status := ''processed'', iw_processed_at := Some (db_now d)\<rparr>) (db_inbox d))) d"

definition pg_inbox_delete :: "uuid \<Rightarrow> db \<Rightarrow> (inbox_error + unit) \<times> db" where
  "pg_inbox_delete i d =
     inbox_stmt (\<lambda>env d. Ok ((), d\<lparr>db_inbox := delete_rows (\<lambda>r. iw_id r = i) (db_inbox d)\<rparr>)) d"

definition pg_inbox_repository :: "db inbox_repository" where
  "pg_inbox_repository =
     \<lparr>ir_create = pg_inbox_create,
      ir_create_batch = pg_inbox_create_batch,
      ir_get_by_id = pg_inbox_get_by_id,
      ir_get_by_topic_offset = pg_inbox_get_by_topic_offset,
      ir_update_status = pg_inbox_update_status,
      ir_mark_processed = pg_inbox_mark_processed,
      ir_delete = pg_inbox_delete\<rparr>"

section \<open>The repository keeps the contract\<close>

definition inbox_view :: "inbox_row \<Rightarrow> inbox_message" where
  "inbox_view r = inbox_entry (inbox_message_of_row r)"

definition pg_inbox :: "db \<Rightarrow> inbox" where
  "pg_inbox d = table_map iw_id inbox_view (db_inbox d)"

definition pg_inbox_ok :: "db \<Rightarrow> bool" where
  "pg_inbox_ok d = table_ok inbox_row_check inbox_unique (db_inbox d)"

interpretation inbox: db_table db_inbox iw_id inbox_view inbox_row_check inbox_unique
proof
  fix d env d1 assume "next_env d = (env, d1)"
  then show "db_inbox d1 = db_inbox d" by (auto dest: next_env_tables)
qed (auto simp: inbox_unique_def distinct_map_filter)

lemma inbox_view_of_message [simp]: "inbox_view (inbox_row_of_message m) = inbox_entry m"
  by (simp add: inbox_view_def)

lemma inbox_insert_effect:
  assumes "db_inbox d1 = db_inbox d" and "inbox_insert ms env d1 = Ok (a, d2)" and "pg_inbox_ok d"
  shows "pg_inbox_ok d2 \<and> pg_inbox d2 = add_inbox ms (pg_inbox d) \<and>
         distinct (map im_id ms) \<and> im_id ` set ms \<inter> dom (pg_inbox d) = {}"
proof -
  from assms(2) obtain rs where rs: "d2 = d1\<lparr>db_inbox := rs\<rparr>"
    and ins: "insert_rows inbox_row_check inbox_unique (map inbox_row_of_message ms) (db_inbox d) = Ok rs"
    by (auto simp: inbox_insert_def assms(1))
  from inbox.insert_table [OF assms(3) [unfolded pg_inbox_ok_def] ins] show ?thesis
    by (simp add: rs pg_inbox_ok_def pg_inbox_def add_inbox_def comp_def image_image)
qed

lemma pg_inbox_create_batch_law:
  assumes "pg_inbox_ok s" and run: "pg_inbox_create_batch ms s = (r2, s')"
  shows "pg_inbox_ok s' \<and> effect r2 (pg_inbox s) (add_inbox ms (pg_inbox s)) (pg_inbox s') \<and>
         (is_ok r2 \<or> pg_inbox s' \<noteq> pg_inbox s \<longrightarrow> distinct (map im_id ms) \<and> im_id ` set ms \<inter> dom (pg_inbox s) = {})"
proof (cases "ms = []")
  case True
  with assms show ?thesis by (auto simp: pg_inbox_create_batch_def)
next
  case False
  with run have "apfst (map_err (inbox_storage s)) (run_statement (inbox_insert ms) s) = (r2, s')"
    by (simp add: pg_inbox_create_batch_def inbox_stmt_def)
  from inbox.method_law [OF this assms(1) [unfolded pg_inbox_ok_def],
      of "add_inbox ms (pg_inbox s)" "\<lambda>_. distinct (map im_id ms) \<and> im_id ` set ms \<inter> dom (pg_inbox s) = {}"]
  show ?thesis
    using inbox_insert_effect [OF _ _ assms(1)] unfolding pg_inbox_ok_def pg_inbox_def by blast
qed

lemma pg_inbox_create_law:
  assumes "pg_inbox_ok s" and run: "pg_inbox_create m s = (r1, s')"
  shows "pg_inbox_ok s' \<and> effect r1 (pg_inbox s) (add_inbox [m] (pg_inbox s)) (pg_inbox s') \<and>
         (is_ok r1 \<or> pg_inbox s' \<noteq> pg_inbox s \<longrightarrow> im_id m \<notin> dom (pg_inbox s))"
proof -
  from run have "pg_inbox_create_batch [m] s = (r1, s')"
    by (simp add: pg_inbox_create_def pg_inbox_create_batch_def)
  from pg_inbox_create_batch_law [OF assms(1) this] show ?thesis by auto
qed

lemma pg_inbox_get_by_id_law:
  assumes "pg_inbox_ok s" and run: "pg_inbox_get_by_id i s = (r3, s')"
  shows "pg_inbox_ok s' \<and> pg_inbox s' = pg_inbox s \<and>
         (\<forall>m. r3 = Ok m \<longrightarrow> im_id m = i \<and> pg_inbox s i = Some (inbox_entry m))"
  unfolding pg_inbox_ok_def pg_inbox_def
  by (rule inbox.query_law [OF run [unfolded pg_inbox_get_by_id_def inbox_stmt_def] assms(1) [unfolded pg_inbox_ok_def]])
     (auto simp: table_map_def inbox_view_def split: option.splits dest: row_at_key)

lemma pg_inbox_get_by_topic_offset_law:
  assumes ok: "pg_inbox_ok s" and run: "pg_inbox_get_by_topic_offset t off s = (r4, s')"
  shows "pg_inbox_ok s' \<and> pg_inbox s' = pg_inbox s \<and>
         (\<forall>v. r4 = Ok v \<longrightarrow>
            (case v of
               None \<Rightarrow> \<forall>i e. pg_inbox s i = Some e \<longrightarrow> \<not> (im_topic e = t \<and> im_offset e = off)
             | Some m \<Rightarrow> pg_inbox s (im_id m) = Some (inbox_entry m) \<and> im_topic m = t \<and> im_offset m = off))"
  unfolding pg_inbox_ok_def pg_inbox_def
proof (rule inbox.query_law [OF run [unfolded pg_inbox_get_by_topic_offset_def inbox_stmt_def] ok [unfolded pg_inbox_ok_def]])
  fix env d1 v d2
  assume rows: "db_inbox d1 = db_inbox s"
    and "Ok (map_option inbox_message_of_row (find (\<lambda>r. iw_topic r = t \<and> iw_offset r = off) (db_inbox d1)), d1) = Ok (v, d2)"
  then have d2: "d2 = d1" and v: "v = map_option inbox_message_of_row (find (\<lambda>r. iw_topic r = t \<and> iw_offset r = off) (db_inbox s))"
    by auto
  show "d2 = d1 \<and> (case v of
      None \<Rightarrow> \<forall>i e. table_map iw_id inbox_view (db_inbox s) i = Some e \<longrightarrow> \<not> (im_topic e = t \<and> im_offset e = off)
    | Some m \<Rightarrow> table_map iw_id inbox_view (db_inbox s) (im_id m) = Some (inbox_entry m) \<and> im_topic m = t \<and> im_offset m = off)"
  proof (cases "find (\<lambda>r. iw_topic r = t \<and> iw_offset r = off) (db_inbox s)")
    case None
    then have "\<forall>r \<in> set (db_inbox s). \<not> (iw_topic r = t \<and> iw_offset r = off)"
      by (auto simp: find_None_iff)
    with None d2 v show ?thesis
      by (auto dest!: table_map_Some simp: inbox_view_def inbox_entry_def inbox_message_of_row_def)
  next
    case (Some row)
    then have row: "row \<in> set (db_inbox s)" "iw_topic row = t" "iw_offset row = off"
      by (auto simp: find_Some_iff)
    from inbox.row_in_table [OF ok [unfolded pg_inbox_ok_def] row(1)] Some row d2 v show ?thesis
      by (simp add: inbox_view_def) (simp add: inbox_message_of_row_def)
  qed
qed

lemma pg_inbox_mark_processed_law:
  assumes ok: "pg_inbox_ok s" and run: "pg_inbox_mark_processed i s = (r6, s')"
  shows "pg_inbox_ok s' \<and> effect r6 (pg_inbox s) (on_inbox i (im_status_update (\<lambda>_. Processed)) (pg_inbox s)) (pg_inbox s')"
proof -
  have stmt: "table_ok inbox_row_check inbox_unique (db_inbox d2) \<and>
        table_map iw_id inbox_view (db_inbox d2) = on_inbox i (im_status_update (\<lambda>_. Processed)) (pg_inbox s) \<and> True"
    if rows: "db_inbox d1 = db_inbox s"
      and eff: "map_ok (\<lambda>rs. ((), d1\<lparr>db_inbox := rs\<rparr>))
         (update_rows inbox_row_check (\<lambda>r. iw_id r = i)
            (\<lambda>r. r\<lparr>iw_status := ''processed'', iw_processed_at := Some (db_now d1)\<rparr>) (db_inbox d1)) = Ok (a, d2)"
    for env :: stmt_env and d1 a d2
  proof -
    from eff obtain rs where d2: "d2 = d1\<lparr>db_inbox := rs\<rparr>" and
      upd: "update_rows inbox_row_check (\<lambda>r. iw_id r = i)
          (\<lambda>r. r\<lparr>iw_status := ''processed'', iw_processed_at := Some (db_now d1)\<rparr>) (db_inbox s) = Ok rs"
      by (auto simp: rows)
    have "table_ok inbox_row_check inbox_unique rs \<and> table_map iw_id inbox_view rs =
        (table_map iw_id inbox_view (db_inbox s))(i := map_option (im_status_update (\<lambda>_. Processed))
          (table_map iw_id inbox_view (db_inbox s) i))"
      by (rule inbox.update_table [OF ok [unfolded pg_inbox_ok_def] upd])
         (simp_all add: inbox_view_def inbox_entry_def inbox_message_of_row_def inbox_status_of_string_def
            inbox_unique_def map_if_same del: map_map)
    then show ?thesis by (simp add: d2 on_inbox_def pg_inbox_def)
  qed
  from inbox.method_law [OF run [unfolded pg_inbox_mark_processed_def inbox_stmt_def] ok [unfolded pg_inbox_ok_def],
      of "on_inbox i (im_status_update (\<lambda>_. Processed)) (pg_inbox s)" "\<lambda>_. True"] stmt
  show ?thesis unfolding pg_inbox_ok_def pg_inbox_def by blast
qed

lemma pg_inbox_delete_law:
  assumes ok: "pg_inbox_ok s" and run: "pg_inbox_delete i s = (r7, s')"
  shows "pg_inbox_ok s' \<and> effect r7 (pg_inbox s) ((pg_inbox s)(i := None)) (pg_inbox s')"
proof -
  have "pg_inbox_ok s' \<and> effect r7 (pg_inbox s) ((pg_inbox s)(i := None)) (pg_inbox s') \<and>
      (is_ok r7 \<or> pg_inbox s' \<noteq> pg_inbox s \<longrightarrow> (\<exists>a::unit. True)) \<and> (\<forall>a. r7 = Ok a \<longrightarrow> True)"
    unfolding pg_inbox_ok_def pg_inbox_def
    by (rule inbox.method_law [OF run [unfolded pg_inbox_delete_def inbox_stmt_def] ok [unfolded pg_inbox_ok_def]])
       (use inbox.delete_table [OF ok [unfolded pg_inbox_ok_def], of i] in \<open>auto simp del: fun_upd_apply\<close>)
  then show ?thesis by blast
qed

lemma pg_inbox_update_status_fails:
  assumes "pg_inbox_update_status i st err s = (r, s')"
  shows "\<not> is_ok r \<and> db_inbox s' = db_inbox s"
proof -
  obtain env d1 where n: "next_env s = (env, d1)" by fastforce
  with next_env_tables [OF n] assms show ?thesis
    by (cases "se_fate env")
       (auto simp: pg_inbox_update_status_def inbox_columns_def inbox_stmt_def run_statement_def)
qed

lemma pg_inbox_update_status_law:
  assumes "pg_inbox_ok s" and run: "pg_inbox_update_status i st err s = (r5, s')"
  shows "pg_inbox_ok s' \<and>
         effect r5 (pg_inbox s) (on_inbox i (\<lambda>e. e\<lparr>im_status := st, im_error_message := err\<rparr>) (pg_inbox s)) (pg_inbox s')"
  using pg_inbox_update_status_fails [OF run] assms(1)
  by (cases r5) (auto simp: pg_inbox_ok_def pg_inbox_def)

lemma pg_inbox_repository_simps [simp]:
  "ir_create pg_inbox_repository = pg_inbox_create"
  "ir_create_batch pg_inbox_repository = pg_inbox_create_batch"
  "ir_get_by_id pg_inbox_repository = pg_inbox_get_by_id"
  "ir_get_by_topic_offset pg_inbox_repository = pg_inbox_get_by_topic_offset"
  "ir_update_status pg_inbox_repository = pg_inbox_update_status"
  "ir_mark_processed pg_inbox_repository = pg_inbox_mark_processed"
  "ir_delete pg_inbox_repository = pg_inbox_delete"
  by (simp_all add: pg_inbox_repository_def)

interpretation pg_inbox: inbox_port pg_inbox_repository pg_inbox pg_inbox_ok
proof (unfold_locales, unfold pg_inbox_repository_simps)
qed (rule pg_inbox_create_law pg_inbox_create_batch_law pg_inbox_get_by_id_law pg_inbox_get_by_topic_offset_law
      pg_inbox_update_status_law pg_inbox_mark_processed_law pg_inbox_delete_law; assumption)+

section \<open>The inbox\<close>

text \<open>C31: Storing a batch. Whatever happens around the statement, the batch is stored whole or not
  at all; when the manager reports success, the answer lists the identifiers of the messages in their
  order, none of them was in use, and every message of the batch is then found by topic and offset.\<close>

theorem inbox_batch_stored:
  assumes ok: "pg_inbox_ok d" and run: "store_messages pg_inbox_repository ms d = (r, d')"
  shows "pg_inbox_ok d' \<and> (pg_inbox d' = pg_inbox d \<or> pg_inbox d' = add_inbox ms (pg_inbox d)) \<and>
         (\<forall>ids. r = Ok ids \<longrightarrow>
            ids = map im_id ms \<and> distinct ids \<and> set ids \<inter> dom (pg_inbox d) = {} \<and>
            pg_inbox d' = add_inbox ms (pg_inbox d) \<and>
            (\<forall>m \<in> set ms. \<forall>v d2. check_duplicate pg_inbox_repository (im_topic m) (im_offset m) d' = (Ok v, d2) \<longrightarrow> v \<noteq> None))"
proof -
  note law = pg_inbox.store_messages_law [OF ok run]
  have found: "v \<noteq> None" if "r = Ok ids" and m: "m \<in> set ms"
    and "check_duplicate pg_inbox_repository (im_topic m) (im_offset m) d' = (Ok v, d2)" for ids m v d2
  proof (rule pg_inbox.stored_is_duplicate [of d' "im_id m" "inbox_entry m"])
    show "pg_inbox_ok d'" using law by blast
    from law that(1) have "distinct (map im_id ms)" "pg_inbox d' = add_inbox ms (pg_inbox d)" by blast+
    with m show "pg_inbox d' (im_id m) = Some (inbox_entry m)" by (simp add: add_inbox_apply)
    show "im_topic (inbox_entry m) = im_topic m" "im_offset (inbox_entry m) = im_offset m"
      by (simp_all add: inbox_entry_def)
  qed (rule that(3))
  have one: "pg_inbox_ok d' \<and> (pg_inbox d' = pg_inbox d \<or> pg_inbox d' = add_inbox ms (pg_inbox d))"
    using law by blast
  have two: "ids = map im_id ms \<and> distinct ids \<and> set ids \<inter> dom (pg_inbox d) = {} \<and>
      pg_inbox d' = add_inbox ms (pg_inbox d)" if "r = Ok ids" for ids
    using law that by blast
  show ?thesis using one two found by blast
qed

definition sample_inbox_message :: inbox_message where
  "sample_inbox_message =
     \<lparr>im_id = 7, im_topic = ''orders'', im_partition = 0, im_offset = 42, im_key = None, im_event_type = None,
      im_payload = JNull, im_headers = None, im_timestamp = 0, im_status = Received, im_attempt_count = 0,
      im_error_message = None, im_received_at = 0, im_processed_at = None\<rparr>"

lemma empty_inbox_ok: "pg_inbox_ok empty_db"
  by (simp add: pg_inbox_ok_def empty_db_def table_ok_def inbox_unique_def)

lemma sample_inbox_row_check: "inbox_row_check (inbox_row_of_message sample_inbox_message)"
  by code_simp

lemma sample_inbox_stored:
  "store_messages pg_inbox_repository [sample_inbox_message] empty_db =
     (Ok [7], empty_db\<lparr>db_inbox := [inbox_row_of_message sample_inbox_message]\<rparr>)"
  using sample_inbox_row_check
  by (simp add: store_messages_def pg_inbox_create_batch_def inbox_stmt_def inbox_insert_def run_statement_def
      next_env_def calm_env_def empty_db_def insert_rows_def inbox_unique_def)
     (simp add: sample_inbox_message_def)

theorem inbox_batch_stored_witness:
  "pg_inbox (empty_db\<lparr>db_inbox := [inbox_row_of_message sample_inbox_message]\<rparr>) =
     add_inbox [sample_inbox_message] (pg_inbox empty_db)"
  using inbox_batch_stored [OF empty_inbox_ok sample_inbox_stored] by blast

text \<open>The processing status of a stored message never changes through \<open>update_status\<close>: the
  statement names a column the table does not have, so it always reports an error and changes no
  row. Only \<open>mark_processed\<close> moves a message on.\<close>

theorem inbox_status_update_refused:
  "\<not> is_ok (fst (ir_update_status pg_inbox_repository i st err d)) \<and>
   db_inbox (snd (ir_update_status pg_inbox_repository i st err d)) = db_inbox d"
  using pg_inbox_update_status_fails [of i st err d] by (simp add: prod_eq_iff)

end
