(* ===== verification/Subscription.thy ===== *)
theory Subscription
  imports Topic Core_Error
begin

text \<open>
  The subscription feature: the subscriber entity (\<open>features/subscription/domain.rs\<close>), its storage
  port (\<open>ports.rs\<close>) and the registry (\<open>registry.rs\<close>). The locale \<open>subscriber_port\<close> is what the
  registry and the delivery rely on.
\<close>

section \<open>The subscriber\<close>

record subscriber =
  su_id :: uuid
  su_service_name :: string
  su_grpc_endpoint :: string
  su_topic_patterns :: "string list"
  su_active :: bool
  su_delivery_config :: "json option"
  su_registered_at :: timestamp
  su_updated_at :: timestamp

definition subscriber_matches_topic :: "subscriber \<Rightarrow> string \<Rightarrow> bool" where
  "subscriber_matches_topic s topic = matches_any topic (su_topic_patterns s)"

definition subscriber_new :: "string \<Rightarrow> string \<Rightarrow> string list \<Rightarrow> runtime \<Rightarrow> subscriber \<times> runtime" where
  "subscriber_new service_name grpc_endpoint topic_patterns rt =
     (let (now, rt1) = utc_now rt;
          (i, rt2) = now_v7 rt1
      in (\<lparr>su_id = i, su_service_name = service_name, su_grpc_endpoint = grpc_endpoint,
           su_topic_patterns = topic_patterns, su_active = True, su_delivery_config = None,
           su_registered_at = now, su_updated_at = now\<rparr>, rt2))"

section \<open>The port\<close>

record 's subscriber_repository =
  sr_create :: "subscriber \<Rightarrow> 's \<Rightarrow> (subscriber_error + unit) \<times> 's"
  sr_get_by_id :: "uuid \<Rightarrow> 's \<Rightarrow> (subscriber_error + subscriber) \<times> 's"
  sr_get_all_active :: "'s \<Rightarrow> (subscriber_error + subscriber list) \<times> 's"
  sr_update :: "subscriber \<Rightarrow> 's \<Rightarrow> (subscriber_error + unit) \<times> 's"
  sr_delete :: "uuid \<Rightarrow> 's \<Rightarrow> (subscriber_error + unit) \<times> 's"
  sr_deactivate :: "uuid \<Rightarrow> 's \<Rightarrow> (subscriber_error + unit) \<times> 's"

text \<open>The abstract table: the registered subscribers without their time stamps.\<close>

record subscription =
  sn_service :: string
  sn_endpoint :: string
  sn_patterns :: "string list"
  sn_active :: bool
  sn_config :: "json option"

type_synonym subscriptions = "uuid \<rightharpoonup> subscription"

definition subscription_of :: "subscriber \<Rightarrow> subscription" where
  "subscription_of s =
     \<lparr>sn_service = su_service_name s, sn_endpoint = su_grpc_endpoint s, sn_patterns = su_topic_patterns s,
      sn_active = su_active s, sn_config = su_delivery_config s\<rparr>"

definition on_subscription :: "uuid \<Rightarrow> (subscription \<Rightarrow> subscription) \<Rightarrow> subscriptions \<Rightarrow> subscriptions" where
  "on_subscription i f t = t(i := map_option f (t i))"

lemma on_subscription_apply [simp]:
  "on_subscription i f t j = (if i = j then map_option f (t i) else t j)"
  by (simp add: on_subscription_def)

locale subscriber_port =
  fixes repo :: "'s subscriber_repository"
    and tab :: "'s \<Rightarrow> subscriptions"
    and ok :: "'s \<Rightarrow> bool"
  assumes create_law:
      "ok s \<Longrightarrow> sr_create repo u s = (r1, s') \<Longrightarrow>
         ok s' \<and> effect r1 (tab s) ((tab s)(su_id u \<mapsto> subscription_of u)) (tab s') \<and>
         (tab s' \<noteq> tab s \<or> is_ok r1 \<longrightarrow> su_id u \<notin> dom (tab s))"
    and get_by_id_law:
      "ok s \<Longrightarrow> sr_get_by_id repo i s = (r2, s') \<Longrightarrow>
         ok s' \<and> tab s' = tab s \<and> (\<forall>u. r2 = Ok u \<longrightarrow> su_id u = i \<and> tab s i = Some (subscription_of u))"
    and get_all_active_law:
      "ok s \<Longrightarrow> sr_get_all_active repo s = (r3, s') \<Longrightarrow>
         ok s' \<and> tab s' = tab s \<and>
         (\<forall>us. r3 = Ok us \<longrightarrow> distinct (map su_id us) \<and> (\<forall>u \<in> set us. tab s (su_id u) = Some (subscription_of u)) \<and>
            su_id ` set us = {i. \<exists>n. tab s i = Some n \<and> sn_active n})"
    and update_law:
      "ok s \<Longrightarrow> sr_update repo u s = (r4, s') \<Longrightarrow>
         ok s' \<and> effect r4 (tab s) (on_subscription (su_id u) (\<lambda>_. subscription_of u) (tab s)) (tab s')"
    and delete_law:
      "ok s \<Longrightarrow> sr_delete repo i s = (r5, s') \<Longrightarrow>
         ok s' \<and> effect r5 (tab s) ((tab s)(i := None)) (tab s')"
    and deactivate_law:
      "ok s \<Longrightarrow> sr_deactivate repo i s = (r6, s') \<Longrightarrow>
         ok s' \<and> effect r6 (tab s) (on_subscription i (sn_active_update (\<lambda>_. False)) (tab s)) (tab s')"

section \<open>SubscriberRegistry\<close>

definition registry_register ::
  "'s subscriber_repository \<Rightarrow> string \<Rightarrow> string \<Rightarrow> string list \<Rightarrow> runtime \<Rightarrow> 's
     \<Rightarrow> (core_error + uuid) \<times> runtime \<times> 's" where
  "registry_register repo service_name grpc_endpoint topic_patterns rt s =
     (let (u, rt1) = subscriber_new service_name grpc_endpoint topic_patterns rt;
          (r, s1) = sr_create repo u s
      in (map_ok (\<lambda>_. su_id u) (map_err CE_Subscriber r), rt1, s1))"

definition registry_unregister :: "'s subscriber_repository \<Rightarrow> uuid \<Rightarrow> 's \<Rightarrow> (core_error + unit) \<times> 's" where
  "registry_unregister repo i s = apfst (map_err CE_Subscriber) (sr_deactivate repo i s)"

definition registry_get :: "'s subscriber_repository \<Rightarrow> uuid \<Rightarrow> 's \<Rightarrow> (core_error + subscriber) \<times> 's" where
  "registry_get repo i s = apfst (map_err CE_Subscriber) (sr_get_by_id repo i s)"

definition registry_list_active :: "'s subscriber_repository \<Rightarrow> 's \<Rightarrow> (core_error + subscriber list) \<times> 's" where
  "registry_list_active repo s = apfst (map_err CE_Subscriber) (sr_get_all_active repo s)"

definition registry_update :: "'s subscriber_repository \<Rightarrow> subscriber \<Rightarrow> 's \<Rightarrow> (core_error + unit) \<times> 's" where
  "registry_update repo u s = apfst (map_err CE_Subscriber) (sr_update repo u s)"

context subscriber_port begin

lemma register_law:
  assumes "ok s" and run: "registry_register repo name ep pats rt s = (r, rt', s')"
  shows "ok s' \<and>
         (\<forall>i. r = Ok i \<longrightarrow> i = fst (now_v7 (snd (utc_now rt))) \<and> i \<notin> dom (tab s) \<and>
            tab s' = (tab s)(i \<mapsto> \<lparr>sn_service = name, sn_endpoint = ep, sn_patterns = pats,
                                  sn_active = True, sn_config = None\<rparr>))"
proof -
  obtain u rt1 where u: "subscriber_new name ep pats rt = (u, rt1)" by fastforce
  obtain c s1 where c: "sr_create repo u s = (c, s1)" by fastforce
  have "su_id u = fst (now_v7 (snd (utc_now rt)))" and "subscription_of u =
      \<lparr>sn_service = name, sn_endpoint = ep, sn_patterns = pats, sn_active = True, sn_config = None\<rparr>"
    using u by (auto simp: subscriber_new_def subscription_of_def split: prod.splits)
  with create_law [OF assms(1) c] run u c show ?thesis
    by (cases c) (auto simp: registry_register_def)
qed

text \<open>Registering and then listing: the new subscriber is listed; after unregistering it is not.\<close>

lemma register_then_list:
  assumes "ok s" and run: "registry_register repo name ep pats rt s = (Ok i, rt', s1)"
    and ls: "registry_list_active repo s1 = (Ok us, s2)"
  shows "\<exists>u \<in> set us. su_id u = i \<and> su_service_name u = name \<and> su_grpc_endpoint u = ep \<and> su_topic_patterns u = pats"
proof -
  from register_law [OF assms(1) run] have "ok s1" and t: "tab s1 i = Some \<lparr>sn_service = name, sn_endpoint = ep,
      sn_patterns = pats, sn_active = True, sn_config = None\<rparr>" by auto
  from ls obtain r where "sr_get_all_active repo s1 = (r, s2)" "r = Ok us"
    by (cases "sr_get_all_active repo s1") (auto simp: registry_list_active_def)
  from get_all_active_law [OF \<open>ok s1\<close> this(1)] this(2)
  have us: "\<forall>u \<in> set us. tab s1 (su_id u) = Some (subscription_of u)"
    and ids: "su_id ` set us = {i. \<exists>n. tab s1 i = Some n \<and> sn_active n}" by auto
  from t have "i \<in> su_id ` set us" by (simp add: ids)
  then obtain u where "u \<in> set us" "su_id u = i" by auto
  moreover from us this t have "subscription_of u = \<lparr>sn_service = name, sn_endpoint = ep, sn_patterns = pats,
      sn_active = True, sn_config = None\<rparr>" by force
  ultimately show ?thesis by (auto simp: subscription_of_def)
qed

lemma unregister_then_list:
  assumes "ok s" and run: "registry_unregister repo i s = (Ok u, s1)"
    and ls: "registry_list_active repo s1 = (Ok us, s2)"
  shows "i \<notin> su_id ` set us"
proof -
  from run obtain r where r: "sr_deactivate repo i s = (r, s1)" "r = Ok u"
    by (cases "sr_deactivate repo i s") (auto simp: registry_unregister_def)
  from deactivate_law [OF assms(1) r(1)] r(2) have "ok s1"
    and t: "tab s1 = on_subscription i (sn_active_update (\<lambda>_. False)) (tab s)" by auto
  from ls obtain q where "sr_get_all_active repo s1 = (q, s2)" "q = Ok us"
    by (cases "sr_get_all_active repo s1") (auto simp: registry_list_active_def)
  from get_all_active_law [OF \<open>ok s1\<close> this(1)] this(2)
  have "su_id ` set us = {i. \<exists>n. tab s1 i = Some n \<and> sn_active n}" by auto
  with t show ?thesis by auto
qed

end

end
