(* ===== verification/Breaker.thy ===== *)
theory Breaker
  imports Prelude
begin

text \<open>
  The circuit breaker of \<open>features/delivery/dispatcher.rs\<close>. The monotonic clock is an argument
  (nanoseconds); the counters are \<open>u32\<close> and wrap as in a release build. The abstract breaker counts
  with natural numbers and keeps only what each state needs; the properties show that the code
  refines it for every configuration and every history of calls.
\<close>

section \<open>The code\<close>

datatype circuit_breaker_state = Closed | Open | HalfOpen

record circuit_breaker_config =
  bc_failure_threshold :: u32
  bc_success_threshold :: u32
  bc_open_duration :: int

record circuit_breaker =
  cb_state :: circuit_breaker_state
  cb_failures :: u32
  cb_successes :: u32
  cb_opened_at :: "timestamp option"
  cb_config :: circuit_breaker_config

definition default_circuit_breaker_config :: circuit_breaker_config where
  "default_circuit_breaker_config =
     \<lparr>bc_failure_threshold = 5, bc_success_threshold = 2, bc_open_duration = 30000000000\<rparr>"

definition circuit_breaker_new :: "circuit_breaker_config \<Rightarrow> circuit_breaker" where
  "circuit_breaker_new config =
     \<lparr>cb_state = Closed, cb_failures = 0, cb_successes = 0, cb_opened_at = None, cb_config = config\<rparr>"

text \<open>\<open>Instant::elapsed\<close> saturates at zero.\<close>

definition elapsed :: "timestamp \<Rightarrow> timestamp \<Rightarrow> int" where
  "elapsed now t = max 0 (now - t)"

definition can_execute :: "timestamp \<Rightarrow> circuit_breaker \<Rightarrow> bool \<times> circuit_breaker" where
  "can_execute now cb =
     (case cb_state cb of
        Closed \<Rightarrow> (True, cb)
      | Open \<Rightarrow>
          (case cb_opened_at cb of
             Some opened_at \<Rightarrow>
               if elapsed now opened_at \<ge> bc_open_duration (cb_config cb)
               then (True, cb\<lparr>cb_state := HalfOpen, cb_successes := 0\<rparr>)
               else (False, cb)
           | None \<Rightarrow> (False, cb))
      | HalfOpen \<Rightarrow> (True, cb))"

definition record_success :: "circuit_breaker \<Rightarrow> circuit_breaker" where
  "record_success cb =
     (case cb_state cb of
        Closed \<Rightarrow> cb\<lparr>cb_failures := 0\<rparr>
      | HalfOpen \<Rightarrow>
          let cb = cb\<lparr>cb_successes := cb_successes cb + 1\<rparr> in
          if cb_successes cb \<ge> bc_success_threshold (cb_config cb)
          then cb\<lparr>cb_state := Closed, cb_failures := 0, cb_successes := 0, cb_opened_at := None\<rparr>
          else cb
      | Open \<Rightarrow> cb\<lparr>cb_state := HalfOpen, cb_successes := 0\<rparr>)"

definition record_failure :: "timestamp \<Rightarrow> circuit_breaker \<Rightarrow> circuit_breaker" where
  "record_failure now cb =
     (let cb = cb\<lparr>cb_failures := cb_failures cb + 1\<rparr> in
        case cb_state cb of
          Closed \<Rightarrow>
            if cb_failures cb \<ge> bc_failure_threshold (cb_config cb)
            then cb\<lparr>cb_state := Open, cb_opened_at := Some now\<rparr>
            else cb
        | HalfOpen \<Rightarrow> cb\<lparr>cb_state := Open, cb_opened_at := Some now, cb_successes := 0\<rparr>
        | Open \<Rightarrow> cb\<lparr>cb_opened_at := Some now\<rparr>)"

section \<open>The abstract breaker\<close>

datatype abs_breaker =
    AClosed nat       \<comment> \<open>consecutive failures\<close>
  | AOpen timestamp   \<comment> \<open>since when\<close>
  | AHalf nat         \<comment> \<open>consecutive successes of the probe phase\<close>

fun abs_can_execute :: "circuit_breaker_config \<Rightarrow> timestamp \<Rightarrow> abs_breaker \<Rightarrow> bool \<times> abs_breaker" where
  "abs_can_execute c now (AClosed n) = (True, AClosed n)"
| "abs_can_execute c now (AOpen t) =
     (if elapsed now t \<ge> bc_open_duration c then (True, AHalf 0) else (False, AOpen t))"
| "abs_can_execute c now (AHalf n) = (True, AHalf n)"

fun abs_success :: "circuit_breaker_config \<Rightarrow> abs_breaker \<Rightarrow> abs_breaker" where
  "abs_success c (AClosed n) = AClosed 0"
| "abs_success c (AHalf n) = (if Suc n \<ge> unat (bc_success_threshold c) then AClosed 0 else AHalf (Suc n))"
| "abs_success c (AOpen t) = AHalf 0"

fun abs_failure :: "circuit_breaker_config \<Rightarrow> timestamp \<Rightarrow> abs_breaker \<Rightarrow> abs_breaker" where
  "abs_failure c now (AClosed n) = (if Suc n \<ge> unat (bc_failure_threshold c) then AOpen now else AClosed (Suc n))"
| "abs_failure c now (AHalf n) = AOpen now"
| "abs_failure c now (AOpen t) = AOpen now"

definition abs_of :: "circuit_breaker \<Rightarrow> abs_breaker" where
  "abs_of cb =
     (case cb_state cb of
        Closed \<Rightarrow> AClosed (unat (cb_failures cb))
      | Open \<Rightarrow> AOpen (case cb_opened_at cb of Some t \<Rightarrow> t | None \<Rightarrow> 0)
      | HalfOpen \<Rightarrow> AHalf (unat (cb_successes cb)))"

text \<open>The invariant: the counter of the current phase is below its threshold, and an open or
  half-open breaker knows since when.\<close>

definition below :: "u32 \<Rightarrow> u32 \<Rightarrow> bool" where
  "below w t \<longleftrightarrow> w = 0 \<or> w < t"

definition breaker_ok :: "circuit_breaker \<Rightarrow> bool" where
  "breaker_ok cb \<longleftrightarrow>
     (case cb_state cb of
        Closed \<Rightarrow> below (cb_failures cb) (bc_failure_threshold (cb_config cb))
      | Open \<Rightarrow> cb_opened_at cb \<noteq> None
      | HalfOpen \<Rightarrow> cb_opened_at cb \<noteq> None \<and>
                    below (cb_successes cb) (bc_success_threshold (cb_config cb)))"

lemma below_0 [simp]: "below 0 t"
  by (simp add: below_def)

lemma breaker_ok_new [simp]: "breaker_ok (circuit_breaker_new c)"
  by (simp add: breaker_ok_def circuit_breaker_new_def)

lemma unat_Suc_below: "below w t \<Longrightarrow> unat (w + 1) = Suc (unat w)"
proof -
  assume "below w t"
  have "w + 1 \<noteq> 0"
  proof (cases "w = 0")
    case False
    with \<open>below w t\<close> have "w < t" by (simp add: below_def)
    then have "w \<noteq> - 1" by (metis word_n1_ge not_less)
    then show ?thesis by (metis add_eq_0_iff2)
  qed simp
  then show ?thesis using unatSuc [of w] by (simp add: add.commute)
qed

lemma threshold_reached: "below w t \<Longrightarrow> t \<le> w + 1 \<longleftrightarrow> unat t \<le> Suc (unat w)"
  by (simp add: word_le_nat_alt unat_Suc_below)

lemma below_Suc: "\<not> t \<le> w + 1 \<Longrightarrow> below (w + 1) t"
  by (simp add: below_def not_le)

lemma can_execute_sim:
  assumes "breaker_ok cb" and "can_execute now cb = (b, cb')"
  shows "breaker_ok cb' \<and> cb_config cb' = cb_config cb \<and>
         abs_can_execute (cb_config cb) now (abs_of cb) = (b, abs_of cb')"
  using assms by (auto simp: can_execute_def breaker_ok_def abs_of_def
      split: circuit_breaker_state.splits option.splits if_splits)

lemma record_success_sim:
  assumes "breaker_ok cb"
  shows "breaker_ok (record_success cb) \<and> cb_config (record_success cb) = cb_config cb \<and>
         abs_of (record_success cb) = abs_success (cb_config cb) (abs_of cb)"
  using assms by (cases "cb_state cb")
    (auto simp: record_success_def breaker_ok_def abs_of_def Let_def threshold_reached unat_Suc_below intro: below_Suc)

lemma record_failure_sim:
  assumes "breaker_ok cb"
  shows "breaker_ok (record_failure now cb) \<and> cb_config (record_failure now cb) = cb_config cb \<and>
         abs_of (record_failure now cb) = abs_failure (cb_config cb) now (abs_of cb)"
  using assms by (cases "cb_state cb")
    (auto simp: record_failure_def breaker_ok_def abs_of_def Let_def threshold_reached unat_Suc_below intro: below_Suc)

section \<open>Histories\<close>

datatype breaker_call = Try timestamp | Success | Failure timestamp

fun breaker_step :: "breaker_call \<Rightarrow> circuit_breaker \<Rightarrow> bool option \<times> circuit_breaker" where
  "breaker_step (Try now) cb = (let (b, cb') = can_execute now cb in (Some b, cb'))"
| "breaker_step Success cb = (None, record_success cb)"
| "breaker_step (Failure now) cb = (None, record_failure now cb)"

fun breaker_run :: "breaker_call list \<Rightarrow> circuit_breaker \<Rightarrow> bool option list \<times> circuit_breaker" where
  "breaker_run [] cb = ([], cb)"
| "breaker_run (c # cs) cb =
     (let (a, cb1) = breaker_step c cb; (as, cb2) = breaker_run cs cb1 in (a # as, cb2))"

fun abs_step :: "circuit_breaker_config \<Rightarrow> breaker_call \<Rightarrow> abs_breaker \<Rightarrow> bool option \<times> abs_breaker" where
  "abs_step c (Try now) a = (let (b, a') = abs_can_execute c now a in (Some b, a'))"
| "abs_step c Success a = (None, abs_success c a)"
| "abs_step c (Failure now) a = (None, abs_failure c now a)"

fun abs_run :: "circuit_breaker_config \<Rightarrow> breaker_call list \<Rightarrow> abs_breaker \<Rightarrow> bool option list \<times> abs_breaker" where
  "abs_run c [] a = ([], a)"
| "abs_run c (x # xs) a = (let (b, a1) = abs_step c x a; (bs, a2) = abs_run c xs a1 in (b # bs, a2))"

lemma breaker_step_sim:
  assumes "breaker_ok cb" and "breaker_step c cb = (a, cb')"
  shows "breaker_ok cb' \<and> cb_config cb' = cb_config cb \<and> abs_step (cb_config cb) c (abs_of cb) = (a, abs_of cb')"
  using assms can_execute_sim [OF assms(1)] record_success_sim [OF assms(1)] record_failure_sim [OF assms(1)]
  by (cases c) (auto split: prod.splits)

lemma breaker_run_sim:
  assumes "breaker_ok cb" and "breaker_run cs cb = (as, cb')"
  shows "breaker_ok cb' \<and> cb_config cb' = cb_config cb \<and> abs_run (cb_config cb) cs (abs_of cb) = (as, abs_of cb')"
  using assms
proof (induction cs arbitrary: cb as)
  case Nil
  then show ?case by simp
next
  case (Cons c cs)
  obtain a cb1 where s: "breaker_step c cb = (a, cb1)" by fastforce
  obtain as' cb2 where r: "breaker_run cs cb1 = (as', cb2)" by fastforce
  from breaker_step_sim [OF Cons.prems(1) s] Cons.IH [of cb1 as'] s r Cons.prems(2) show ?case by auto
qed

text \<open>C18: The breaker refines its specification. For every configuration and every history of
  calls on a new breaker, the answers of \<open>can_execute\<close> and the state are those of the abstract
  breaker, whose counters are natural numbers: the \<open>u32\<close> counters never wrap where they matter.\<close>

theorem breaker_refines:
  "case breaker_run cs (circuit_breaker_new c) of (as, cb) \<Rightarrow>
     breaker_ok cb \<and> abs_run c cs (AClosed 0) = (as, abs_of cb)"
proof -
  obtain as cb where r: "breaker_run cs (circuit_breaker_new c) = (as, cb)" by fastforce
  have "cb_config (circuit_breaker_new c) = c" "abs_of (circuit_breaker_new c) = AClosed 0"
    by (simp_all add: circuit_breaker_new_def abs_of_def)
  with breaker_run_sim [OF breaker_ok_new r] show ?thesis by (simp add: r)
qed

lemma abs_failures_below:
  "n + length ts < unat (bc_failure_threshold c) \<Longrightarrow>
     snd (abs_run c (map Failure ts) (AClosed n)) = AClosed (n + length ts)"
proof (induction ts arbitrary: n)
  case Nil
  then show ?case by simp
next
  case (Cons t ts)
  then have "Suc n + length ts < unat (bc_failure_threshold c)" by simp
  from Cons.IH [OF this] Cons.prems show ?case by (simp add: case_prod_beta Let_def)
qed

lemma abs_run_append:
  "abs_run c (xs @ ys) a = (let (bs, a1) = abs_run c xs a; (cs, a2) = abs_run c ys a1 in (bs @ cs, a2))"
  by (induction xs arbitrary: a) (auto split: prod.splits)

text \<open>Fail fast. Fewer consecutive failures than the threshold leave a new breaker closed and
  every call allowed; the failure that reaches it opens the breaker, which then refuses every call
  until the open duration has passed since that failure, and at that moment lets a probe through.\<close>

theorem breaker_opens_at_threshold:
  assumes "Suc (length ts) \<le> unat (bc_failure_threshold c)"
  shows "fst (can_execute now (snd (breaker_run (map Failure ts) (circuit_breaker_new c)))) \<and>
         (Suc (length ts) = unat (bc_failure_threshold c) \<longrightarrow>
            (fst (can_execute now (snd (breaker_run (map Failure ts @ [Failure t]) (circuit_breaker_new c)))) \<longleftrightarrow>
               elapsed now t \<ge> bc_open_duration c))"
proof -
  obtain as cb where r: "breaker_run (map Failure ts) (circuit_breaker_new c) = (as, cb)" by fastforce
  note sim = breaker_run_sim [OF breaker_ok_new r]
  have cfg: "cb_config (circuit_breaker_new c) = c" and a0: "abs_of (circuit_breaker_new c) = AClosed 0"
    by (simp_all add: circuit_breaker_new_def abs_of_def)
  from abs_failures_below [of 0 ts c] assms sim cfg a0 have abs: "abs_of cb = AClosed (length ts)"
    by simp
  obtain as2 cb2 where r2: "breaker_run (map Failure ts @ [Failure t]) (circuit_breaker_new c) = (as2, cb2)" by fastforce
  note sim2 = breaker_run_sim [OF breaker_ok_new r2]
  have abs2: "abs_of cb2 = AOpen t" if "Suc (length ts) = unat (bc_failure_threshold c)"
    using sim2 sim abs that unfolding cfg a0 abs_run_append by (auto split: prod.splits)
  obtain b cb' where e: "can_execute now cb = (b, cb')" by fastforce
  from can_execute_sim [OF _ e] sim abs have "b" by simp
  moreover obtain b2 cb2' where e2: "can_execute now cb2 = (b2, cb2')" by fastforce
  have "b2 \<longleftrightarrow> elapsed now t \<ge> bc_open_duration c" if "Suc (length ts) = unat (bc_failure_threshold c)"
    using can_execute_sim [OF _ e2] sim2 abs2 [OF that] cfg by (auto split: if_splits)
  ultimately show ?thesis using r r2 e e2 by simp
qed

theorem breaker_opens_at_threshold_witness:
  "fst (can_execute 30000000004 (snd (breaker_run (map Failure [0, 1, 2, 3] @ [Failure 4])
     (circuit_breaker_new default_circuit_breaker_config))))"
  using breaker_opens_at_threshold [of "[0, 1, 2, 3]" default_circuit_breaker_config 30000000004 4]
  by (simp add: default_circuit_breaker_config_def elapsed_def)

end
