(* ===== verification/Delivery.thy ===== *)
theory Delivery
  imports Subscription Breaker
begin

text \<open>
  Delivery to subscribers: the notification port (\<open>features/delivery/ports.rs\<close>) and the dispatcher
  with one circuit breaker per endpoint (\<open>features/delivery/dispatcher.rs\<close>). A delivery takes the
  endpoint lock twice, before and after the call to the subscriber, so it is modelled as two atomic
  steps (\<open>dispatch_begin\<close>, \<open>record_outcome\<close>); \<open>dispatch\<close> is one delivery alone. The fan-out of
  \<open>dispatch_to_all\<close> is concurrent: \<open>fan_run\<close> has all its runs, and \<open>dispatch_to_all\<close> is the one that
  delivers one after the other (theory Fan_Out shows that every run amounts to such a one).
\<close>

section \<open>Ports\<close>

record deliver_notification =
  dn_message_id :: string
  dn_topic :: string
  dn_payload :: bytes
  dn_headers :: "(string \<times> string) list"
  dn_timestamp :: i64
  dn_event_type :: string
  dn_retry_count :: i32

record notification_outcome =
  no_success :: bool
  no_error :: string
  no_retry :: bool
  no_retry_delay_ms :: i64

datatype notification_error = NE_Transport string | NE_Timeout

fun notification_error_to_string :: "notification_error \<Rightarrow> string" where
  "notification_error_to_string (NE_Transport e) = e"
| "notification_error_to_string NE_Timeout = ''Request timeout''"

text \<open>What the transport does with a call: its answer and how many milliseconds it took.\<close>

type_synonym 'n subscriber_notifier =
  "string \<Rightarrow> deliver_notification \<Rightarrow> 'n \<Rightarrow> ((notification_error + notification_outcome) \<times> nat) \<times> 'n"

section \<open>Endpoints\<close>

record subscriber_endpoint =
  ep_subscriber :: subscriber
  ep_breaker :: circuit_breaker

type_synonym endpoints = "(string \<times> subscriber_endpoint) list"

definition subscriber_endpoint_new :: "subscriber \<Rightarrow> subscriber_endpoint" where
  "subscriber_endpoint_new s =
     \<lparr>ep_subscriber = s, ep_breaker = circuit_breaker_new default_circuit_breaker_config\<rparr>"

definition endpoint_address :: "subscriber_endpoint \<Rightarrow> string" where
  "endpoint_address ep = su_grpc_endpoint (ep_subscriber ep)"

record delivery_result =
  dr_subscriber_id :: string
  dr_success :: bool
  dr_error :: "string option"
  dr_retry :: bool
  dr_retry_delay_ms :: i64

record 's subscriber_dispatcher =
  dp_repo :: "'s subscriber_repository"
  dp_endpoints :: endpoints
  dp_request_timeout :: nat
  dp_fan_out_concurrency :: nat

definition subscriber_dispatcher_new :: "'s subscriber_repository \<Rightarrow> 's subscriber_dispatcher" where
  "subscriber_dispatcher_new repo =
     \<lparr>dp_repo = repo, dp_endpoints = [], dp_request_timeout = 10000, dp_fan_out_concurrency = 32\<rparr>"

definition load_subscribers :: "'s subscriber_dispatcher \<Rightarrow> 's \<Rightarrow> (core_error + subscriber list) \<times> 's" where
  "load_subscribers dp s = apfst (map_err CE_Subscriber) (sr_get_all_active (dp_repo dp) s)"

fun merge_loop :: "uuid_lib \<Rightarrow> subscriber list \<Rightarrow> endpoints \<Rightarrow> endpoints" where
  "merge_loop ul [] eps = eps"
| "merge_loop ul (s # ss) eps =
     (let i = ul_show ul (su_id s) in
        case map_of eps i of
          Some ep \<Rightarrow> merge_loop ul ss (AList.update i (ep\<lparr>ep_subscriber := s\<rparr>) eps)
        | None \<Rightarrow> merge_loop ul ss (AList.update i (subscriber_endpoint_new s) eps))"

definition merge_subscribers :: "uuid_lib \<Rightarrow> subscriber list \<Rightarrow> endpoints \<Rightarrow> endpoints" where
  "merge_subscribers ul subscribers eps =
     (let active_ids = set (map (\<lambda>s. ul_show ul (su_id s)) subscribers)
      in merge_loop ul subscribers (filter (\<lambda>(i, _). i \<in> active_ids) eps))"

definition refresh_subscribers ::
  "uuid_lib \<Rightarrow> 's subscriber_dispatcher \<Rightarrow> 's \<Rightarrow> (core_error + unit) \<times> 's subscriber_dispatcher \<times> 's" where
  "refresh_subscribers ul dp s =
     (case load_subscribers dp s of
        (Err e, s1) \<Rightarrow> (Err e, dp, s1)
      | (Ok subscribers, s1) \<Rightarrow>
          (Ok (), dp\<lparr>dp_endpoints := merge_subscribers ul subscribers (dp_endpoints dp)\<rparr>, s1))"

definition get_matching_subscribers :: "endpoints \<Rightarrow> string \<Rightarrow> subscriber list" where
  "get_matching_subscribers eps topic =
     map ep_subscriber (filter (\<lambda>e. subscriber_matches_topic (ep_subscriber e) topic) (map snd eps))"

section \<open>One delivery\<close>

definition outcome_to_delivery_result ::
  "string \<Rightarrow> notification_error + notification_outcome \<Rightarrow> delivery_result" where
  "outcome_to_delivery_result subscriber_id result =
     (case result of
        Ok oc \<Rightarrow>
          \<lparr>dr_subscriber_id = subscriber_id, dr_success = no_success oc,
           dr_error = (if no_error oc = [] then None else Some (no_error oc)),
           dr_retry = no_retry oc, dr_retry_delay_ms = no_retry_delay_ms oc\<rparr>
      | Err (NE_Transport msg) \<Rightarrow>
          \<lparr>dr_subscriber_id = subscriber_id, dr_success = False, dr_error = Some msg,
           dr_retry = True, dr_retry_delay_ms = 1000\<rparr>
      | Err NE_Timeout \<Rightarrow>
          \<lparr>dr_subscriber_id = subscriber_id, dr_success = False, dr_error = Some ''Request timeout'',
           dr_retry = True, dr_retry_delay_ms = 2000\<rparr>)"

definition breaker_open_result :: "string \<Rightarrow> delivery_result" where
  "breaker_open_result subscriber_id =
     \<lparr>dr_subscriber_id = subscriber_id, dr_success = False, dr_error = Some ''Circuit breaker open'',
      dr_retry = True, dr_retry_delay_ms = 1000\<rparr>"

text \<open>The first critical section: \<open>Ok\<close> is the address to call.\<close>

definition dispatch_begin ::
  "uuid_lib \<Rightarrow> timestamp \<Rightarrow> subscriber \<Rightarrow> endpoints \<Rightarrow> (delivery_result + string) \<times> endpoints" where
  "dispatch_begin ul now s eps =
     (let subscriber_id = ul_show ul (su_id s);
          ep = (case map_of eps subscriber_id of Some ep \<Rightarrow> ep | None \<Rightarrow> subscriber_endpoint_new s);
          (allowed, cb) = can_execute now (ep_breaker ep);
          eps1 = AList.update subscriber_id (ep\<lparr>ep_breaker := cb\<rparr>) eps
      in if \<not> allowed then (Err (breaker_open_result subscriber_id), eps1)
         else (Ok (endpoint_address ep), eps1))"

text \<open>The second: the outcome is recorded if the endpoint is still there.\<close>

definition record_outcome ::
  "timestamp \<Rightarrow> string \<Rightarrow> notification_error + notification_outcome \<Rightarrow> endpoints \<Rightarrow> endpoints" where
  "record_outcome now subscriber_id result eps =
     (case map_of eps subscriber_id of
        Some ep \<Rightarrow>
          AList.update subscriber_id
            (ep\<lparr>ep_breaker := (case result of Ok _ \<Rightarrow> record_success (ep_breaker ep)
                                          | Err _ \<Rightarrow> record_failure now (ep_breaker ep))\<rparr>) eps
      | None \<Rightarrow> eps)"

text \<open>\<open>tokio::time::timeout\<close> around the call.\<close>

definition deliver_with_timeout ::
  "nat \<Rightarrow> 'n subscriber_notifier \<Rightarrow> string \<Rightarrow> deliver_notification \<Rightarrow> 'n
     \<Rightarrow> (notification_error + notification_outcome) \<times> 'n" where
  "deliver_with_timeout limit notify addr request n =
     (case notify addr request n of
        ((r, took), n1) \<Rightarrow> (if took > limit then Err NE_Timeout else r, n1))"

definition dispatch ::
  "uuid_lib \<Rightarrow> 'n subscriber_notifier \<Rightarrow> timestamp \<Rightarrow> timestamp \<Rightarrow> 's subscriber_dispatcher \<Rightarrow> subscriber
     \<Rightarrow> deliver_notification \<Rightarrow> 'n \<Rightarrow> delivery_result \<times> 's subscriber_dispatcher \<times> 'n" where
  "dispatch ul notify t1 t2 dp s request n =
     (let subscriber_id = ul_show ul (su_id s) in
        case dispatch_begin ul t1 s (dp_endpoints dp) of
          (Err r, eps) \<Rightarrow> (r, dp\<lparr>dp_endpoints := eps\<rparr>, n)
        | (Ok addr, eps) \<Rightarrow>
            (case deliver_with_timeout (dp_request_timeout dp) notify addr request n of
               (result, n1) \<Rightarrow>
                 (outcome_to_delivery_result subscriber_id result,
                  dp\<lparr>dp_endpoints := record_outcome t2 subscriber_id result eps\<rparr>, n1)))"

text \<open>Each call takes the times it runs at from a clock.\<close>

fun dispatch_each ::
  "uuid_lib \<Rightarrow> 'n subscriber_notifier \<Rightarrow> (nat \<Rightarrow> timestamp) \<Rightarrow> nat \<Rightarrow> deliver_notification \<Rightarrow> subscriber list
     \<Rightarrow> 's subscriber_dispatcher \<Rightarrow> 'n \<Rightarrow> delivery_result list \<times> 's subscriber_dispatcher \<times> 'n" where
  "dispatch_each ul notify clock c request [] dp n = ([], dp, n)"
| "dispatch_each ul notify clock c request (s # ss) dp n =
     (let (r, dp1, n1) = dispatch ul notify (clock c) (clock (Suc c)) dp s request n;
          (rs, dp2, n2) = dispatch_each ul notify clock (c + 2) request ss dp1 n1
      in (r # rs, dp2, n2))"

text \<open>The fan-out when the deliveries happen to run one after the other; in general it is a run of
  \<open>fan_run\<close> below, which ends like this one for some order of the subscribers.\<close>

definition dispatch_to_all ::
  "uuid_lib \<Rightarrow> 'n subscriber_notifier \<Rightarrow> (nat \<Rightarrow> timestamp) \<Rightarrow> 's subscriber_dispatcher \<Rightarrow> string
     \<Rightarrow> deliver_notification \<Rightarrow> 'n \<Rightarrow> delivery_result list \<times> 's subscriber_dispatcher \<times> 'n" where
  "dispatch_to_all ul notify clock dp topic request n =
     (let subscribers = get_matching_subscribers (dp_endpoints dp) topic in
        if subscribers = [] then ([], dp, n)
        else dispatch_each ul notify clock 0 request subscribers dp n)"

definition fan_out_limit :: "'s subscriber_dispatcher \<Rightarrow> subscriber list \<Rightarrow> nat" where
  "fan_out_limit dp subscribers = min (max (dp_fan_out_concurrency dp) 1) (length subscribers)"

section \<open>The concurrent fan-out\<close>

text \<open>\<open>buffer_unordered\<close>: deliveries are pulled in order while fewer than the limit are in flight, and each
  proceeds on its own. A delivery just pulled runs its first critical section, which refuses or finds
  the address; the transport then gets the call, and its answer, a timeout if it took too long, is
  recorded when the delivery comes to its second critical section. The times are those of the steps.\<close>

datatype phase = Pulled | Calling "notification_error + notification_outcome"

record 'n fan_state =
  fs_waiting :: "subscriber list"
  fs_flight :: "(subscriber \<times> phase) list"
  fs_results :: "delivery_result list"
  fs_endpoints :: endpoints
  fs_network :: 'n

inductive fan_step ::
  "uuid_lib \<Rightarrow> 'n subscriber_notifier \<Rightarrow> nat \<Rightarrow> nat \<Rightarrow> deliver_notification \<Rightarrow> timestamp
     \<Rightarrow> 'n fan_state \<Rightarrow> 'n fan_state \<Rightarrow> bool"
  for ul notify limit wait request now where
  pull: "length fl < limit \<Longrightarrow>
    fan_step ul notify limit wait request now
      \<lparr>fs_waiting = s # w, fs_flight = fl, fs_results = rs, fs_endpoints = eps, fs_network = n\<rparr>
      \<lparr>fs_waiting = w, fs_flight = fl @ [(s, Pulled)], fs_results = rs, fs_endpoints = eps, fs_network = n\<rparr>"
| refuse: "dispatch_begin ul now s eps = (Err r, eps') \<Longrightarrow>
    fan_step ul notify limit wait request now
      \<lparr>fs_waiting = w, fs_flight = f1 @ (s, Pulled) # f2, fs_results = rs, fs_endpoints = eps, fs_network = n\<rparr>
      \<lparr>fs_waiting = w, fs_flight = f1 @ f2, fs_results = rs @ [r], fs_endpoints = eps', fs_network = n\<rparr>"
| call: "dispatch_begin ul now s eps = (Ok addr, eps') \<Longrightarrow>
    deliver_with_timeout wait notify addr request n = (result, n') \<Longrightarrow>
    fan_step ul notify limit wait request now
      \<lparr>fs_waiting = w, fs_flight = f1 @ (s, Pulled) # f2, fs_results = rs, fs_endpoints = eps, fs_network = n\<rparr>
      \<lparr>fs_waiting = w, fs_flight = f1 @ (s, Calling result) # f2, fs_results = rs, fs_endpoints = eps', fs_network = n'\<rparr>"
| finish:
    "fan_step ul notify limit wait request now
      \<lparr>fs_waiting = w, fs_flight = f1 @ (s, Calling result) # f2, fs_results = rs, fs_endpoints = eps, fs_network = n\<rparr>
      \<lparr>fs_waiting = w, fs_flight = f1 @ f2,
       fs_results = rs @ [outcome_to_delivery_result (ul_show ul (su_id s)) result],
       fs_endpoints = record_outcome now (ul_show ul (su_id s)) result eps, fs_network = n\<rparr>"

definition fan_start :: "subscriber list \<Rightarrow> endpoints \<Rightarrow> 'n \<Rightarrow> 'n fan_state" where
  "fan_start ss eps n = \<lparr>fs_waiting = ss, fs_flight = [], fs_results = [], fs_endpoints = eps, fs_network = n\<rparr>"

definition fan_done :: "'n fan_state \<Rightarrow> bool" where
  "fan_done st = (fs_waiting st = [] \<and> fs_flight st = [])"

text \<open>The steps of a fan-out of the dispatcher for a topic: its subscribers, its limit, its timeout.\<close>

abbreviation fan_out_step ::
  "uuid_lib \<Rightarrow> 'n subscriber_notifier \<Rightarrow> 's subscriber_dispatcher \<Rightarrow> string \<Rightarrow> deliver_notification \<Rightarrow> timestamp
     \<Rightarrow> 'n fan_state \<Rightarrow> 'n fan_state \<Rightarrow> bool" where
  "fan_out_step ul notify dp topic request \<equiv>
     fan_step ul notify (fan_out_limit dp (get_matching_subscribers (dp_endpoints dp) topic)) (dp_request_timeout dp) request"

text \<open>The runs, with the number of their steps. Where \<open>refreshes\<close> holds, the periodic task may merge a
  snapshot of the subscribers, whose identifiers are distinct, at any time.\<close>

inductive fan_run ::
  "bool \<Rightarrow> uuid_lib \<Rightarrow> 'n subscriber_notifier \<Rightarrow> 's subscriber_dispatcher \<Rightarrow> string \<Rightarrow> deliver_notification \<Rightarrow> 'n
     \<Rightarrow> nat \<Rightarrow> 'n fan_state \<Rightarrow> bool"
  for refreshes ul notify dp topic request n where
  start: "fan_run refreshes ul notify dp topic request n 0
            (fan_start (get_matching_subscribers (dp_endpoints dp) topic) (dp_endpoints dp) n)"
| step: "fan_run refreshes ul notify dp topic request n k st \<Longrightarrow>
    fan_out_step ul notify dp topic request now st st' \<Longrightarrow>
    fan_run refreshes ul notify dp topic request n (Suc k) st'"
| refresh: "fan_run refreshes ul notify dp topic request n k st \<Longrightarrow> refreshes \<Longrightarrow> distinct (map su_id ss) \<Longrightarrow>
    fan_run refreshes ul notify dp topic request n k
      (st\<lparr>fs_endpoints := merge_subscribers ul ss (fs_endpoints st)\<rparr>)"

inductive_cases fan_stepE: "fan_step ul notify limit wait request now st st'"

lemma dispatch_begin_result: "dispatch_begin ul now s eps = (Err r, eps') \<Longrightarrow> dr_subscriber_id r = ul_show ul (su_id s)"
  by (auto simp: dispatch_begin_def breaker_open_result_def Let_def split: prod.splits if_splits)

lemma outcome_subscriber_id [simp]: "dr_subscriber_id (outcome_to_delivery_result i r) = i"
  by (auto simp: outcome_to_delivery_result_def split: sum.split notification_error.split)

definition sample_subscriber :: "uuid \<Rightarrow> string \<Rightarrow> subscriber" where
  "sample_subscriber i ep =
     \<lparr>su_id = i, su_service_name = ''svc'', su_grpc_endpoint = ep, su_topic_patterns = [''orders.*''],
      su_active = True, su_delivery_config = None, su_registered_at = 0, su_updated_at = 0\<rparr>"

section \<open>The endpoint map\<close>

text \<open>Distinct keys, sound breakers.\<close>

definition endpoints_ok :: "endpoints \<Rightarrow> bool" where
  "endpoints_ok eps \<longleftrightarrow> distinct (map fst eps) \<and> (\<forall>(i, ep) \<in> set eps. breaker_ok (ep_breaker ep))"

lemma endpoints_ok_lookup: "endpoints_ok eps \<Longrightarrow> map_of eps i = Some ep \<Longrightarrow> breaker_ok (ep_breaker ep)"
  by (auto simp: endpoints_ok_def dest!: map_of_SomeD)

lemma endpoints_ok_update:
  "endpoints_ok eps \<Longrightarrow> breaker_ok (ep_breaker ep) \<Longrightarrow> endpoints_ok (AList.update i ep eps)"
proof -
  assume ok: "endpoints_ok eps" "breaker_ok (ep_breaker ep)"
  have dist: "distinct (map fst (AList.update i ep eps))"
    using ok(1) by (simp add: endpoints_ok_def distinct_update)
  have "breaker_ok (ep_breaker ep')" if "(j, ep') \<in> set (AList.update i ep eps)" for j ep'
  proof -
    from map_of_is_SomeI [OF dist that] have "map_of (AList.update i ep eps) j = Some ep'" .
    with ok show ?thesis by (auto simp: endpoints_ok_lookup split: if_splits)
  qed
  with dist show ?thesis by (auto simp: endpoints_ok_def)
qed

lemma subscriber_endpoint_new_ok [simp]: "breaker_ok (ep_breaker (subscriber_endpoint_new s))"
  by (simp add: subscriber_endpoint_new_def)

lemma dispatch_begin_ok:
  assumes "endpoints_ok eps" and "dispatch_begin ul now s eps = (r, eps')"
  shows "endpoints_ok eps'"
proof -
  let ?i = "ul_show ul (su_id s)"
  let ?ep = "case map_of eps ?i of Some ep \<Rightarrow> ep | None \<Rightarrow> subscriber_endpoint_new s"
  obtain b cb where c: "can_execute now (ep_breaker ?ep) = (b, cb)" by fastforce
  have "breaker_ok (ep_breaker ?ep)"
    using assms(1) by (auto simp: endpoints_ok_lookup split: option.split)
  from can_execute_sim [OF this c] have "breaker_ok cb" by simp
  moreover from assms(2) c have "eps' = AList.update ?i (?ep\<lparr>ep_breaker := cb\<rparr>) eps"
    by (auto simp: dispatch_begin_def Let_def split: if_splits)
  ultimately show ?thesis using assms(1) by (simp add: endpoints_ok_update)
qed

lemma record_outcome_ok: "endpoints_ok eps \<Longrightarrow> endpoints_ok (record_outcome now i r eps)"
  by (auto simp: record_outcome_def record_success_sim record_failure_sim endpoints_ok_lookup
      intro!: endpoints_ok_update split: option.split sum.split)

lemma merge_loop_ok: "endpoints_ok eps \<Longrightarrow> endpoints_ok (merge_loop ul ss eps)"
  by (induction ss arbitrary: eps)
     (auto simp: Let_def endpoints_ok_update endpoints_ok_lookup split: option.split)

lemma merge_subscribers_ok: "endpoints_ok eps \<Longrightarrow> endpoints_ok (merge_subscribers ul ss eps)"
  by (auto simp: merge_subscribers_def Let_def endpoints_ok_def distinct_map_filter intro!: merge_loop_ok [unfolded endpoints_ok_def])

text \<open>What one loop iteration does to the map.\<close>

definition merged_endpoint :: "subscriber \<Rightarrow> subscriber_endpoint option \<Rightarrow> subscriber_endpoint" where
  "merged_endpoint s old =
     (case old of Some ep \<Rightarrow> ep\<lparr>ep_subscriber := s\<rparr> | None \<Rightarrow> subscriber_endpoint_new s)"

lemma endpoint_update: "ep\<lparr>ep_subscriber := s\<rparr> = \<lparr>ep_subscriber = s, ep_breaker = ep_breaker ep\<rparr>"
  by (cases ep) simp

lemma merge_loop_Cons:
  "merge_loop ul (s # ss) eps =
     merge_loop ul ss (AList.update (ul_show ul (su_id s)) (merged_endpoint s (map_of eps (ul_show ul (su_id s)))) eps)"
  by (simp add: Let_def merged_endpoint_def split: option.split)

lemma merge_loop_map_of:
  assumes "uuid_lib_ok ul" and "distinct (map su_id ss)"
  shows "map_of (merge_loop ul ss eps) i =
     (case List.find (\<lambda>s. ul_show ul (su_id s) = i) ss of
        Some s \<Rightarrow> Some (merged_endpoint s (map_of eps i)) | None \<Rightarrow> map_of eps i)"
  using assms(2)
proof (induction ss arbitrary: eps)
  case Nil
  then show ?case by simp
next
  case (Cons s ss)
  have "List.find (\<lambda>t. ul_show ul (su_id t) = ul_show ul (su_id s)) ss = None"
    using Cons.prems by (auto simp: find_None_iff ul_show_inj [OF assms(1)] image_iff)
  with Cons show ?case by (auto simp: merge_loop_Cons simp del: merge_loop.simps split: option.split)
qed

text \<open>A refresh keeps the breakers. After merging a snapshot of the active subscribers, exactly
  those have an endpoint, each with the subscriber's new data; an endpoint that was there keeps its
  circuit breaker, a new one starts closed; distinct keys and sound breakers are preserved.\<close>

theorem merge_subscribers_spec:
  assumes "uuid_lib_ok ul" and "endpoints_ok eps" and "distinct (map su_id ss)"
  shows "endpoints_ok (merge_subscribers ul ss eps) \<and>
         dom (map_of (merge_subscribers ul ss eps)) = (\<lambda>s. ul_show ul (su_id s)) ` set ss \<and>
         (\<forall>s \<in> set ss. map_of (merge_subscribers ul ss eps) (ul_show ul (su_id s)) =
            Some \<lparr>ep_subscriber = s,
                  ep_breaker = (case map_of eps (ul_show ul (su_id s)) of
                                  Some ep \<Rightarrow> ep_breaker ep
                                | None \<Rightarrow> circuit_breaker_new default_circuit_breaker_config)\<rparr>)"
proof -
  let ?key = "\<lambda>s. ul_show ul (su_id s)"
  let ?kept = "filter (\<lambda>(i, _). i \<in> set (map ?key ss)) eps"
  have kept: "map_of ?kept i = (if i \<in> ?key ` set ss then map_of eps i else None)" for i
    using map_of_filter_key [of "\<lambda>i. i \<in> set (map ?key ss)" eps i] by simp
  have find: "List.find (\<lambda>t. ?key t = ?key s) ss = Some s" if "s \<in> set ss" for s
    using that assms(3) by (induction ss) (auto simp: ul_show_inj [OF assms(1)])
  have no: "List.find (\<lambda>t. ?key t = i) ss = None" if "i \<notin> ?key ` set ss" for i
    using that by (auto simp: find_None_iff)
  have mo: "map_of (merge_subscribers ul ss eps) i =
      (case List.find (\<lambda>s. ?key s = i) ss of Some s \<Rightarrow> Some (merged_endpoint s (map_of ?kept i)) | None \<Rightarrow> map_of ?kept i)" for i
    unfolding merge_subscribers_def Let_def by (rule merge_loop_map_of [OF assms(1,3)])
  have in_dom: "map_of (merge_subscribers ul ss eps) (?key s) = Some \<lparr>ep_subscriber = s,
      ep_breaker = (case map_of eps (?key s) of Some ep \<Rightarrow> ep_breaker ep
                    | None \<Rightarrow> circuit_breaker_new default_circuit_breaker_config)\<rparr>" if "s \<in> set ss" for s
    using that unfolding mo find [OF that] kept
    by (simp add: merged_endpoint_def subscriber_endpoint_new_def endpoint_update split: option.split)
  have "map_of (merge_subscribers ul ss eps) i = None" if "i \<notin> ?key ` set ss" for i
    unfolding mo no [OF that] kept using that by simp
  with in_dom have "i \<in> dom (map_of (merge_subscribers ul ss eps)) \<longleftrightarrow> i \<in> ?key ` set ss" for i
    by (cases "i \<in> ?key ` set ss") (auto simp: domIff)
  then have "dom (map_of (merge_subscribers ul ss eps)) = ?key ` set ss" by blast
  with in_dom merge_subscribers_ok [OF assms(2)] show ?thesis by blast
qed

theorem merge_subscribers_spec_witness:
  "dom (map_of (merge_subscribers decimal_uuids [sample_subscriber 2 ''b'']
     [(''1'', subscriber_endpoint_new (sample_subscriber 1 ''a''))])) = {''2''}"
proof -
  have "endpoints_ok [(''1'', subscriber_endpoint_new (sample_subscriber 1 ''a''))]"
    by (simp add: endpoints_ok_def)
  moreover have "distinct (map su_id [sample_subscriber 2 ''b''])" by simp
  moreover have "ul_show decimal_uuids (su_id (sample_subscriber 2 ''b'')) = ''2''" by (simp add: sample_subscriber_def decimal_eval)
  ultimately show ?thesis
    using merge_subscribers_spec [OF decimal_uuids_ok,
        of "[(''1'', subscriber_endpoint_new (sample_subscriber 1 ''a''))]" "[sample_subscriber 2 ''b'']"]
    by simp
qed

section \<open>One delivery, step by step\<close>

text \<open>The endpoint a delivery works on.\<close>

definition endpoint_for :: "uuid_lib \<Rightarrow> subscriber \<Rightarrow> endpoints \<Rightarrow> subscriber_endpoint" where
  "endpoint_for ul s eps =
     (case map_of eps (ul_show ul (su_id s)) of Some ep \<Rightarrow> ep | None \<Rightarrow> subscriber_endpoint_new s)"

lemma dispatch_begin_eq:
  "dispatch_begin ul now s eps =
     (let i = ul_show ul (su_id s); ep = endpoint_for ul s eps; (b, cb) = can_execute now (ep_breaker ep)
      in (if b then Ok (su_grpc_endpoint (ep_subscriber ep)) else Err (breaker_open_result i),
          AList.update i (ep\<lparr>ep_breaker := cb\<rparr>) eps))"
  by (simp add: dispatch_begin_def endpoint_for_def endpoint_address_def Let_def split: prod.split)

text \<open>One delivery. When the endpoint's breaker refuses, the subscriber is not called and the
  result says so; otherwise the subscriber's registered address is called once, the result reports
  its outcome (a call longer than the timeout is a timeout), and the breaker records a success
  exactly when the call itself succeeded, whatever the subscriber said in its answer. The other
  endpoints are left alone and the endpoints stay sound.\<close>

theorem dispatch_spec:
  assumes "endpoints_ok (dp_endpoints dp)"
  shows "case dispatch ul notify ta tb dp s request n of (r, dp', n') \<Rightarrow>
           let i = ul_show ul (su_id s);
               ep = endpoint_for ul s (dp_endpoints dp);
               (allowed, cb) = can_execute ta (ep_breaker ep);
               (result, n1) = deliver_with_timeout (dp_request_timeout dp) notify
                                (su_grpc_endpoint (ep_subscriber ep)) request n
           in endpoints_ok (dp_endpoints dp') \<and>
              (\<forall>j. j \<noteq> i \<longrightarrow> map_of (dp_endpoints dp') j = map_of (dp_endpoints dp) j) \<and>
              (if allowed
               then r = outcome_to_delivery_result i result \<and> n' = n1 \<and>
                    map_of (dp_endpoints dp') i =
                      Some (ep\<lparr>ep_breaker := (if is_ok result then record_success cb else record_failure tb cb)\<rparr>)
               else r = breaker_open_result i \<and> n' = n \<and>
                    map_of (dp_endpoints dp') i = Some (ep\<lparr>ep_breaker := cb\<rparr>))"
proof -
  let ?i = "ul_show ul (su_id s)"
  let ?ep = "endpoint_for ul s (dp_endpoints dp)"
  obtain b cb where c: "can_execute ta (ep_breaker ?ep) = (b, cb)" by fastforce
  obtain result n1 where d: "deliver_with_timeout (dp_request_timeout dp) notify
      (su_grpc_endpoint (ep_subscriber ?ep)) request n = (result, n1)" by fastforce
  let ?eps = "AList.update ?i (?ep\<lparr>ep_breaker := cb\<rparr>) (dp_endpoints dp)"
  have bg: "dispatch_begin ul ta s (dp_endpoints dp) =
      (if b then Ok (su_grpc_endpoint (ep_subscriber ?ep)) else Err (breaker_open_result ?i), ?eps)"
    by (simp add: dispatch_begin_eq c Let_def)
  have ok1: "endpoints_ok ?eps" using dispatch_begin_ok [OF assms bg] .
  have ok2: "endpoints_ok (record_outcome tb ?i result ?eps)" by (rule record_outcome_ok [OF ok1])
  have rec: "map_of (record_outcome tb ?i result ?eps) j =
      (if j = ?i then Some (?ep\<lparr>ep_breaker := (if is_ok result then record_success cb else record_failure tb cb)\<rparr>)
       else map_of (dp_endpoints dp) j)" for j
    by (cases result) (simp_all add: record_outcome_def)
  show ?thesis
  proof (cases b)
    case True
    then show ?thesis using bg c d ok2 rec by (simp add: dispatch_def Let_def)
  next
    case False
    then show ?thesis using bg c d ok1 by (simp add: dispatch_def Let_def)
  qed
qed

definition declining_notifier :: "unit subscriber_notifier" where
  "declining_notifier addr request n =
     ((Ok \<lparr>no_success = False, no_error = ''rejected'', no_retry = False, no_retry_delay_ms = 0\<rparr>, 5), n)"

definition silent_notifier :: "unit subscriber_notifier" where
  "silent_notifier addr request n = ((Err (NE_Transport ''unreachable''), 20000), n)"

definition sample_notification :: deliver_notification where
  "sample_notification =
     \<lparr>dn_message_id = ''m'', dn_topic = ''orders.eu'', dn_payload = [], dn_headers = [], dn_timestamp = 0,
      dn_event_type = [], dn_retry_count = 0\<rparr>"

definition idle_subscriber_repository :: "unit subscriber_repository" where
  "idle_subscriber_repository =
     \<lparr>sr_create = (\<lambda>u s. (Ok (), s)), sr_get_by_id = (\<lambda>i s. (Err (SE_NotFound i), s)),
      sr_get_all_active = (\<lambda>s. (Ok [], s)), sr_update = (\<lambda>u s. (Ok (), s)),
      sr_delete = (\<lambda>i s. (Ok (), s)), sr_deactivate = (\<lambda>i s. (Ok (), s))\<rparr>"

theorem dispatch_spec_witness:
  "case dispatch decimal_uuids silent_notifier 0 1 (subscriber_dispatcher_new idle_subscriber_repository)
          (sample_subscriber 1 ''a'') sample_notification () of
     (r, dp', n') \<Rightarrow> dr_error r = Some ''Request timeout'' \<and> endpoints_ok (dp_endpoints dp')"
proof -
  have ok: "endpoints_ok (dp_endpoints (subscriber_dispatcher_new idle_subscriber_repository))"
    by (simp add: subscriber_dispatcher_new_def endpoints_ok_def)
  have "dr_error (fst (dispatch decimal_uuids silent_notifier 0 1 (subscriber_dispatcher_new idle_subscriber_repository)
          (sample_subscriber 1 ''a'') sample_notification ())) = Some ''Request timeout''"
    by (simp add: dispatch_def dispatch_begin_def can_execute_def subscriber_dispatcher_new_def
        subscriber_endpoint_new_def circuit_breaker_new_def deliver_with_timeout_def silent_notifier_def
        outcome_to_delivery_result_def Let_def)
  then show ?thesis
    using dispatch_spec [OF ok, where ul = decimal_uuids and notify = silent_notifier and s = "sample_subscriber 1 ''a''"
      and ta = 0 and tb = 1 and request = sample_notification and n = "()"]
    by (auto simp: Let_def split: prod.splits)
qed

text \<open>Refusals never open a breaker. A subscriber that answers every delivery in time, but
  always with \<open>success = false\<close>, keeps its breaker closed with no failure counted, however often it
  is tried.\<close>

theorem refusals_never_open:
  assumes "endpoints_ok (dp_endpoints dp)"
    and "map_of (dp_endpoints dp) (ul_show ul (su_id s)) = Some ep"
    and "cb_state (ep_breaker ep) = Closed" and "cb_failures (ep_breaker ep) = 0"
    and answers: "\<And>addr req m. case notify addr req m of ((r, took), m') \<Rightarrow> is_ok r \<and> took \<le> dp_request_timeout dp"
  shows "case dispatch_each ul notify clock c request (replicate k s) dp n of (rs, dp', n') \<Rightarrow>
           \<exists>ep'. map_of (dp_endpoints dp') (ul_show ul (su_id s)) = Some ep' \<and>
             cb_state (ep_breaker ep') = Closed \<and> cb_failures (ep_breaker ep') = 0"
  using assms
proof (induction k arbitrary: dp ep n c)
  case 0
  then show ?case by simp
next
  case (Suc k)
  let ?i = "ul_show ul (su_id s)"
  obtain r dp1 n1 where d: "dispatch ul notify (clock c) (clock (Suc c)) dp s request n = (r, dp1, n1)"
    by (metis prod_cases3)
  have for_ep: "endpoint_for ul s (dp_endpoints dp) = ep" using Suc.prems(2) by (simp add: endpoint_for_def)
  have can: "can_execute (clock c) (ep_breaker ep) = (True, ep_breaker ep)"
    using Suc.prems(3) by (simp add: can_execute_def)
  obtain result n2 where dl: "deliver_with_timeout (dp_request_timeout dp) notify
      (su_grpc_endpoint (ep_subscriber ep)) request n = (result, n2)" by fastforce
  have "is_ok result"
    using dl Suc.prems(5) [of "su_grpc_endpoint (ep_subscriber ep)" request n]
    by (auto simp: deliver_with_timeout_def split: prod.splits if_splits)
  with dispatch_spec [OF Suc.prems(1), where ul = ul and notify = notify and ta = "clock c"
        and tb = "clock (Suc c)" and s = s and request = request and n = n] d for_ep can dl
  have ok1: "endpoints_ok (dp_endpoints dp1)"
    and ep1: "map_of (dp_endpoints dp1) ?i = Some (ep\<lparr>ep_breaker := record_success (ep_breaker ep)\<rparr>)"
    by (simp_all add: Let_def)
  have lim: "dp_request_timeout dp1 = dp_request_timeout dp"
    using d by (auto simp: dispatch_def Let_def split: prod.splits sum.splits)
  have cb: "cb_state (record_success (ep_breaker ep)) = Closed" "cb_failures (record_success (ep_breaker ep)) = 0"
    using Suc.prems(3) by (simp_all add: record_success_def)
  obtain rs dp2 n3 where rest: "dispatch_each ul notify clock (c + 2) request (replicate k s) dp1 n1 = (rs, dp2, n3)"
    by (metis prod_cases3)
  from Suc.IH [OF ok1 ep1, of "c + 2" n1] cb Suc.prems(5) lim rest show ?case by (simp add: d)
qed

theorem refusals_never_open_witness:
  "case dispatch_each decimal_uuids declining_notifier int 0 sample_notification (replicate 20 (sample_subscriber 1 ''a''))
          ((subscriber_dispatcher_new idle_subscriber_repository)
             \<lparr>dp_endpoints := [(''1'', subscriber_endpoint_new (sample_subscriber 1 ''a''))]\<rparr>) () of
     (rs, dp', n') \<Rightarrow> \<exists>ep'. map_of (dp_endpoints dp') ''1'' = Some ep' \<and> cb_state (ep_breaker ep') = Closed"
proof -
  let ?dp = "(subscriber_dispatcher_new idle_subscriber_repository)
             \<lparr>dp_endpoints := [(''1'', subscriber_endpoint_new (sample_subscriber 1 ''a''))]\<rparr>"
  have id1: "ul_show decimal_uuids (su_id (sample_subscriber 1 ''a'')) = ''1''" by (simp add: sample_subscriber_def decimal_eval)
  have "endpoints_ok (dp_endpoints ?dp)" by (simp add: endpoints_ok_def)
  moreover have "map_of (dp_endpoints ?dp) (ul_show decimal_uuids (su_id (sample_subscriber 1 ''a''))) =
      Some (subscriber_endpoint_new (sample_subscriber 1 ''a''))" by (simp add: id1)
  moreover have "cb_state (ep_breaker (subscriber_endpoint_new (sample_subscriber 1 ''a''))) = Closed"
    "cb_failures (ep_breaker (subscriber_endpoint_new (sample_subscriber 1 ''a''))) = 0"
    by (simp_all add: subscriber_endpoint_new_def circuit_breaker_new_def)
  moreover have "case declining_notifier addr req m of ((r, took), m') \<Rightarrow> is_ok r \<and> took \<le> dp_request_timeout ?dp"
    for addr req m by (simp add: declining_notifier_def subscriber_dispatcher_new_def)
  ultimately show ?thesis
    using refusals_never_open [where dp = ?dp and ul = decimal_uuids and s = "sample_subscriber 1 ''a''"
        and ep = "subscriber_endpoint_new (sample_subscriber 1 ''a'')" and notify = declining_notifier
        and clock = int and c = 0 and request = sample_notification and k = 20 and n = "()"]
    unfolding id1 by (auto split: prod.splits)
qed

end
