(* ===== verification/Dispatch.thy ===== *)
theory Dispatch
  imports Fifo_Cache Delivery
begin

text \<open>
  \<open>features/consuming/dispatcher.rs\<close>: the message dispatcher of the consumer with its bounded cache
  from topics to matching subscribers. The cache's map is an association list with distinct keys.
\<close>

section \<open>SubscriberCache\<close>

definition default_pattern_cache_capacity :: nat where
  "default_pattern_cache_capacity = 1000"

record subscriber_cache =
  sc_entries :: "(string \<times> subscriber list) list"
  sc_order :: "string list"
  sc_capacity :: nat

definition subscriber_cache_new :: "nat \<Rightarrow> subscriber_cache" where
  "subscriber_cache_new capacity = \<lparr>sc_entries = [], sc_order = [], sc_capacity = capacity\<rparr>"

definition cache_get :: "string \<Rightarrow> subscriber_cache \<Rightarrow> subscriber list option" where
  "cache_get topic c = map_of (sc_entries c) topic"

definition cache_insert :: "string \<Rightarrow> subscriber list \<Rightarrow> subscriber_cache \<Rightarrow> subscriber_cache" where
  "cache_insert topic subscribers c =
     (if map_of (sc_entries c) topic \<noteq> None
      then c\<lparr>sc_entries := AList.update topic subscribers (sc_entries c)\<rparr>
      else
        let c = (if length (sc_entries c) \<ge> sc_capacity c
                 then case sc_order c of
                        [] \<Rightarrow> c
                      | oldest # order \<Rightarrow>
                          c\<lparr>sc_order := order, sc_entries := AList.delete oldest (sc_entries c)\<rparr>
                 else c)
        in c\<lparr>sc_order := sc_order c @ [topic], sc_entries := AList.update topic subscribers (sc_entries c)\<rparr>)"

section \<open>Dispatcher\<close>

record ('s, 'n) message_dispatcher =
  md_subscriber_repository :: "'s subscriber_repository"
  md_pattern_cache :: subscriber_cache
  md_subscriber_dispatcher :: "('s subscriber_dispatcher \<times> 'n subscriber_notifier) option"

definition message_dispatcher_new :: "'s subscriber_repository \<Rightarrow> ('s, 'n) message_dispatcher" where
  "message_dispatcher_new repo =
     \<lparr>md_subscriber_repository = repo, md_pattern_cache = subscriber_cache_new default_pattern_cache_capacity,
      md_subscriber_dispatcher = None\<rparr>"

definition with_subscriber_dispatcher ::
  "'s subscriber_repository \<Rightarrow> 's subscriber_dispatcher \<times> 'n subscriber_notifier \<Rightarrow> ('s, 'n) message_dispatcher" where
  "with_subscriber_dispatcher repo sd =
     \<lparr>md_subscriber_repository = repo, md_pattern_cache = subscriber_cache_new default_pattern_cache_capacity,
      md_subscriber_dispatcher = Some sd\<rparr>"

definition get_subscribers ::
  "string \<Rightarrow> ('s, 'n) message_dispatcher \<Rightarrow> 's \<Rightarrow> (core_error + subscriber list) \<times> ('s, 'n) message_dispatcher \<times> 's" where
  "get_subscribers topic md s =
     (case cache_get topic (md_pattern_cache md) of
        Some cached \<Rightarrow> (Ok cached, md, s)
      | None \<Rightarrow>
          (case sr_get_all_active (md_subscriber_repository md) s of
             (Err e, s1) \<Rightarrow> (Err (CE_Subscriber e), md, s1)
           | (Ok all, s1) \<Rightarrow>
               let matching = filter (\<lambda>u. subscriber_matches_topic u topic) all
               in (Ok matching, md\<lparr>md_pattern_cache := cache_insert topic matching (md_pattern_cache md)\<rparr>, s1)))"

definition dispatcher_dispatch ::
  "uuid_lib \<Rightarrow> (nat \<Rightarrow> timestamp) \<Rightarrow> string \<Rightarrow> bytes \<Rightarrow> ('s, 'n) message_dispatcher \<Rightarrow> runtime \<Rightarrow> 's \<Rightarrow> 'n
     \<Rightarrow> (core_error + nat) \<times> ('s, 'n) message_dispatcher \<times> runtime \<times> 's \<times> 'n" where
  "dispatcher_dispatch ul clock topic payload md rt s n =
     (case md_subscriber_dispatcher md of
        Some (dp, notify) \<Rightarrow>
          let (i, rt1) = now_v7 rt;
              (now, rt2) = utc_now rt1;
              request = \<lparr>dn_message_id = ul_show ul i, dn_topic = topic, dn_payload = payload, dn_headers = [],
                         dn_timestamp = ts_seconds now, dn_event_type = [], dn_retry_count = 0\<rparr>;
              (results, dp1, n1) = dispatch_to_all ul notify clock dp topic request n;
              success_count = length (filter dr_success results)
          in (Ok success_count, md\<lparr>md_subscriber_dispatcher := Some (dp1, notify)\<rparr>, rt2, s, n1)
      | None \<Rightarrow>
          (case get_subscribers topic md s of
             (Err e, md1, s1) \<Rightarrow> (Err e, md1, rt, s1, n)
           | (Ok subscribers, md1, s1) \<Rightarrow> (Ok (length subscribers), md1, rt, s1, n)))"

section \<open>The cache is a bounded FIFO\<close>

definition cache_ok :: "subscriber_cache \<Rightarrow> bool" where
  "cache_ok c \<longleftrightarrow>
     distinct (map fst (sc_entries c)) \<and> distinct (sc_order c) \<and>
     fst ` set (sc_entries c) = set (sc_order c) \<and> length (sc_order c) \<le> max 1 (sc_capacity c)"

lemma cache_ok_new [simp]: "cache_ok (subscriber_cache_new n)"
  by (simp add: cache_ok_def subscriber_cache_new_def)

lemma cache_ok_length: "cache_ok c \<Longrightarrow> length (sc_entries c) = length (sc_order c)"
proof -
  assume "cache_ok c"
  then have "card (fst ` set (sc_entries c)) = length (sc_entries c)" "card (set (sc_order c)) = length (sc_order c)"
    by (auto simp: cache_ok_def distinct_card dest: distinct_card)
  with \<open>cache_ok c\<close> show ?thesis by (simp add: cache_ok_def)
qed

lemma cache_get_None: "cache_ok c \<Longrightarrow> map_of (sc_entries c) t = None \<longleftrightarrow> t \<notin> set (sc_order c)"
  by (auto simp: map_of_eq_None_iff cache_ok_def)

lemma cache_insert_hit:
  assumes "cache_ok c" and "t \<in> set (sc_order c)"
  shows "cache_ok (cache_insert t us c) \<and> sc_order (cache_insert t us c) = sc_order c \<and>
         sc_capacity (cache_insert t us c) = sc_capacity c \<and>
         map_of (sc_entries (cache_insert t us c)) = (map_of (sc_entries c))(t \<mapsto> us)"
proof -
  have "map_of (sc_entries c) t \<noteq> None" using cache_get_None [OF assms(1)] assms(2) by simp
  then have "cache_insert t us c = c\<lparr>sc_entries := AList.update t us (sc_entries c)\<rparr>"
    by (simp add: cache_insert_def)
  with assms show ?thesis
    by (simp add: cache_ok_def distinct_update dom_update insert_absorb)
qed

lemma cache_insert_miss:
  assumes ok: "cache_ok c" and new: "t \<notin> set (sc_order c)"
  defines "n \<equiv> Suc (length (sc_order c)) - sc_capacity c"
  shows "cache_ok (cache_insert t us c) \<and> sc_order (cache_insert t us c) = drop n (sc_order c) @ [t] \<and>
         sc_capacity (cache_insert t us c) = sc_capacity c \<and>
         map_of (sc_entries (cache_insert t us c)) =
           ((map_of (sc_entries c)) |` set (drop n (sc_order c)))(t \<mapsto> us)"
proof -
  have miss: "map_of (sc_entries c) t = None" using cache_get_None [OF ok] new by simp
  have len: "length (sc_entries c) = length (sc_order c)" by (rule cache_ok_length [OF ok])
  have dom: "dom (map_of (sc_entries c)) = set (sc_order c)"
    using ok by (simp add: dom_map_of_conv_image_fst cache_ok_def)
  show ?thesis
  proof (cases "sc_capacity c \<le> length (sc_order c)")
    case False
    then have n: "n = 0" by (simp add: n_def)
    from False miss len have ins: "cache_insert t us c =
        c\<lparr>sc_order := sc_order c @ [t], sc_entries := AList.update t us (sc_entries c)\<rparr>"
      by (simp add: cache_insert_def)
    have "(map_of (sc_entries c)) |` set (sc_order c) = map_of (sc_entries c)"
      unfolding dom [symmetric] by (rule ext) (auto simp: restrict_map_def domIff)
    with False n new ok show ?thesis
      by (auto simp: ins cache_ok_def distinct_update dom_update)
  next
    case True
    show ?thesis
    proof (cases "sc_order c")
      case Nil
      with dom have "sc_entries c = []" by (cases "sc_entries c") auto
      with Nil True miss ok show ?thesis
        by (auto simp: cache_insert_def cache_ok_def n_def restrict_map_def fun_eq_iff)
    next
      case (Cons x xs)
      have drop: "drop n (sc_order c) = xs"
        using True ok Cons by (cases "sc_capacity c") (auto simp: n_def cache_ok_def)
      from True miss len Cons have ins: "cache_insert t us c =
          c\<lparr>sc_order := xs @ [t], sc_entries := AList.update t us (AList.delete x (sc_entries c))\<rparr>"
        by (simp add: cache_insert_def)
      have x: "x \<notin> set xs" using ok Cons by (simp add: cache_ok_def)
      have keys: "fst ` set (AList.delete x (sc_entries c)) = set xs"
        using arg_cong [OF delete_keys [of x "sc_entries c"], of set] ok Cons x by (auto simp: cache_ok_def)
      have restr: "(map_of (sc_entries c)) |` set xs = (map_of (sc_entries c))(x := None)"
        using dom Cons x by (auto simp: restrict_map_def fun_eq_iff)
      have "cache_ok (cache_insert t us c)"
        using ok Cons new keys x by (auto simp: ins cache_ok_def distinct_update distinct_delete
            dom_update)
      then show ?thesis by (simp add: ins drop restr)
    qed
  qed
qed

interpretation cache: fifo_cache sc_order sc_capacity cache_insert cache_ok
proof
  fix c :: subscriber_cache and k :: string and v :: "subscriber list"
  assume ok: "cache_ok c"
  show "cache_ok (cache_insert k v c)"
    using cache_insert_hit [OF ok] cache_insert_miss [OF ok] by (cases "k \<in> set (sc_order c)") simp_all
  show "distinct (sc_order c)" "length (sc_order c) \<le> max 1 (sc_capacity c)"
    using ok by (simp_all add: cache_ok_def)
  show "sc_capacity (cache_insert k v c) = sc_capacity c"
    using cache_insert_hit [OF ok] cache_insert_miss [OF ok] by (cases "k \<in> set (sc_order c)") simp_all
next
  fix c :: subscriber_cache and k :: string and v :: "subscriber list"
  assume "cache_ok c" "k \<in> set (sc_order c)"
  then show "sc_order (cache_insert k v c) = sc_order c" by (simp add: cache_insert_hit)
next
  fix c :: subscriber_cache and k :: string and v :: "subscriber list"
  assume "cache_ok c" "k \<notin> set (sc_order c)"
  then show "sc_order (cache_insert k v c) = drop (Suc (length (sc_order c)) - sc_capacity c) (sc_order c) @ [k]"
    by (simp add: cache_insert_miss)
qed

text \<open>The topic cache. Inserting into a sound cache stores the entry, loses at most the oldest
  one and changes no other; a new entry survives the next insertions of fewer topics than the
  capacity allows; and the cache never holds more entries than its capacity (one, if it is zero).\<close>

theorem cache_insert_spec:
  assumes "cache_ok c"
  shows "cache_ok (cache_insert t us c) \<and>
         cache_get t (cache_insert t us c) = Some us \<and>
         (\<forall>t'. t' \<noteq> t \<longrightarrow> cache_get t' (cache_insert t us c) = cache_get t' c \<or>
            t \<notin> set (sc_order c) \<and> t' = hd (sc_order c) \<and> cache_get t' (cache_insert t us c) = None) \<and>
         length (sc_entries (cache_insert t us c)) \<le> max 1 (sc_capacity c) \<and>
         (t \<notin> set (sc_order c) \<and> length kvs < sc_capacity c \<longrightarrow>
            cache_get t (fold (\<lambda>(k, v). cache_insert k v) kvs (cache_insert t us c)) \<noteq> None)"
proof -
  let ?c = "cache_insert t us c"
  have ok: "cache_ok ?c" using cache.put_ok [OF assms] .
  have get: "cache_get t ?c = Some us"
    using cache_insert_hit [OF assms] cache_insert_miss [OF assms]
    by (cases "t \<in> set (sc_order c)") (simp_all add: cache_get_def)
  have others: "cache_get t' ?c = cache_get t' c \<or>
      t \<notin> set (sc_order c) \<and> t' = hd (sc_order c) \<and> cache_get t' ?c = None" if "t' \<noteq> t" for t'
  proof (cases "t \<in> set (sc_order c)")
    case True
    with cache_insert_hit [OF assms True] that show ?thesis by (simp add: cache_get_def)
  next
    case False
    let ?n = "Suc (length (sc_order c)) - sc_capacity c"
    have new: "cache_get t' ?c = (if t' \<in> set (drop ?n (sc_order c)) then cache_get t' c else None)"
      using cache_insert_miss [OF assms False] that by (simp add: cache_get_def restrict_map_def)
    show ?thesis
    proof (cases "t' \<in> set (sc_order c)")
      case out: False
      then have "cache_get t' c = None" using cache_get_None [OF assms] by (simp add: cache_get_def)
      with new show ?thesis by simp
    next
      case True
      then obtain x xs where order: "sc_order c = x # xs" by (cases "sc_order c") auto
      have "drop 1 (sc_order c) = drop ?n (sc_order c) \<or> ?n = 0"
      proof -
        from assms order have "length (sc_order c) \<le> max 1 (sc_capacity c)" by (simp add: cache_ok_def)
        with order have "xs = [] \<or> ?n = 0 \<or> ?n = 1" by (cases xs) (auto simp: max_def split: if_splits)
        then show ?thesis using order by (elim disjE) (cases ?n; simp)+
      qed
      with new True order False show ?thesis by auto
    qed
  qed
  have len: "length (sc_entries ?c) \<le> max 1 (sc_capacity c)"
    using cache_ok_length [OF ok] cache.ok_bound [OF ok] cache.put_cap [OF assms, of t us] by simp
  have stay: "cache_get t (fold (\<lambda>(k, v). cache_insert k v) kvs ?c) \<noteq> None"
    if "t \<notin> set (sc_order c) \<and> length kvs < sc_capacity c"
  proof -
    from cache.put_then_puts [OF assms, of t kvs us] that
    have "t \<in> set (sc_order (fold (\<lambda>(k, v). cache_insert k v) kvs ?c))" by (simp add: cache.puts_def)
    moreover have "cache_ok (fold (\<lambda>(k, v). cache_insert k v) kvs ?c)"
      using cache.puts_ok [OF ok, of kvs] by (simp add: cache.puts_def)
    ultimately show ?thesis by (simp add: cache_get_def cache_get_None)
  qed
  from ok get others len stay show ?thesis by blast
qed

theorem cache_insert_spec_witness:
  "cache_get ''b'' (cache_insert ''c'' [] (cache_insert ''b'' [] (cache_insert ''a'' [] (subscriber_cache_new 2)))) \<noteq> None"
proof -
  have ok: "cache_ok (cache_insert ''a'' [] (subscriber_cache_new 2))"
    by (rule cache.put_ok) simp
  have "sc_order (cache_insert ''a'' [] (subscriber_cache_new 2)) = [''a'']"
    "sc_capacity (cache_insert ''a'' [] (subscriber_cache_new 2)) = 2"
    by (simp_all add: cache_insert_def subscriber_cache_new_def)
  with cache_insert_spec [OF ok, of "''b''" "[]" "[(''c'', [])]"] show ?thesis by simp
qed

section \<open>Looking up subscribers\<close>

context subscriber_port begin

text \<open>A miss asks the store; a hit answers from the cache, whatever the store holds by now.\<close>

lemma get_subscribers_law:
  assumes "ok s" and "md_subscriber_repository md = repo"
    and run: "get_subscribers topic md s = (r, md', s')"
  shows "ok s' \<and> tab s' = tab s \<and>
         (case cache_get topic (md_pattern_cache md) of
            Some us \<Rightarrow> r = Ok us \<and> md' = md
          | None \<Rightarrow> \<forall>us. r = Ok us \<longrightarrow> distinct (map su_id us) \<and>
              su_id ` set us = {i. \<exists>n. tab s i = Some n \<and> sn_active n \<and> matches_any topic (sn_patterns n)} \<and>
              (cache_ok (md_pattern_cache md) \<longrightarrow> cache_get topic (md_pattern_cache md') = Some us))"
proof (cases "cache_get topic (md_pattern_cache md)")
  case (Some us)
  with run assms(1) show ?thesis by (simp add: get_subscribers_def)
next
  case None
  obtain c s1 where c: "sr_get_all_active repo s = (c, s1)" by fastforce
  note law = get_all_active_law [OF assms(1) c]
  show ?thesis
  proof (cases c)
    case (Inl e)
    with None run c assms law show ?thesis by (auto simp: get_subscribers_def)
  next
    case (Inr all)
    let ?us = "filter (\<lambda>u. subscriber_matches_topic u topic) all"
    from None run c assms Inr have r: "r = Ok ?us" and s': "s' = s1"
      and md': "md_pattern_cache md' = cache_insert topic ?us (md_pattern_cache md)"
      by (auto simp: get_subscribers_def Let_def)
    from law Inr have dist: "distinct (map su_id all)"
      and entries: "\<forall>u \<in> set all. tab s (su_id u) = Some (subscription_of u)"
      and active: "su_id ` set all = {i. \<exists>n. tab s i = Some n \<and> sn_active n}" by auto
    have "su_id ` set ?us = {i. \<exists>n. tab s i = Some n \<and> sn_active n \<and> matches_any topic (sn_patterns n)}"
    proof (rule set_eqI)
      fix i
      show "i \<in> su_id ` set ?us \<longleftrightarrow> i \<in> {i. \<exists>n. tab s i = Some n \<and> sn_active n \<and> matches_any topic (sn_patterns n)}"
      proof
        assume "i \<in> su_id ` set ?us"
        then obtain u where u: "u \<in> set all" "subscriber_matches_topic u topic" "su_id u = i" by auto
        with entries have "tab s i = Some (subscription_of u)" by auto
        moreover from u(1,3) active have "\<exists>n. tab s i = Some n \<and> sn_active n" by blast
        ultimately show "i \<in> {i. \<exists>n. tab s i = Some n \<and> sn_active n \<and> matches_any topic (sn_patterns n)}"
          using u(2) by (auto simp: subscriber_matches_topic_def subscription_of_def)
      next
        assume "i \<in> {i. \<exists>n. tab s i = Some n \<and> sn_active n \<and> matches_any topic (sn_patterns n)}"
        then obtain n where n: "tab s i = Some n" "sn_active n" "matches_any topic (sn_patterns n)" by blast
        then have "i \<in> su_id ` set all" unfolding active by blast
        then obtain u where u: "u \<in> set all" and i: "i = su_id u" by (rule imageE)
        from bspec [OF entries u] n(1) i have "n = subscription_of u" by simp
        with n(3) have "subscriber_matches_topic u topic"
          by (simp add: subscriber_matches_topic_def subscription_of_def)
        with u have "u \<in> set ?us" by simp
        then show "i \<in> su_id ` set ?us" unfolding i by (rule imageI)
      qed
    qed
    moreover have "distinct (map su_id ?us)" using dist by (rule distinct_map_filter)
    moreover have "cache_get topic (md_pattern_cache md') = Some ?us" if ok: "cache_ok (md_pattern_cache md)"
    proof (cases "topic \<in> set (sc_order (md_pattern_cache md))")
      case True
      then show ?thesis using cache_insert_hit [OF ok True] by (simp add: md' cache_get_def)
    next
      case False
      then show ?thesis using cache_insert_miss [OF ok False] by (simp add: md' cache_get_def)
    qed
    ultimately show ?thesis using None law s' r by simp
  qed
qed

end

end
