(* ===== verification/Db_Subscriber.thy ===== *)
theory Db_Subscriber
  imports Dispatch Db_Table
begin

text \<open>
  \<open>crates/rs-broker-db/src/subscriber/repository.rs\<close>, the Postgres implementation of the subscriber
  port, one definition per method, and its interpretation of \<open>subscriber_port\<close>; then what the
  registry and the consumer's topic cache do over it.
\<close>

section \<open>Rows and subscribers\<close>

definition subscriber_of_row :: "subscriber_row \<Rightarrow> subscriber" where
  "subscriber_of_row r =
     \<lparr>su_id = sw_id r, su_service_name = sw_service_name r, su_grpc_endpoint = sw_grpc_endpoint r,
      su_topic_patterns = sw_topic_patterns r, su_active = sw_active r, su_delivery_config = sw_delivery_config r,
      su_registered_at = sw_registered_at r, su_updated_at = sw_updated_at r\<rparr>"

definition subscriber_row_of :: "uuid_lib \<Rightarrow> subscriber \<Rightarrow> subscriber_row" where
  "subscriber_row_of ul u =
     \<lparr>sw_id = su_id u, sw_subscriber_id = ul_show ul (su_id u), sw_service_name = su_service_name u,
      sw_grpc_endpoint = su_grpc_endpoint u, sw_topic_patterns = su_topic_patterns u, sw_active = su_active u,
      sw_delivery_config = su_delivery_config u, sw_registered_at = su_registered_at u,
      sw_updated_at = su_updated_at u\<rparr>"

lemma subscriber_row_roundtrip [simp]: "subscriber_of_row (subscriber_row_of ul u) = u"
  by (simp add: subscriber_of_row_def subscriber_row_of_def)

lemma subscriber_row_ids [simp]: "su_id (subscriber_of_row r) = sw_id r" "sw_id (subscriber_row_of ul u) = su_id u"
  by (simp_all add: subscriber_of_row_def subscriber_row_of_def)

section \<open>The statements\<close>

definition subscriber_storage :: "db \<Rightarrow> sqlx_error \<Rightarrow> subscriber_error" where
  "subscriber_storage d e = SE_Database (db_error_text d e)"

definition subscriber_stmt :: "'a statement \<Rightarrow> db \<Rightarrow> (subscriber_error + 'a) \<times> db" where
  "subscriber_stmt stmt d = apfst (map_err (subscriber_storage d)) (run_statement stmt d)"

definition pg_subscriber_create :: "uuid_lib \<Rightarrow> subscriber \<Rightarrow> db \<Rightarrow> (subscriber_error + unit) \<times> db" where
  "pg_subscriber_create ul u d =
     subscriber_stmt (\<lambda>env d. map_ok (\<lambda>rs. ((), d\<lparr>db_subscribers := rs\<rparr>))
       (insert_rows subscriber_row_check subscribers_unique [subscriber_row_of ul u] (db_subscribers d))) d"

definition pg_subscriber_get_by_id :: "uuid \<Rightarrow> db \<Rightarrow> (subscriber_error + subscriber) \<times> db" where
  "pg_subscriber_get_by_id i d =
     subscriber_stmt (\<lambda>env d. case row_at sw_id (db_subscribers d) i of
                                None \<Rightarrow> Err RowNotFound
                              | Some r \<Rightarrow> Ok (subscriber_of_row r, d)) d"

definition pg_subscriber_get_all_active :: "db \<Rightarrow> (subscriber_error + subscriber list) \<times> db" where
  "pg_subscriber_get_all_active d =
     subscriber_stmt (\<lambda>env d. Ok (map subscriber_of_row (filter sw_active (db_subscribers d)), d)) d"

text \<open>An \<open>UPDATE\<close> of one row; both statements assign \<open>updated_at = NOW()\<close>, and so does the trigger.\<close>

definition subscriber_update_row :: "uuid \<Rightarrow> (subscriber_row \<Rightarrow> subscriber_row) \<Rightarrow> unit statement" where
  "subscriber_update_row i f env d =
     map_ok (\<lambda>rs. ((), d\<lparr>db_subscribers := rs\<rparr>))
       (update_rows subscriber_row_check (\<lambda>r. sw_id r = i) (\<lambda>r. (f r)\<lparr>sw_updated_at := db_now d\<rparr>) (db_subscribers d))"

definition pg_subscriber_update :: "subscriber \<Rightarrow> db \<Rightarrow> (subscriber_error + unit) \<times> db" where
  "pg_subscriber_update u d =
     subscriber_stmt (subscriber_update_row (su_id u)
       (\<lambda>r. r\<lparr>sw_service_name := su_service_name u, sw_grpc_endpoint := su_grpc_endpoint u,
             sw_topic_patterns := su_topic_patterns u, sw_active := su_active u,
             sw_delivery_config := su_delivery_config u\<rparr>)) d"

definition pg_subscriber_delete :: "uuid \<Rightarrow> db \<Rightarrow> (subscriber_error + unit) \<times> db" where
  "pg_subscriber_delete i d =
     subscriber_stmt (\<lambda>env d. Ok ((), d\<lparr>db_subscribers := delete_rows (\<lambda>r. sw_id r = i) (db_subscribers d)\<rparr>)) d"

definition pg_subscriber_deactivate :: "uuid \<Rightarrow> db \<Rightarrow> (subscriber_error + unit) \<times> db" where
  "pg_subscriber_deactivate i d = subscriber_stmt (subscriber_update_row i (\<lambda>r. r\<lparr>sw_active := False\<rparr>)) d"

definition pg_subscriber_repository :: "uuid_lib \<Rightarrow> db subscriber_repository" where
  "pg_subscriber_repository ul =
     \<lparr>sr_create = pg_subscriber_create ul, sr_get_by_id = pg_subscriber_get_by_id,
      sr_get_all_active = pg_subscriber_get_all_active, sr_update = pg_subscriber_update,
      sr_delete = pg_subscriber_delete, sr_deactivate = pg_subscriber_deactivate\<rparr>"

section \<open>The repository keeps the contract\<close>

definition subscriber_view :: "subscriber_row \<Rightarrow> subscription" where
  "subscriber_view r = subscription_of (subscriber_of_row r)"

definition pg_subscriptions :: "db \<Rightarrow> subscriptions" where
  "pg_subscriptions d = table_map sw_id subscriber_view (db_subscribers d)"

definition pg_subscribers_ok :: "db \<Rightarrow> bool" where
  "pg_subscribers_ok d = table_ok subscriber_row_check subscribers_unique (db_subscribers d)"

interpretation subs: db_table db_subscribers sw_id subscriber_view subscriber_row_check subscribers_unique
proof
  fix d env d1 assume "next_env d = (env, d1)"
  then show "db_subscribers d1 = db_subscribers d" by (auto dest: next_env_tables)
qed (auto simp: subscribers_unique_def distinct_map_filter)

lemma subscriber_view_row [simp]: "subscriber_view (subscriber_row_of ul u) = subscription_of u"
  by (simp add: subscriber_view_def)

lemma pg_subscriber_create_law:
  assumes ok: "pg_subscribers_ok s" and run: "pg_subscriber_create ul u s = (r, s')"
  shows "pg_subscribers_ok s' \<and>
         effect r (pg_subscriptions s) ((pg_subscriptions s)(su_id u \<mapsto> subscription_of u)) (pg_subscriptions s') \<and>
         (pg_subscriptions s' \<noteq> pg_subscriptions s \<or> is_ok r \<longrightarrow> su_id u \<notin> dom (pg_subscriptions s))"
proof -
  have "pg_subscribers_ok s' \<and>
      effect r (pg_subscriptions s) ((pg_subscriptions s)(su_id u \<mapsto> subscription_of u)) (pg_subscriptions s') \<and>
      (is_ok r \<or> pg_subscriptions s' \<noteq> pg_subscriptions s \<longrightarrow> (\<exists>a::unit. su_id u \<notin> dom (pg_subscriptions s))) \<and>
      (\<forall>a. r = Ok a \<longrightarrow> su_id u \<notin> dom (pg_subscriptions s))"
    unfolding pg_subscribers_ok_def pg_subscriptions_def
  proof (rule subs.method_law [OF run [unfolded pg_subscriber_create_def subscriber_stmt_def] ok [unfolded pg_subscribers_ok_def]])
    fix env :: stmt_env and d1 d2 :: db and a :: unit
    assume rows: "db_subscribers d1 = db_subscribers s"
      and "map_ok (\<lambda>rs. ((), d1\<lparr>db_subscribers := rs\<rparr>))
          (insert_rows subscriber_row_check subscribers_unique [subscriber_row_of ul u] (db_subscribers d1)) = Ok (a, d2)"
    then obtain rs where d2: "d2 = d1\<lparr>db_subscribers := rs\<rparr>"
      and ins: "insert_rows subscriber_row_check subscribers_unique [subscriber_row_of ul u] (db_subscribers s) = Ok rs" by auto
    from subs.insert_one [OF ok [unfolded pg_subscribers_ok_def] ins]
    show "table_ok subscriber_row_check subscribers_unique (db_subscribers d2) \<and>
        subs.table d2 = (subs.table s)(su_id u \<mapsto> subscription_of u) \<and> su_id u \<notin> dom (subs.table s)"
      by (simp add: d2)
  qed
  then show ?thesis by blast
qed

lemma pg_subscriber_get_by_id_law:
  assumes ok: "pg_subscribers_ok s" and run: "pg_subscriber_get_by_id i s = (r, s')"
  shows "pg_subscribers_ok s' \<and> pg_subscriptions s' = pg_subscriptions s \<and>
         (\<forall>u. r = Ok u \<longrightarrow> su_id u = i \<and> pg_subscriptions s i = Some (subscription_of u))"
  unfolding pg_subscribers_ok_def pg_subscriptions_def
  by (rule subs.query_law [OF run [unfolded pg_subscriber_get_by_id_def subscriber_stmt_def] ok [unfolded pg_subscribers_ok_def]])
     (auto simp: table_map_def subscriber_view_def split: option.splits dest: row_at_key)

lemma pg_subscriber_get_all_active_law:
  assumes ok: "pg_subscribers_ok s" and run: "pg_subscriber_get_all_active s = (r, s')"
  shows "pg_subscribers_ok s' \<and> pg_subscriptions s' = pg_subscriptions s \<and>
         (\<forall>us. r = Ok us \<longrightarrow> distinct (map su_id us) \<and>
            (\<forall>u \<in> set us. pg_subscriptions s (su_id u) = Some (subscription_of u)) \<and>
            su_id ` set us = {i. \<exists>n. pg_subscriptions s i = Some n \<and> sn_active n})"
  unfolding pg_subscribers_ok_def pg_subscriptions_def
proof (rule subs.query_law [OF run [unfolded pg_subscriber_get_all_active_def subscriber_stmt_def] ok [unfolded pg_subscribers_ok_def]])
  fix env :: stmt_env and d1 d2 :: db and us
  assume rows: "db_subscribers d1 = db_subscribers s"
    and "Ok (map subscriber_of_row (filter sw_active (db_subscribers d1)), d1) = Ok (us, d2)"
  then have d2: "d2 = d1" and us: "us = map subscriber_of_row (filter sw_active (db_subscribers s))" by auto
  have row: "subs.table s (sw_id r) = Some (subscriber_view r)" if "r \<in> set (db_subscribers s)" for r
    using subs.row_in_table [OF ok [unfolded pg_subscribers_ok_def] that] .
  have act: "sn_active (subscriber_view r) = sw_active r" for r
    by (simp add: subscriber_view_def subscription_of_def subscriber_of_row_def)
  have "distinct (map su_id us)"
    using ok by (simp add: us comp_def pg_subscribers_ok_def table_ok_def subscribers_unique_def distinct_map_filter)
  moreover have "\<forall>u \<in> set us. subs.table s (su_id u) = Some (subscription_of u)"
    using row by (auto simp: us subscriber_view_def)
  moreover have "su_id ` set us = {i. \<exists>n. subs.table s i = Some n \<and> sn_active n}"
  proof (rule set_eqI, rule iffI)
    fix i assume "i \<in> su_id ` set us"
    then obtain r where "r \<in> set (db_subscribers s)" "sw_active r" "i = sw_id r" by (auto simp: us)
    with row act show "i \<in> {i. \<exists>n. subs.table s i = Some n \<and> sn_active n}" by auto
  next
    fix i assume "i \<in> {i. \<exists>n. subs.table s i = Some n \<and> sn_active n}"
    then obtain n where n: "subs.table s i = Some n" "sn_active n" by blast
    from table_map_Some [OF n(1)] obtain r where "r \<in> set (db_subscribers s)" "sw_id r = i" "subscriber_view r = n"
      by blast
    with n(2) act have "subscriber_of_row r \<in> set us" by (auto simp: us)
    then show "i \<in> su_id ` set us" by (rule rev_image_eqI) (simp add: \<open>sw_id r = i\<close>)
  qed
  ultimately show "d2 = d1 \<and> distinct (map su_id us) \<and>
      (\<forall>u \<in> set us. subs.table s (su_id u) = Some (subscription_of u)) \<and>
      su_id ` set us = {i. \<exists>n. subs.table s i = Some n \<and> sn_active n}"
    using d2 by blast
qed

lemma subscriber_update_row_law:
  assumes ok: "pg_subscribers_ok s" and run: "subscriber_stmt (subscriber_update_row i f) s = (r, s')"
    and key: "\<And>r. sw_id (f r) = sw_id r" "\<And>r. sw_subscriber_id (f r) = sw_subscriber_id r"
    and view: "\<And>r t. subscriber_view ((f r)\<lparr>sw_updated_at := t\<rparr>) = F (subscriber_view r)"
  shows "pg_subscribers_ok s' \<and> effect r (pg_subscriptions s) (on_subscription i F (pg_subscriptions s)) (pg_subscriptions s')"
proof -
  have "pg_subscribers_ok s' \<and> effect r (pg_subscriptions s) (on_subscription i F (pg_subscriptions s)) (pg_subscriptions s') \<and>
      (is_ok r \<or> pg_subscriptions s' \<noteq> pg_subscriptions s \<longrightarrow> (\<exists>a::unit. True)) \<and> (\<forall>a. r = Ok a \<longrightarrow> True)"
    unfolding pg_subscribers_ok_def pg_subscriptions_def
  proof (rule subs.method_law [OF run [unfolded subscriber_stmt_def] ok [unfolded pg_subscribers_ok_def]])
    fix env :: stmt_env and d1 d2 :: db and a :: unit
    assume rows: "db_subscribers d1 = db_subscribers s" and eff: "subscriber_update_row i f env d1 = Ok (a, d2)"
    from eff obtain rs where d2: "d2 = d1\<lparr>db_subscribers := rs\<rparr>" and upd: "update_rows subscriber_row_check
        (\<lambda>r. sw_id r = i) (\<lambda>r. (f r)\<lparr>sw_updated_at := db_now d1\<rparr>) (db_subscribers s) = Ok rs"
      by (auto simp: subscriber_update_row_def rows)
    have "table_ok subscriber_row_check subscribers_unique rs \<and>
        table_map sw_id subscriber_view rs = (subs.table s)(i := map_option F (subs.table s i))"
      by (rule subs.update_table [OF ok [unfolded pg_subscribers_ok_def] upd])
         (simp_all add: key view subscribers_unique_def map_if_same del: map_map)
    then show "table_ok subscriber_row_check subscribers_unique (db_subscribers d2) \<and>
        subs.table d2 = on_subscription i F (subs.table s) \<and> True"
      by (simp add: d2 on_subscription_def)
  qed
  then show ?thesis by blast
qed

lemma pg_subscriber_update_law:
  assumes "pg_subscribers_ok s" and "pg_subscriber_update u s = (r, s')"
  shows "pg_subscribers_ok s' \<and>
         effect r (pg_subscriptions s) (on_subscription (su_id u) (\<lambda>_. subscription_of u) (pg_subscriptions s)) (pg_subscriptions s')"
  by (rule subscriber_update_row_law [OF assms(1) assms(2) [unfolded pg_subscriber_update_def]])
     (simp_all add: subscriber_view_def subscription_of_def subscriber_of_row_def)

lemma pg_subscriber_deactivate_law:
  assumes "pg_subscribers_ok s" and "pg_subscriber_deactivate i s = (r, s')"
  shows "pg_subscribers_ok s' \<and>
         effect r (pg_subscriptions s) (on_subscription i (sn_active_update (\<lambda>_. False)) (pg_subscriptions s)) (pg_subscriptions s')"
  by (rule subscriber_update_row_law [OF assms(1) assms(2) [unfolded pg_subscriber_deactivate_def]])
     (simp_all add: subscriber_view_def subscription_of_def subscriber_of_row_def)

lemma pg_subscriber_delete_law:
  assumes ok: "pg_subscribers_ok s" and run: "pg_subscriber_delete i s = (r, s')"
  shows "pg_subscribers_ok s' \<and> effect r (pg_subscriptions s) ((pg_subscriptions s)(i := None)) (pg_subscriptions s')"
proof -
  have "pg_subscribers_ok s' \<and> effect r (pg_subscriptions s) ((pg_subscriptions s)(i := None)) (pg_subscriptions s') \<and>
      (is_ok r \<or> pg_subscriptions s' \<noteq> pg_subscriptions s \<longrightarrow> (\<exists>a::unit. True)) \<and> (\<forall>a. r = Ok a \<longrightarrow> True)"
    unfolding pg_subscribers_ok_def pg_subscriptions_def
    by (rule subs.method_law [OF run [unfolded pg_subscriber_delete_def subscriber_stmt_def] ok [unfolded pg_subscribers_ok_def]])
       (use subs.delete_table [OF ok [unfolded pg_subscribers_ok_def], of i] in \<open>auto simp del: fun_upd_apply\<close>)
  then show ?thesis by blast
qed

lemma pg_subscriber_repository_simps [simp]:
  "sr_create (pg_subscriber_repository ul) = pg_subscriber_create ul"
  "sr_get_by_id (pg_subscriber_repository ul) = pg_subscriber_get_by_id"
  "sr_get_all_active (pg_subscriber_repository ul) = pg_subscriber_get_all_active"
  "sr_update (pg_subscriber_repository ul) = pg_subscriber_update"
  "sr_delete (pg_subscriber_repository ul) = pg_subscriber_delete"
  "sr_deactivate (pg_subscriber_repository ul) = pg_subscriber_deactivate"
  by (simp_all add: pg_subscriber_repository_def)

interpretation pg_sub: subscriber_port "pg_subscriber_repository ul" pg_subscriptions pg_subscribers_ok for ul
proof (unfold_locales, unfold pg_subscriber_repository_simps)
qed (rule pg_subscriber_create_law pg_subscriber_get_by_id_law pg_subscriber_get_all_active_law
      pg_subscriber_update_law pg_subscriber_delete_law pg_subscriber_deactivate_law; assumption)+

section \<open>The registry and the topic cache on Postgres\<close>

text \<open>C36: Registration over a life cycle. A new subscriber is listed with the name, endpoint and
  patterns it registered with; once it unregistered, the list is what it was but for that subscriber,
  every other active subscriber still being in it.\<close>

theorem register_list_unregister:
  assumes ok: "pg_subscribers_ok d"
    and reg: "registry_register (pg_subscriber_repository ul) name ep pats rt d = (Ok i, rt', d1)"
    and ls1: "registry_list_active (pg_subscriber_repository ul) d1 = (Ok us, d2)"
    and unreg: "registry_unregister (pg_subscriber_repository ul) i d2 = (Ok x, d3)"
    and ls2: "registry_list_active (pg_subscriber_repository ul) d3 = (Ok vs, d4)"
  shows "(\<exists>u \<in> set us. su_id u = i \<and> su_service_name u = name \<and> su_grpc_endpoint u = ep \<and> su_topic_patterns u = pats) \<and>
         su_id ` set vs = su_id ` set us - {i} \<and> i \<notin> dom (pg_subscriptions d)"
proof -
  note r = pg_sub.register_law [OF ok reg]
  then have ok1: "pg_subscribers_ok d1" and new: "i \<notin> dom (pg_subscriptions d)" by auto
  from ls1 obtain q where "pg_subscriber_get_all_active d1 = (q, d2)" "q = Ok us"
    by (cases "pg_subscriber_get_all_active d1") (auto simp: registry_list_active_def)
  from pg_subscriber_get_all_active_law [OF ok1 this(1)] this(2) have ok2: "pg_subscribers_ok d2"
    and t2: "pg_subscriptions d2 = pg_subscriptions d1"
    and us: "su_id ` set us = {i. \<exists>n. pg_subscriptions d1 i = Some n \<and> sn_active n}" by auto
  from unreg obtain y where y: "pg_subscriber_deactivate i d2 = (y, d3)" "y = Ok x"
    by (cases "pg_subscriber_deactivate i d2") (auto simp: registry_unregister_def)
  from pg_subscriber_deactivate_law [OF ok2 y(1)] y(2) have ok3: "pg_subscribers_ok d3"
    and t3: "pg_subscriptions d3 = on_subscription i (sn_active_update (\<lambda>_. False)) (pg_subscriptions d1)"
    by (auto simp: t2)
  from ls2 obtain q2 where "pg_subscriber_get_all_active d3 = (q2, d4)" "q2 = Ok vs"
    by (cases "pg_subscriber_get_all_active d3") (auto simp: registry_list_active_def)
  from pg_subscriber_get_all_active_law [OF ok3 this(1)] this(2)
  have vs: "su_id ` set vs = {i. \<exists>n. pg_subscriptions d3 i = Some n \<and> sn_active n}" by auto
  have "su_id ` set vs = su_id ` set us - {i}" unfolding vs us t3 by auto
  with new pg_sub.register_then_list [OF ok reg ls1] show ?thesis by blast
qed

definition sample_register :: "(core_error + uuid) \<times> runtime \<times> db" where
  "sample_register =
     registry_register (pg_subscriber_repository decimal_uuids) ''svc'' ''http://s'' [''orders.*''] counting_runtime empty_db"

lemmas register_eval = sample_register_def registry_register_def subscriber_new_def now_v7_def utc_now_def counting_runtime_def pg_subscriber_repository_def
  pg_subscriber_create_def subscriber_stmt_def run_statement_calm undisturbed_def empty_db_def row_eval subscriber_row_check_def
  subscribers_unique_def subscriber_row_of_def decimal_eval

lemma empty_subscribers_ok: "pg_subscribers_ok empty_db"
  by (simp add: pg_subscribers_ok_def empty_db_def table_ok_def subscribers_unique_def)

theorem register_list_unregister_witness:
  "let d1 = snd (snd sample_register);
       d2 = snd (registry_list_active (pg_subscriber_repository decimal_uuids) d1);
       d3 = snd (registry_unregister (pg_subscriber_repository decimal_uuids) 1 d2)
   in su_id ` set (projr (fst (registry_list_active (pg_subscriber_repository decimal_uuids) d3))) = {}"
proof -
  let ?repo = "pg_subscriber_repository decimal_uuids"
  let ?d1 = "snd (snd sample_register)"
  let ?d2 = "snd (registry_list_active ?repo ?d1)"
  let ?d3 = "snd (registry_unregister ?repo 1 ?d2)"
  have r: "fst sample_register = Ok 1" by (simp add: register_eval)
  have l: "map_ok (map su_id) (fst (registry_list_active ?repo ?d1)) = Ok [1]" by code_simp
  have u: "fst (registry_unregister ?repo 1 ?d2) = Ok ()" by code_simp
  have m: "is_ok (fst (registry_list_active ?repo ?d3))" by code_simp
  from l obtain us where us: "fst (registry_list_active ?repo ?d1) = Ok us" "map su_id us = [1]" by auto
  from m obtain vs where vs: "fst (registry_list_active ?repo ?d3) = Ok vs"
    by (cases "fst (registry_list_active ?repo ?d3)") auto
  from r have s1: "registry_register ?repo ''svc'' ''http://s'' [''orders.*''] counting_runtime empty_db =
      (Ok 1, fst (snd sample_register), ?d1)" by (simp add: prod_eq_iff sample_register_def)
  from us(1) have s2: "registry_list_active ?repo ?d1 = (Ok us, ?d2)" by (simp add: prod_eq_iff)
  from u have s3: "registry_unregister ?repo 1 ?d2 = (Ok (), ?d3)" by (simp add: prod_eq_iff)
  from vs have s4: "registry_list_active ?repo ?d3 = (Ok vs, snd (registry_list_active ?repo ?d3))"
    by (simp add: prod_eq_iff)
  have "su_id ` set vs = su_id ` set us - {1}"
    using register_list_unregister [OF empty_subscribers_ok s1 s2 s3 s4] by blast
  moreover have "su_id ` set us = {1}" using us(2) by (metis list.set(1) list.set(2) set_map)
  ultimately show ?thesis by (simp add: Let_def vs)
qed

text \<open>The topic cache goes stale. After a miss the answer is the set of active matching
  subscribers, and it is cached; a subscriber that registers later is not among the answer for that
  topic however often it is asked for again, as long as the entry stays in the cache, since nothing
  invalidates it.\<close>

theorem cached_topic_goes_stale:
  assumes ok: "pg_subscribers_ok d" and md: "md_subscriber_repository md = pg_subscriber_repository ul"
    and cache: "cache_ok (md_pattern_cache md)" "cache_get topic (md_pattern_cache md) = None"
    and first: "get_subscribers topic md d = (Ok us, md1, d1)"
    and reg: "registry_register (pg_subscriber_repository ul) name ep pats rt d1 = (Ok i, rt', d2)"
  shows "su_id ` set us =
           {i. \<exists>n. pg_subscriptions d i = Some n \<and> sn_active n \<and> matches_any topic (sn_patterns n)} \<and>
         get_subscribers topic md1 d2 = (Ok us, md1, d2) \<and> i \<notin> su_id ` set us"
proof -
  note law = pg_sub.get_subscribers_law [OF ok md first]
  with cache have us: "su_id ` set us =
      {i. \<exists>n. pg_subscriptions d i = Some n \<and> sn_active n \<and> matches_any topic (sn_patterns n)}"
    and hit: "cache_get topic (md_pattern_cache md1) = Some us"
    and ok1: "pg_subscribers_ok d1" and t1: "pg_subscriptions d1 = pg_subscriptions d" by auto
  from pg_sub.register_law [OF ok1 reg] t1 have "i \<notin> dom (pg_subscriptions d)" by auto
  then have "i \<notin> su_id ` set us" unfolding us by auto
  with us hit show ?thesis by (simp add: get_subscribers_def)
qed

definition sample_message_dispatcher :: "(db, unit) message_dispatcher" where
  "sample_message_dispatcher = message_dispatcher_new (pg_subscriber_repository decimal_uuids)"

theorem cached_topic_goes_stale_witness:
  "let (r, md1, d1) = get_subscribers ''orders.created'' sample_message_dispatcher empty_db;
       (i, rt, d2) = registry_register (pg_subscriber_repository decimal_uuids) ''svc'' ''http://s'' [''orders.*'']
                       counting_runtime d1
   in fst (get_subscribers ''orders.created'' md1 d2) = Ok []"
proof -
  let ?g = "get_subscribers ''orders.created'' sample_message_dispatcher empty_db"
  let ?r = "registry_register (pg_subscriber_repository decimal_uuids) ''svc'' ''http://s'' [''orders.*'']
              counting_runtime (snd (snd ?g))"
  have g: "map_ok (map su_id) (fst ?g) = Ok []" by code_simp
  have r: "fst ?r = Ok 1" by code_simp
  have md: "md_subscriber_repository sample_message_dispatcher = pg_subscriber_repository decimal_uuids"
    "cache_ok (md_pattern_cache sample_message_dispatcher)"
    "cache_get ''orders.created'' (md_pattern_cache sample_message_dispatcher) = None"
    by (simp_all add: sample_message_dispatcher_def message_dispatcher_new_def)
       (simp add: cache_get_def subscriber_cache_new_def)
  from g have "?g = (Ok [], fst (snd ?g), snd (snd ?g))" by (auto simp: prod_eq_iff)
  moreover from r have "?r = (Ok 1, fst (snd ?r), snd (snd ?r))" by (simp add: prod_eq_iff)
  ultimately have "get_subscribers ''orders.created'' (fst (snd ?g)) (snd (snd ?r)) =
      (Ok [], fst (snd ?g), snd (snd ?r))"
    using cached_topic_goes_stale [OF empty_subscribers_ok md] by blast
  then show ?thesis by (simp add: Let_def case_prod_unfold)
qed

end
