(* ===== verification/Dead_Letter.thy ===== *)
theory Dead_Letter
  imports Outbox
begin

text \<open>
  The dead-letter feature: the parked message (\<open>features/dead_letter/domain.rs\<close>), its storage port
  (\<open>ports.rs\<close>) and the handler with its reprocessing loop (\<open>handler.rs\<close>). The locale \<open>dlq_port\<close> is
  the contract of the storage; \<open>reprocess_ports\<close> joins it with the outbox contract over one state,
  and shows what reprocessing does to both tables.
\<close>

section \<open>The message\<close>

record dlq_message =
  dm_id :: uuid
  dm_original_message_id :: uuid
  dm_original_topic :: string
  dm_dlq_topic :: string
  dm_failure_reason :: string
  dm_retry_count :: i32
  dm_payload :: json
  dm_headers :: "json option"
  dm_created_at :: timestamp

definition dlq_message_new ::
  "uuid \<Rightarrow> string \<Rightarrow> string \<Rightarrow> string \<Rightarrow> i32 \<Rightarrow> json \<Rightarrow> runtime \<Rightarrow> dlq_message \<times> runtime" where
  "dlq_message_new original_message_id original_topic to_topic failure_reason retry_count payload rt =
     (let (i, rt1) = now_v7 rt;
          (now, rt2) = utc_now rt1
      in (\<lparr>dm_id = i, dm_original_message_id = original_message_id, dm_original_topic = original_topic,
           dm_dlq_topic = to_topic, dm_failure_reason = failure_reason, dm_retry_count = retry_count,
           dm_payload = payload, dm_headers = None, dm_created_at = now\<rparr>, rt2))"

section \<open>The port\<close>

record 's dlq_repository =
  dr_create :: "dlq_message \<Rightarrow> 's \<Rightarrow> (dlq_error + unit) \<times> 's"
  dr_get_by_id :: "uuid \<Rightarrow> 's \<Rightarrow> (dlq_error + dlq_message) \<times> 's"
  dr_get_all :: "string option \<Rightarrow> i64 \<Rightarrow> i64 \<Rightarrow> 's \<Rightarrow> (dlq_error + dlq_message list) \<times> 's"
  dr_count :: "string option \<Rightarrow> 's \<Rightarrow> (dlq_error + i64) \<times> 's"
  dr_delete :: "uuid \<Rightarrow> 's \<Rightarrow> (dlq_error + unit) \<times> 's"
  dr_delete_all :: "'s \<Rightarrow> (dlq_error + unit) \<times> 's"

type_synonym parked = "uuid \<rightharpoonup> dlq_message"

text \<open>The parked messages a topic filter selects.\<close>

definition topic_selects :: "string option \<Rightarrow> dlq_message \<Rightarrow> bool" where
  "topic_selects topic m = (case topic of None \<Rightarrow> True | Some t \<Rightarrow> dm_original_topic m = t)"

definition selected :: "string option \<Rightarrow> parked \<Rightarrow> dlq_message set" where
  "selected topic p = {m. p (dm_id m) = Some m \<and> topic_selects topic m}"

text \<open>A page: the parked messages the filter selects are enumerated newest first, without
  repetition, and the page is the window of that enumeration.\<close>

definition page_of :: "string option \<Rightarrow> parked \<Rightarrow> i64 \<Rightarrow> i64 \<Rightarrow> dlq_message list \<Rightarrow> bool" where
  "page_of topic p n off ms \<longleftrightarrow>
     (\<exists>all. distinct (map dm_id all) \<and> set all = selected topic p \<and>
            sorted (rev (map dm_created_at all)) \<and>
            ms = take (nat (sint n)) (drop (nat (sint off)) all))"

lemma page_of_window:
  assumes "page_of topic p n off ms"
  shows "distinct (map dm_id ms) \<and> set ms \<subseteq> selected topic p \<and> sorted (rev (map dm_created_at ms)) \<and>
         length ms \<le> nat (sint n)"
proof -
  from assms obtain all where all: "distinct (map dm_id all)" "set all = selected topic p"
    "sorted (rev (map dm_created_at all))" and ms: "ms = take (nat (sint n)) (drop (nat (sint off)) all)"
    by (auto simp: page_of_def)
  have "distinct (map dm_id ms)"
    unfolding ms take_map [symmetric] drop_map [symmetric] using all(1) by (intro distinct_take distinct_drop)
  moreover have "set ms \<subseteq> selected topic p"
    unfolding ms all(2) [symmetric] by (meson order_trans set_drop_subset set_take_subset)
  moreover have "sorted (rev (map dm_created_at ms))"
    unfolding ms take_map [symmetric] drop_map [symmetric]
    using all(3) by (simp add: sorted_wrt_rev sorted_wrt_take sorted_wrt_drop)
  moreover have "length ms \<le> nat (sint n)" unfolding ms by simp
  ultimately show ?thesis by blast
qed

text \<open>A first page that is not full is everything.\<close>

lemma page_of_all:
  assumes "page_of topic p n 0 ms" and "int (length ms) < sint n"
  shows "set ms = selected topic p"
proof -
  from assms(1) obtain all where all: "set all = selected topic p" and ms: "ms = take (nat (sint n)) all"
    by (auto simp: page_of_def)
  from assms(2) ms have "length all \<le> nat (sint n)" by (simp add: min_def split: if_splits)
  with ms all show ?thesis by simp
qed

locale dlq_port =
  fixes drepo :: "'s dlq_repository"
    and parked :: "'s \<Rightarrow> parked"
    and dok :: "'s \<Rightarrow> bool"
  assumes dlq_create_law:
      "dok s \<Longrightarrow> dr_create drepo m s = (d1, s') \<Longrightarrow>
         dok s' \<and> effect d1 (parked s) ((parked s)(dm_id m \<mapsto> m)) (parked s') \<and>
         (is_ok d1 \<or> parked s' \<noteq> parked s \<longrightarrow> dm_id m \<notin> dom (parked s))"
    and dlq_get_by_id_law:
      "dok s \<Longrightarrow> dr_get_by_id drepo i s = (d2, s') \<Longrightarrow>
         dok s' \<and> parked s' = parked s \<and> (\<forall>m. d2 = Ok m \<longrightarrow> dm_id m = i \<and> parked s i = Some m)"
    and dlq_get_all_law:
      "dok s \<Longrightarrow> dr_get_all drepo topic n off s = (d3, s') \<Longrightarrow>
         dok s' \<and> parked s' = parked s \<and> (\<forall>ms. d3 = Ok ms \<longrightarrow> page_of topic (parked s) n off ms)"
    and dlq_count_law:
      "dok s \<Longrightarrow> dr_count drepo topic s = (d4, s') \<Longrightarrow>
         dok s' \<and> parked s' = parked s \<and> (\<forall>c. d4 = Ok c \<longrightarrow> c = of_nat (card (selected topic (parked s))))"
    and dlq_delete_law:
      "dok s \<Longrightarrow> dr_delete drepo i s = (d5, s') \<Longrightarrow>
         dok s' \<and> effect d5 (parked s) ((parked s)(i := None)) (parked s')"
    and dlq_delete_all_law:
      "dok s \<Longrightarrow> dr_delete_all drepo s = (d6, s') \<Longrightarrow>
         dok s' \<and> effect d6 (parked s) Map.empty (parked s')"
    and parked_key: "dok s \<Longrightarrow> parked s i = Some m \<Longrightarrow> dm_id m = i"

section \<open>DlqHandler\<close>

definition reprocess_batch_limit :: i64 where
  "reprocess_batch_limit = 10000"

datatype dlq_selector = Sel_Id uuid | Sel_Topic string | Sel_All

record reprocess_result =
  rr_reprocessed_count :: i32
  rr_failure_count :: i32
  rr_errors :: "string list"

definition reprocess_result_default :: reprocess_result where
  "reprocess_result_default = \<lparr>rr_reprocessed_count = 0, rr_failure_count = 0, rr_errors = []\<rparr>"

definition move_to_dlq ::
  "'s dlq_repository \<Rightarrow> uuid \<Rightarrow> string \<Rightarrow> string \<Rightarrow> string \<Rightarrow> i32 \<Rightarrow> json \<Rightarrow> runtime \<Rightarrow> 's
     \<Rightarrow> (core_error + uuid) \<times> runtime \<times> 's" where
  "move_to_dlq repo original_message_id original_topic to_topic failure_reason retry_count payload rt s =
     (let (m, rt1) = dlq_message_new original_message_id original_topic to_topic failure_reason retry_count payload rt;
          (r, s1) = dr_create repo m s
      in (map_ok (\<lambda>_. dm_id m) (map_err CE_Dlq r), rt1, s1))"

definition dlq_get_messages ::
  "'s dlq_repository \<Rightarrow> string option \<Rightarrow> i64 \<Rightarrow> i64 \<Rightarrow> 's \<Rightarrow> (core_error + dlq_message list) \<times> 's" where
  "dlq_get_messages repo topic n off s = apfst (map_err CE_Dlq) (dr_get_all repo topic n off s)"

definition dlq_count :: "'s dlq_repository \<Rightarrow> string option \<Rightarrow> 's \<Rightarrow> (core_error + i64) \<times> 's" where
  "dlq_count repo topic s = apfst (map_err CE_Dlq) (dr_count repo topic s)"

definition dlq_delete :: "'s dlq_repository \<Rightarrow> uuid \<Rightarrow> 's \<Rightarrow> (core_error + unit) \<times> 's" where
  "dlq_delete repo i s = apfst (map_err CE_Dlq) (dr_delete repo i s)"

text \<open>The outbox message made from a parked one; the clock is read twice.\<close>

definition reprocess_message :: "uuid_lib \<Rightarrow> dlq_message \<Rightarrow> runtime \<Rightarrow> outbox_message \<times> runtime" where
  "reprocess_message ul m rt =
     (let (i, rt1) = now_v7 rt;
          (created, rt2) = utc_now rt1;
          (updated, rt3) = utc_now rt2
      in (\<lparr>om_id = i, om_aggregate_type = ''reprocess'', om_aggregate_id = ul_show ul (dm_original_message_id m),
           om_event_type = ''reprocessed'', om_payload = dm_payload m, om_headers = dm_headers m,
           om_topic = dm_original_topic m, om_partition_key = None, om_status = Pending, om_retry_count = 0,
           om_error_message = None, om_created_at = created, om_updated_at = updated,
           om_published_at = None\<rparr>, rt3))"

fun reprocess_loop ::
  "uuid_lib \<Rightarrow> 's dlq_repository \<Rightarrow> 's outbox_repository \<Rightarrow> dlq_message list \<Rightarrow> reprocess_result \<Rightarrow> runtime \<Rightarrow> 's
     \<Rightarrow> reprocess_result \<times> runtime \<times> 's" where
  "reprocess_loop ul drepo orepo [] result rt s = (result, rt, s)"
| "reprocess_loop ul drepo orepo (m # ms) result rt s =
     (let (outbox_msg, rt1) = reprocess_message ul m rt
      in case or_create orepo outbox_msg s of
           (Ok _, s1) \<Rightarrow>
             (let (_, s2) = dr_delete drepo (dm_id m) s1
              in reprocess_loop ul drepo orepo ms
                   (result\<lparr>rr_reprocessed_count := rr_reprocessed_count result + 1\<rparr>) rt1 s2)
         | (Err e, s1) \<Rightarrow>
             reprocess_loop ul drepo orepo ms
               (result\<lparr>rr_failure_count := rr_failure_count result + 1,
                      rr_errors := rr_errors result @ [outbox_error_to_string ul e]\<rparr>) rt1 s1)"

definition reprocess_select ::
  "'s dlq_repository \<Rightarrow> dlq_selector \<Rightarrow> 's \<Rightarrow> (dlq_error + dlq_message list) \<times> 's" where
  "reprocess_select drepo selector s =
     (case selector of
        Sel_Id i \<Rightarrow> apfst (map_ok (\<lambda>m. [m])) (dr_get_by_id drepo i s)
      | Sel_Topic t \<Rightarrow> dr_get_all drepo (Some t) reprocess_batch_limit 0 s
      | Sel_All \<Rightarrow> dr_get_all drepo None reprocess_batch_limit 0 s)"

definition reprocess ::
  "uuid_lib \<Rightarrow> 's dlq_repository \<Rightarrow> dlq_selector \<Rightarrow> 's outbox_repository \<Rightarrow> runtime \<Rightarrow> 's
     \<Rightarrow> (core_error + reprocess_result) \<times> runtime \<times> 's" where
  "reprocess ul drepo selector orepo rt s =
     (case reprocess_select drepo selector s of
        (Err e, s1) \<Rightarrow> (Err (CE_Dlq e), rt, s1)
      | (Ok messages, s1) \<Rightarrow>
          (let (result, rt1, s2) = reprocess_loop ul drepo orepo messages reprocess_result_default rt s1
           in (Ok result, rt1, s2)))"

section \<open>Reprocessing\<close>

text \<open>The ledger entry a reprocessed message gets.\<close>

definition reprocessed_entry :: "dlq_message \<Rightarrow> entry" where
  "reprocessed_entry m =
     \<lparr>en_event_type = ''reprocessed'', en_topic = dm_original_topic m, en_key = None, en_headers = dm_headers m,
      en_payload = dm_payload m, en_status = Pending, en_retries = 0, en_error = None\<rparr>"

lemma reprocess_message_entry:
  "reprocess_message ul m rt = (ob, rt') \<Longrightarrow>
     entry_of ob = reprocessed_entry m \<and> om_id ob = fst (now_v7 rt) \<and> rt_uuids rt' = rt_uuids rt \<and>
     rt_uuid_calls rt' = Suc (rt_uuid_calls rt)"
  by (auto simp: reprocess_message_def entry_of_def reprocessed_entry_def now_v7_def utc_now_def)

locale reprocess_ports = outbox_port orepo led ok + dlq_port drepo parked dok
  for orepo :: "'s outbox_repository" and led ok and drepo :: "'s dlq_repository" and parked dok +
  assumes create_keeps: "dok s \<Longrightarrow> or_create orepo m s = (r, s') \<Longrightarrow> dok s' \<and> parked s' = parked s"
    and dlq_keeps:
      "ok s \<Longrightarrow> dr_get_by_id drepo i s = (r2, s') \<Longrightarrow> ok s' \<and> led s' = led s"
      "ok s \<Longrightarrow> dr_get_all drepo topic n off s = (r3, s') \<Longrightarrow> ok s' \<and> led s' = led s"
      "ok s \<Longrightarrow> dr_delete drepo i s = (r4, s') \<Longrightarrow> ok s' \<and> led s' = led s"

context reprocess_ports begin

text \<open>The loop, for any outcome of the storage calls: the outbox only grows, by entries made from the
  given messages; a message leaves the dead-letter table only when its outbox entry exists.\<close>

lemma reprocess_loop_safe:
  assumes "ok s" and "dok s" and "reprocess_loop ul drepo orepo ms result rt s = (result', rt', s')"
    and "distinct (map dm_id ms)"
  shows "ok s' \<and> dok s' \<and> led s \<subseteq>\<^sub>m led s' \<and>
         (\<forall>i e. led s' i = Some e \<longrightarrow> led s i = Some e \<or> (\<exists>m \<in> set ms. e = reprocessed_entry m)) \<and>
         parked s' \<subseteq>\<^sub>m parked s \<and>
         (\<forall>i. i \<in> dom (parked s) - dom (parked s') \<longrightarrow>
            (\<exists>m \<in> set ms. dm_id m = i \<and> (\<exists>j. led s j = None \<and> led s' j = Some (reprocessed_entry m))))"
  using assms
proof (induction ms arbitrary: result rt s)
  case Nil
  then show ?case by auto
next
  case (Cons m ms)
  obtain ob rt1 where ob: "reprocess_message ul m rt = (ob, rt1)" by fastforce
  obtain c s1 where c: "or_create orepo ob s = (c, s1)" by fastforce
  from create_law [OF Cons.prems(1) c] have ok1: "ok s1"
    and eff: "effect c (led s) (add_entries [ob] (led s)) (led s1)"
    and new: "led s1 \<noteq> led s \<or> is_ok c \<longrightarrow> om_id ob \<notin> dom (led s)" by auto
  from create_keeps [OF Cons.prems(2) c] have dok1: "dok s1" and p1: "parked s1 = parked s" by auto
  have ent: "entry_of ob = reprocessed_entry m" using reprocess_message_entry [OF ob] by blast
  have led1: "led s1 = led s \<or> led s1 = (led s)(om_id ob \<mapsto> reprocessed_entry m) \<and> om_id ob \<notin> dom (led s)"
    using effect_or [OF eff] new ent by (auto simp: add_entries_def)
  then have grow: "led s \<subseteq>\<^sub>m led s1" by (elim disjE) (auto simp: map_le_def domIff)
  have origin: "\<forall>i e. led s1 i = Some e \<longrightarrow> led s i = Some e \<or> e = reprocessed_entry m"
    using led1 by (auto split: if_splits)
  show ?case
  proof (cases c)
    case (Inl e)
    with Cons.prems(3) ob c have "reprocess_loop ul drepo orepo ms
        (result\<lparr>rr_failure_count := rr_failure_count result + 1,
                rr_errors := rr_errors result @ [outbox_error_to_string ul e]\<rparr>) rt1 s1 = (result', rt', s')"
      by simp
    from Cons.IH [OF ok1 dok1 this] Cons.prems(4)
    have ih: "ok s'" "dok s'" "led s1 \<subseteq>\<^sub>m led s'" "parked s' \<subseteq>\<^sub>m parked s1"
      "\<forall>i e. led s' i = Some e \<longrightarrow> led s1 i = Some e \<or> (\<exists>m \<in> set ms. e = reprocessed_entry m)"
      "\<forall>i. i \<in> dom (parked s1) - dom (parked s') \<longrightarrow>
         (\<exists>m \<in> set ms. dm_id m = i \<and> (\<exists>j. led s1 j = None \<and> led s' j = Some (reprocessed_entry m)))"
      by simp_all
    have none: "led s j = None" if "led s1 j = None" for j
      using that led1 by (auto split: if_splits)
    show ?thesis
    proof (intro conjI allI impI)
      show "led s \<subseteq>\<^sub>m led s'" using grow ih(3) by (rule map_le_trans)
      show "parked s' \<subseteq>\<^sub>m parked s" using ih(4) by (simp add: p1)
      show "led s i = Some e \<or> (\<exists>m \<in> set (m # ms). e = reprocessed_entry m)" if "led s' i = Some e" for i e
        using ih(5) origin that by (metis list.set_intros)
      show "\<exists>m \<in> set (m # ms). dm_id m = i \<and> (\<exists>j. led s j = None \<and> led s' j = Some (reprocessed_entry m))"
        if "i \<in> dom (parked s) - dom (parked s')" for i
        using ih(6) that none unfolding p1 by (metis list.set_intros(2))
    qed (use ih in simp_all)
  next
    case (Inr u)
    then have led1: "led s1 = (led s)(om_id ob \<mapsto> reprocessed_entry m)" and fresh: "om_id ob \<notin> dom (led s)"
      using eff new ent by (auto simp: add_entries_def)
    obtain x s2 where x: "dr_delete drepo (dm_id m) s1 = (x, s2)" by fastforce
    from dlq_delete_law [OF dok1 x] have dok2: "dok s2"
      and p2: "parked s2 = parked s \<or> parked s2 = (parked s)(dm_id m := None)"
      by (auto simp: p1 dest: effect_or)
    from dlq_keeps(3) [OF ok1 x] have ok2: "ok s2" and l2: "led s2 = led s1" by auto
    from Cons.prems(3) ob c Inr x have "reprocess_loop ul drepo orepo ms
        (result\<lparr>rr_reprocessed_count := rr_reprocessed_count result + 1\<rparr>) rt1 s2 = (result', rt', s')"
      by simp
    from Cons.IH [OF ok2 dok2 this] Cons.prems(4)
    have ih: "ok s'" "dok s'" "led s1 \<subseteq>\<^sub>m led s'" "parked s' \<subseteq>\<^sub>m parked s2"
      "\<forall>i e. led s' i = Some e \<longrightarrow> led s1 i = Some e \<or> (\<exists>m \<in> set ms. e = reprocessed_entry m)"
      "\<forall>i. i \<in> dom (parked s2) - dom (parked s') \<longrightarrow>
         (\<exists>m \<in> set ms. dm_id m = i \<and> (\<exists>j. led s1 j = None \<and> led s' j = Some (reprocessed_entry m)))"
      by (simp_all add: l2)
    have none: "led s j = None" if "led s1 j = None" for j
      using that led1 by (auto split: if_splits)
    have here: "led s' (om_id ob) = Some (reprocessed_entry m)"
      using ih(3) led1 by (metis domI fun_upd_same map_le_def)
    have p2s: "parked s2 \<subseteq>\<^sub>m parked s" using p2 by (auto simp: map_le_def split: if_splits)
    show ?thesis
    proof (intro conjI allI impI)
      show "led s \<subseteq>\<^sub>m led s'" using grow ih(3) by (rule map_le_trans)
      show "parked s' \<subseteq>\<^sub>m parked s" using ih(4) p2s by (rule map_le_trans)
      show "led s i = Some e \<or> (\<exists>m \<in> set (m # ms). e = reprocessed_entry m)" if "led s' i = Some e" for i e
        using ih(5) origin that by (metis list.set_intros)
      show "\<exists>m \<in> set (m # ms). dm_id m = i \<and> (\<exists>j. led s j = None \<and> led s' j = Some (reprocessed_entry m))"
        if gone: "i \<in> dom (parked s) - dom (parked s')" for i
      proof (cases "i \<in> dom (parked s2)")
        case True
        with gone ih(6) have "\<exists>m \<in> set ms. dm_id m = i \<and> (\<exists>j. led s1 j = None \<and> led s' j = Some (reprocessed_entry m))"
          by blast
        with none show ?thesis by (metis list.set_intros(2))
      next
        case False
        with gone p2 have "i = dm_id m" by (auto split: if_splits)
        with here fresh show ?thesis by (intro bexI [of _ m]) auto
      qed
    qed (use ih in simp_all)
  qed
qed

text \<open>The answer's counts.\<close>

lemma reprocess_loop_counts:
  assumes "ok s" and "dok s" and "reprocess_loop ul drepo orepo ms result rt s = (result', rt', s')"
  shows "\<exists>a b js. a + b = length ms \<and> rr_reprocessed_count result' = rr_reprocessed_count result + of_nat a \<and>
           rr_failure_count result' = rr_failure_count result + of_nat b \<and>
           length (rr_errors result') = length (rr_errors result) + b \<and>
           distinct js \<and> length js = a \<and> set js \<subseteq> dom (led s') - dom (led s) \<and> dom (led s) \<subseteq> dom (led s')"
  using assms
proof (induction ms arbitrary: result rt s)
  case Nil
  then show ?case by auto
next
  case (Cons m ms)
  obtain ob rt1 where ob: "reprocess_message ul m rt = (ob, rt1)" by fastforce
  obtain c s1 where c: "or_create orepo ob s = (c, s1)" by fastforce
  from create_law [OF Cons.prems(1) c] have ok1: "ok s1"
    and eff: "effect c (led s) (add_entries [ob] (led s)) (led s1)"
    and new: "led s1 \<noteq> led s \<or> is_ok c \<longrightarrow> om_id ob \<notin> dom (led s)" by auto
  from create_keeps [OF Cons.prems(2) c] have dok1: "dok s1" by auto
  have dom1: "dom (led s) \<subseteq> dom (led s1)" using effect_or [OF eff] by (elim disjE) (simp_all only: dom_add_entries Un_upper1 subset_refl)
  show ?case
  proof (cases c)
    case (Inl e)
    with Cons.prems(3) ob c have "reprocess_loop ul drepo orepo ms
        (result\<lparr>rr_failure_count := rr_failure_count result + 1,
                rr_errors := rr_errors result @ [outbox_error_to_string ul e]\<rparr>) rt1 s1 = (result', rt', s')"
      by simp
    from Cons.IH [OF ok1 dok1 this] obtain a b js where ih: "a + b = length ms"
      "rr_reprocessed_count result' = rr_reprocessed_count result + of_nat a"
      "rr_failure_count result' = rr_failure_count result + 1 + of_nat b"
      "length (rr_errors result') = length (rr_errors result) + 1 + b"
      "distinct js" "length js = a" "set js \<subseteq> dom (led s') - dom (led s1)" "dom (led s1) \<subseteq> dom (led s')"
      by auto
    have "set js \<subseteq> dom (led s') - dom (led s)" "dom (led s) \<subseteq> dom (led s')" using ih(7,8) dom1 by blast+
    with ih show ?thesis by (intro exI [of _ a] exI [of _ "Suc b"] exI [of _ js]) simp
  next
    case (Inr u)
    then have led1: "dom (led s1) = insert (om_id ob) (dom (led s))" and fresh: "om_id ob \<notin> dom (led s)"
      using eff new by auto
    obtain x s2 where x: "dr_delete drepo (dm_id m) s1 = (x, s2)" by fastforce
    from dlq_delete_law [OF dok1 x] have dok2: "dok s2" by blast
    from dlq_keeps(3) [OF ok1 x] have ok2: "ok s2" and l2: "led s2 = led s1" by auto
    from Cons.prems(3) ob c Inr x have "reprocess_loop ul drepo orepo ms
        (result\<lparr>rr_reprocessed_count := rr_reprocessed_count result + 1\<rparr>) rt1 s2 = (result', rt', s')"
      by simp
    from Cons.IH [OF ok2 dok2 this] obtain a b js where ih: "a + b = length ms"
      "rr_reprocessed_count result' = rr_reprocessed_count result + 1 + of_nat a"
      "rr_failure_count result' = rr_failure_count result + of_nat b"
      "length (rr_errors result') = length (rr_errors result) + b"
      "distinct js" "length js = a" "set js \<subseteq> dom (led s') - dom (led s1)" "dom (led s1) \<subseteq> dom (led s')"
      by (auto simp: l2)
    have "distinct (om_id ob # js)" "set (om_id ob # js) \<subseteq> dom (led s') - dom (led s)" "dom (led s) \<subseteq> dom (led s')"
      using ih(5,7,8) led1 fresh by auto
    with ih show ?thesis
      by (intro exI [of _ "Suc a"] exI [of _ b] exI [of _ "om_id ob # js"]) simp
  qed
qed

lemma reprocess_select_law:
  assumes "ok s" and "dok s" and run: "reprocess_select drepo selector s = (r, s1)"
  shows "ok s1 \<and> dok s1 \<and> led s1 = led s \<and> parked s1 = parked s \<and>
         (\<forall>ms. r = Ok ms \<longrightarrow> distinct (map dm_id ms) \<and> length ms \<le> 10000 \<and>
            (\<forall>m \<in> set ms. parked s (dm_id m) = Some m) \<and>
            (case selector of
               Sel_Id i \<Rightarrow> \<exists>m. ms = [m] \<and> parked s i = Some m
             | Sel_Topic t \<Rightarrow> page_of (Some t) (parked s) reprocess_batch_limit 0 ms
             | Sel_All \<Rightarrow> page_of None (parked s) reprocess_batch_limit 0 ms))"
proof -
  have page: "distinct (map dm_id ms) \<and> length ms \<le> 10000 \<and> (\<forall>m \<in> set ms. parked s (dm_id m) = Some m)"
    if "page_of topic (parked s) reprocess_batch_limit 0 ms" for topic ms
    using page_of_window [OF that] by (auto simp: reprocess_batch_limit_def selected_def)
  show ?thesis
  proof (cases selector)
    case (Sel_Id i)
    with run obtain c where c: "dr_get_by_id drepo i s = (c, s1)" "r = map_ok (\<lambda>m. [m]) c"
      by (cases "dr_get_by_id drepo i s") (auto simp: reprocess_select_def)
    from dlq_keeps(1) [OF assms(1) c(1)] dlq_get_by_id_law [OF assms(2) c(1)] c(2) Sel_Id
    show ?thesis by auto
  next
    case (Sel_Topic t)
    with run have c: "dr_get_all drepo (Some t) reprocess_batch_limit 0 s = (r, s1)"
      by (simp add: reprocess_select_def)
    from dlq_keeps(2) [OF assms(1) c] dlq_get_all_law [OF assms(2) c] page Sel_Topic
    show ?thesis by auto
  next
    case Sel_All
    with run have c: "dr_get_all drepo None reprocess_batch_limit 0 s = (r, s1)"
      by (simp add: reprocess_select_def)
    from dlq_keeps(2) [OF assms(1) c] dlq_get_all_law [OF assms(2) c] page Sel_All
    show ?thesis by auto
  qed
qed

text \<open>Reprocessing as a whole.\<close>

lemma reprocess_law:
  assumes ok: "ok s" and dok: "dok s" and run: "reprocess ul drepo selector orepo rt s = (r, rt', s')"
  shows "ok s' \<and> dok s' \<and> led s \<subseteq>\<^sub>m led s' \<and> parked s' \<subseteq>\<^sub>m parked s \<and>
         (\<forall>i m. parked s i = Some m \<longrightarrow> parked s' i = None \<longrightarrow>
            (\<exists>j. led s j = None \<and> led s' j = Some (reprocessed_entry m))) \<and>
         (\<forall>j e. led s' j = Some e \<longrightarrow> led s j = None \<longrightarrow>
            (\<exists>i m. parked s i = Some m \<and> e = reprocessed_entry m)) \<and>
         (\<forall>res. r = Ok res \<longrightarrow>
            length (rr_errors res) = unat (rr_failure_count res) \<and>
            unat (rr_reprocessed_count res) + unat (rr_failure_count res) \<le> 10000 \<and>
            (\<exists>js. distinct js \<and> length js = unat (rr_reprocessed_count res) \<and> set js \<subseteq> dom (led s') - dom (led s)))"
proof -
  obtain q s1 where q: "reprocess_select drepo selector s = (q, s1)" by fastforce
  note sel = reprocess_select_law [OF ok dok q]
  show ?thesis
  proof (cases q)
    case (Inl e)
    with run q sel show ?thesis by (auto simp: reprocess_def)
  next
    case (Inr ms)
    from run q Inr obtain res where res: "reprocess_loop ul drepo orepo ms reprocess_result_default rt s1 = (res, rt', s')"
      and r: "r = Ok res" by (auto simp: reprocess_def split: prod.splits)
    from sel Inr have ok1: "ok s1" and dok1: "dok s1" and l1: "led s1 = led s" and p1: "parked s1 = parked s"
      and dist: "distinct (map dm_id ms)" and len: "length ms \<le> 10000"
      and ms: "\<And>m. m \<in> set ms \<Longrightarrow> parked s (dm_id m) = Some m" by auto
    note safe = reprocess_loop_safe [OF ok1 dok1 res dist, unfolded l1 p1]
    from reprocess_loop_counts [OF ok1 dok1 res] obtain a b js where ab: "a + b = length ms"
      "rr_reprocessed_count res = of_nat a" "rr_failure_count res = of_nat b" "length (rr_errors res) = b"
      "distinct js" "length js = a" "set js \<subseteq> dom (led s') - dom (led s)"
      by (auto simp: reprocess_result_default_def l1)
    from ab(1) len have "unat (of_nat a :: i32) = a" "unat (of_nat b :: i32) = b"
      by (simp_all add: unat_of_nat)
    with ab len have counts: "length (rr_errors res) = unat (rr_failure_count res) \<and>
        unat (rr_reprocessed_count res) + unat (rr_failure_count res) \<le> 10000 \<and>
        (\<exists>js. distinct js \<and> length js = unat (rr_reprocessed_count res) \<and> set js \<subseteq> dom (led s') - dom (led s))"
      by auto
    show ?thesis
    proof (intro conjI allI impI)
      show "\<exists>j. led s j = None \<and> led s' j = Some (reprocessed_entry m)"
        if "parked s i = Some m" "parked s' i = None" for i m
      proof -
        from that have "i \<in> dom (parked s) - dom (parked s')" by auto
        with safe obtain m' where m': "m' \<in> set ms" "dm_id m' = i"
          "\<exists>j. led s j = None \<and> led s' j = Some (reprocessed_entry m')" by blast
        with ms [OF m'(1)] that(1) show ?thesis by simp
      qed
      show "\<exists>i m. parked s i = Some m \<and> e = reprocessed_entry m" if "led s' j = Some e" "led s j = None" for j e
      proof -
        from safe that have "\<exists>m \<in> set ms. e = reprocessed_entry m" by fastforce
        with ms show ?thesis by blast
      qed
    qed (use safe counts r in simp_all)
  qed
qed

end

section \<open>Reprocessing without failures\<close>

text \<open>\<open>calm s\<close>: no storage call fails for an outside reason from \<open>s\<close> on. \<open>used\<close> are the identifiers a
  new outbox message must avoid.\<close>

locale calm_reprocess_ports = reprocess_ports orepo led ok drepo parked dok
  for orepo :: "'s outbox_repository" and led ok and drepo :: "'s dlq_repository" and parked dok +
  fixes ul :: uuid_lib and calm :: "'s \<Rightarrow> bool" and used :: "'s \<Rightarrow> uuid set"
  assumes calm_create:
      "ok s \<Longrightarrow> dok s \<Longrightarrow> calm s \<Longrightarrow> parked s i = Some m \<Longrightarrow> reprocess_message ul m rt = (ob, rt') \<Longrightarrow>
         om_id ob \<notin> used s \<Longrightarrow> or_create orepo ob s = (r, s') \<Longrightarrow>
         calm s' \<and> is_ok r \<and> used s' = insert (om_id ob) (used s)"
    and calm_delete:
      "ok s \<Longrightarrow> dok s \<Longrightarrow> calm s \<Longrightarrow> dr_delete drepo i s = (r2, s') \<Longrightarrow> calm s' \<and> is_ok r2 \<and> used s' = used s"
    and calm_get_all:
      "dok s \<Longrightarrow> calm s \<Longrightarrow> 0 \<le> sint n \<Longrightarrow> 0 \<le> sint off \<Longrightarrow> dr_get_all drepo topic n off s = (r3, s') \<Longrightarrow>
         calm s' \<and> is_ok r3 \<and> used s' = used s"

text \<open>The identifiers the generator gives the next \<open>n\<close> messages.\<close>

definition next_ids :: "runtime \<Rightarrow> nat \<Rightarrow> uuid list" where
  "next_ids rt n = map (\<lambda>k. rt_uuids rt (rt_uuid_calls rt + k)) [0..<n]"

lemma next_ids_Suc: "next_ids rt (Suc n) = fst (now_v7 rt) # next_ids (snd (now_v7 rt)) n"
  by (simp add: next_ids_def now_v7_def upt_conv_Cons map_Suc_upt [symmetric] comp_def del: upt_Suc)

lemma next_ids_eq: "rt_uuids rt = rt_uuids rt' \<Longrightarrow> rt_uuid_calls rt = rt_uuid_calls rt' \<Longrightarrow> next_ids rt n = next_ids rt' n"
  by (simp add: next_ids_def)

lemma fresh_ids_eq: "rt_uuids rt = rt_uuids rt' \<Longrightarrow> rt_uuid_calls rt = rt_uuid_calls rt' \<Longrightarrow> fresh_ids u n rt = fresh_ids u n rt'"
  by (simp add: fresh_ids_def)

lemma fresh_ids_disjoint: "fresh_ids u n rt \<Longrightarrow> set (next_ids rt n) \<inter> u = {}"
proof -
  assume "fresh_ids u n rt"
  moreover have "set (next_ids rt n) \<subseteq> rt_uuids rt ` {rt_uuid_calls rt ..< rt_uuid_calls rt + n}"
    by (auto simp: next_ids_def)
  ultimately show ?thesis by (auto simp: fresh_ids_def)
qed

definition moved_entries :: "runtime \<Rightarrow> dlq_message list \<Rightarrow> ledger" where
  "moved_entries rt ms = map_of (zip (next_ids rt (length ms)) (map reprocessed_entry ms))"

context calm_reprocess_ports begin

lemma reprocess_loop_moves:
  assumes "ok s" "dok s" "calm s" and "fresh_ids (used s) (length ms) rt"
    and "distinct (map dm_id ms)" and "\<And>m. m \<in> set ms \<Longrightarrow> parked s (dm_id m) = Some m"
    and "reprocess_loop ul drepo orepo ms result rt s = (result', rt', s')"
  shows "rr_reprocessed_count result' = rr_reprocessed_count result + of_nat (length ms) \<and>
         rr_failure_count result' = rr_failure_count result \<and>
         parked s' = parked s |` (- dm_id ` set ms) \<and> led s' = led s ++ moved_entries rt ms"
  using assms
proof (induction ms arbitrary: result rt s)
  case Nil
  then show ?case by (simp add: moved_entries_def next_ids_def)
next
  case (Cons m ms)
  obtain ob rt1 where ob: "reprocess_message ul m rt = (ob, rt1)" by fastforce
  note obf = reprocess_message_entry [OF ob]
  have same: "rt_uuids rt1 = rt_uuids (snd (now_v7 rt))" "rt_uuid_calls rt1 = rt_uuid_calls (snd (now_v7 rt))"
    using obf by simp_all
  have n: "om_id ob = fst (now_v7 rt)" and ent: "entry_of ob = reprocessed_entry m" using obf by blast+
  from Cons.prems(4) have fresh: "om_id ob \<notin> used s" "fresh_ids (insert (om_id ob) (used s)) (length ms) rt1"
    unfolding n fresh_ids_eq [OF same] by (auto dest: fresh_ids_Suc)
  obtain c s1 where c: "or_create orepo ob s = (c, s1)" by fastforce
  have pm: "parked s (dm_id m) = Some m" using Cons.prems(6) by simp
  from calm_create [OF Cons.prems(1-3) pm ob fresh(1) c]
  have calm1: "calm s1" and used1: "used s1 = insert (om_id ob) (used s)" and okc: "is_ok c" by auto
  from okc obtain u where u: "c = Ok u" by (cases c) auto
  from create_law [OF Cons.prems(1) c] u ent have ok1: "ok s1"
    and led1: "led s1 = (led s)(om_id ob \<mapsto> reprocessed_entry m)" by (auto simp: add_entries_def)
  from create_keeps [OF Cons.prems(2) c] have dok1: "dok s1" and p1: "parked s1 = parked s" by auto
  obtain x s2 where x: "dr_delete drepo (dm_id m) s1 = (x, s2)" by fastforce
  from calm_delete [OF ok1 dok1 calm1 x] have calm2: "calm s2" and "is_ok x" and used2: "used s2 = used s1" by auto
  then obtain v where v: "x = Ok v" by (cases x) auto
  from dlq_delete_law [OF dok1 x] v have dok2: "dok s2" and p2: "parked s2 = (parked s)(dm_id m := None)"
    by (auto simp: p1)
  from dlq_keeps(3) [OF ok1 x] have ok2: "ok s2" and l2: "led s2 = led s1" by auto
  from Cons.prems(7) ob c u x have run: "reprocess_loop ul drepo orepo ms
      (result\<lparr>rr_reprocessed_count := rr_reprocessed_count result + 1\<rparr>) rt1 s2 = (result', rt', s')"
    by simp
  have parked2: "parked s2 (dm_id m') = Some m'" if "m' \<in> set ms" for m'
  proof -
    have "dm_id m' \<noteq> dm_id m" using Cons.prems(5) that by simp (metis imageI)
    with Cons.prems(6) [of m'] that show ?thesis by (simp add: p2)
  qed
  have "rr_reprocessed_count result' = rr_reprocessed_count result + 1 + of_nat (length ms) \<and>
      rr_failure_count result' = rr_failure_count result \<and>
      parked s' = parked s2 |` (- dm_id ` set ms) \<and> led s' = led s2 ++ moved_entries rt1 ms"
    using Cons.IH [OF ok2 dok2 calm2 _ _ parked2 run] fresh(2) Cons.prems(5) by (simp add: used2 used1)
  moreover have "parked s2 |` (- dm_id ` set ms) = parked s |` (- dm_id ` set (m # ms))"
    by (rule ext) (auto simp: p2 restrict_map_def)
  moreover have "led s2 ++ moved_entries rt1 ms = led s ++ moved_entries rt (m # ms)"
  proof -
    have ids: "next_ids rt (length (m # ms)) = om_id ob # next_ids rt1 (length ms)"
      by (simp only: list.size add_Suc_right add_0_right next_ids_Suc n next_ids_eq [OF same])
    have "om_id ob \<notin> set (next_ids rt1 (length ms))" using fresh_ids_disjoint [OF fresh(2)] by auto
    then have "om_id ob \<notin> dom (moved_entries rt1 ms)"
      by (auto simp: moved_entries_def dest!: map_of_SomeD dest: set_zip_leftD)
    then show ?thesis
      unfolding moved_entries_def ids by (simp add: l2 led1 moved_entries_def map_add_upd_left)
  qed
  ultimately show ?case by simp
qed

text \<open>Without failures, reprocessing a topic (or everything) moves every message the page holds.\<close>

lemma reprocess_page_moves:
  assumes "ok s" "dok s" "calm s" and "fresh_ids (used s) 10000 rt"
    and run: "reprocess ul drepo selector orepo rt s = (r, rt', s')"
    and sel: "selector = Sel_Topic t \<and> topic = Some t \<or> selector = Sel_All \<and> topic = None"
  shows "\<exists>res ms. r = Ok res \<and> page_of topic (parked s) reprocess_batch_limit 0 ms \<and>
           rr_reprocessed_count res = of_nat (length ms) \<and> rr_failure_count res = 0 \<and>
           parked s' = parked s |` (- dm_id ` set ms) \<and> led s' = led s ++ moved_entries rt ms"
proof -
  obtain q s1 where q: "dr_get_all drepo topic reprocess_batch_limit 0 s = (q, s1)" by fastforce
  have "reprocess_select drepo selector s = (q, s1)" using sel q by (auto simp: reprocess_select_def)
  note law = reprocess_select_law [OF assms(1,2) this]
  from calm_get_all [OF assms(2,3) _ _ q] have calm1: "calm s1" and "is_ok q" and used1: "used s1 = used s"
    by (auto simp: reprocess_batch_limit_def)
  then obtain ms where ms: "q = Ok ms" by (cases q) auto
  from law ms sel have page: "page_of topic (parked s) reprocess_batch_limit 0 ms"
    and s1: "ok s1" "dok s1" "led s1 = led s" "parked s1 = parked s" "distinct (map dm_id ms)" "length ms \<le> 10000"
    and pms: "\<And>m. m \<in> set ms \<Longrightarrow> parked s1 (dm_id m) = Some m" by auto
  from run ms \<open>reprocess_select drepo selector s = (q, s1)\<close>
  obtain res where res: "reprocess_loop ul drepo orepo ms reprocess_result_default rt s1 = (res, rt', s')"
    and r: "r = Ok res" by (auto simp: reprocess_def split: prod.splits)
  have "fresh_ids (used s1) (length ms) rt"
    unfolding used1 using assms(4) s1(6) by (rule fresh_ids_mono) simp
  from reprocess_loop_moves [OF s1(1,2) calm1 this s1(5) pms res] r page
  show ?thesis by (auto simp: s1 reprocess_result_default_def)
qed

end

end
