(* ===== verification/Db_Dlq.thy ===== *)
theory Db_Dlq
  imports Dead_Letter Db_Table
begin

text \<open>
  \<open>crates/rs-broker-db/src/dlq/repository.rs\<close>, the Postgres implementation of the dead-letter port,
  one definition per method, and its interpretation of \<open>dlq_port\<close>.
\<close>

section \<open>Rows and messages\<close>

definition dlq_message_of_row :: "dlq_row \<Rightarrow> dlq_message" where
  "dlq_message_of_row r =
     \<lparr>dm_id = dw_id r, dm_original_message_id = dw_original_message_id r, dm_original_topic = dw_original_topic r,
      dm_dlq_topic = dw_dlq_topic r, dm_failure_reason = dw_failure_reason r, dm_retry_count = dw_retry_count r,
      dm_payload = dw_payload r, dm_headers = dw_headers r, dm_created_at = dw_created_at r\<rparr>"

definition dlq_row_of_message :: "dlq_message \<Rightarrow> dlq_row" where
  "dlq_row_of_message m =
     \<lparr>dw_id = dm_id m, dw_original_message_id = dm_original_message_id m, dw_original_topic = dm_original_topic m,
      dw_dlq_topic = dm_dlq_topic m, dw_failure_reason = dm_failure_reason m, dw_retry_count = dm_retry_count m,
      dw_payload = dm_payload m, dw_headers = dm_headers m, dw_created_at = dm_created_at m\<rparr>"

lemma dlq_row_roundtrip [simp]:
  "dlq_message_of_row (dlq_row_of_message m) = m" "dlq_row_of_message (dlq_message_of_row r) = r"
  by (simp_all add: dlq_message_of_row_def dlq_row_of_message_def)

lemma dlq_row_ids [simp]: "dm_id (dlq_message_of_row r) = dw_id r" "dw_id (dlq_row_of_message m) = dm_id m"
  by (simp_all add: dlq_message_of_row_def dlq_row_of_message_def)

section \<open>The statements\<close>

definition dlq_storage :: "db \<Rightarrow> sqlx_error \<Rightarrow> dlq_error" where
  "dlq_storage d e = DE_Database (db_error_text d e)"

definition dlq_stmt :: "'a statement \<Rightarrow> db \<Rightarrow> (dlq_error + 'a) \<times> db" where
  "dlq_stmt stmt d = apfst (map_err (dlq_storage d)) (run_statement stmt d)"

definition pg_dlq_create :: "dlq_message \<Rightarrow> db \<Rightarrow> (dlq_error + unit) \<times> db" where
  "pg_dlq_create m d =
     dlq_stmt (\<lambda>env d. map_ok (\<lambda>rs. ((), d\<lparr>db_dlq := rs\<rparr>))
       (insert_rows dlq_row_check dlq_unique [dlq_row_of_message m] (db_dlq d))) d"

definition pg_dlq_get_by_id :: "uuid \<Rightarrow> db \<Rightarrow> (dlq_error + dlq_message) \<times> db" where
  "pg_dlq_get_by_id i d =
     dlq_stmt (\<lambda>env d. case row_at dw_id (db_dlq d) i of
                         None \<Rightarrow> Err RowNotFound
                       | Some r \<Rightarrow> Ok (dlq_message_of_row r, d)) d"

text \<open>The two forms of the query, with and without a topic.\<close>

definition where_topic :: "string option \<Rightarrow> dlq_row list \<Rightarrow> dlq_row list" where
  "where_topic topic rs = (case topic of Some t \<Rightarrow> filter (\<lambda>r. dw_original_topic r = t) rs | None \<Rightarrow> rs)"

text \<open>\<open>ORDER BY created_at DESC\<close>: ascending in the negated time stamp.\<close>

definition pg_dlq_get_all :: "string option \<Rightarrow> i64 \<Rightarrow> i64 \<Rightarrow> db \<Rightarrow> (dlq_error + dlq_message list) \<times> db" where
  "pg_dlq_get_all topic n off d =
     dlq_stmt (\<lambda>env d.
       map_ok (\<lambda>rs. (map dlq_message_of_row rs, d))
         (limit_rows n off (sort_key (\<lambda>r. - dw_created_at r) (where_topic topic (db_dlq d))))) d"

definition pg_dlq_count :: "string option \<Rightarrow> db \<Rightarrow> (dlq_error + i64) \<times> db" where
  "pg_dlq_count topic d =
     dlq_stmt (\<lambda>env d. Ok (of_nat (length (where_topic topic (db_dlq d))), d)) d"

definition pg_dlq_delete :: "uuid \<Rightarrow> db \<Rightarrow> (dlq_error + unit) \<times> db" where
  "pg_dlq_delete i d =
     dlq_stmt (\<lambda>env d. Ok ((), d\<lparr>db_dlq := delete_rows (\<lambda>r. dw_id r = i) (db_dlq d)\<rparr>)) d"

definition pg_dlq_delete_all :: "db \<Rightarrow> (dlq_error + unit) \<times> db" where
  "pg_dlq_delete_all d = dlq_stmt (\<lambda>env d. Ok ((), d\<lparr>db_dlq := []\<rparr>)) d"

definition pg_dlq_repository :: "db dlq_repository" where
  "pg_dlq_repository =
     \<lparr>dr_create = pg_dlq_create, dr_get_by_id = pg_dlq_get_by_id, dr_get_all = pg_dlq_get_all,
      dr_count = pg_dlq_count, dr_delete = pg_dlq_delete, dr_delete_all = pg_dlq_delete_all\<rparr>"

section \<open>The repository keeps the contract\<close>

definition pg_parked :: "db \<Rightarrow> parked" where
  "pg_parked d = table_map dw_id dlq_message_of_row (db_dlq d)"

definition pg_dlq_ok :: "db \<Rightarrow> bool" where
  "pg_dlq_ok d = table_ok dlq_row_check dlq_unique (db_dlq d)"

interpretation dlq: db_table db_dlq dw_id dlq_message_of_row dlq_row_check dlq_unique
proof
  fix d env d1 assume "next_env d = (env, d1)"
  then show "db_dlq d1 = db_dlq d" by (auto dest: next_env_tables)
qed (auto simp: dlq_unique_def distinct_map_filter)

lemma pg_dlq_create_law:
  assumes ok: "pg_dlq_ok s" and run: "pg_dlq_create m s = (r, s')"
  shows "pg_dlq_ok s' \<and> effect r (pg_parked s) ((pg_parked s)(dm_id m \<mapsto> m)) (pg_parked s') \<and>
         (is_ok r \<or> pg_parked s' \<noteq> pg_parked s \<longrightarrow> dm_id m \<notin> dom (pg_parked s))"
proof -
  have "pg_dlq_ok s' \<and> effect r (pg_parked s) ((pg_parked s)(dm_id m \<mapsto> m)) (pg_parked s') \<and>
      (is_ok r \<or> pg_parked s' \<noteq> pg_parked s \<longrightarrow> (\<exists>a::unit. dm_id m \<notin> dom (pg_parked s))) \<and>
      (\<forall>a. r = Ok a \<longrightarrow> dm_id m \<notin> dom (pg_parked s))"
    unfolding pg_dlq_ok_def pg_parked_def
  proof (rule dlq.method_law [OF run [unfolded pg_dlq_create_def dlq_stmt_def] ok [unfolded pg_dlq_ok_def]])
    fix env :: stmt_env and d1 d2 :: db and a :: unit
    assume rows: "db_dlq d1 = db_dlq s"
      and "map_ok (\<lambda>rs. ((), d1\<lparr>db_dlq := rs\<rparr>))
          (insert_rows dlq_row_check dlq_unique [dlq_row_of_message m] (db_dlq d1)) = Ok (a, d2)"
    then obtain rs where d2: "d2 = d1\<lparr>db_dlq := rs\<rparr>"
      and ins: "insert_rows dlq_row_check dlq_unique [dlq_row_of_message m] (db_dlq s) = Ok rs" by auto
    from dlq.insert_one [OF ok [unfolded pg_dlq_ok_def] ins]
    show "table_ok dlq_row_check dlq_unique (db_dlq d2) \<and>
        dlq.table d2 = (dlq.table s)(dm_id m \<mapsto> m) \<and> dm_id m \<notin> dom (dlq.table s)"
      by (simp add: d2)
  qed
  then show ?thesis by blast
qed

lemma pg_dlq_get_by_id_law:
  assumes ok: "pg_dlq_ok s" and run: "pg_dlq_get_by_id i s = (r, s')"
  shows "pg_dlq_ok s' \<and> pg_parked s' = pg_parked s \<and> (\<forall>m. r = Ok m \<longrightarrow> dm_id m = i \<and> pg_parked s i = Some m)"
  unfolding pg_dlq_ok_def pg_parked_def
  by (rule dlq.query_law [OF run [unfolded pg_dlq_get_by_id_def dlq_stmt_def] ok [unfolded pg_dlq_ok_def]])
     (auto simp: table_map_def split: option.splits dest: row_at_key)

lemma dlq_rows_selected:
  assumes ok: "pg_dlq_ok s"
  shows "set (map dlq_message_of_row (where_topic topic (db_dlq s))) =
         selected topic (pg_parked s)"
    (is "set (map _ ?rows) = _")
proof (rule set_eqI)
  fix m
  show "m \<in> set (map dlq_message_of_row ?rows) \<longleftrightarrow> m \<in> selected topic (pg_parked s)"
  proof
    assume "m \<in> set (map dlq_message_of_row ?rows)"
    then obtain r where r: "m = dlq_message_of_row r" "r \<in> set ?rows" by auto
    then have "r \<in> set (db_dlq s)" by (auto simp: where_topic_def split: option.splits)
    from dlq.row_in_table [OF ok [unfolded pg_dlq_ok_def] this] r
    show "m \<in> selected topic (pg_parked s)"
      by (auto simp: selected_def pg_parked_def topic_selects_def where_topic_def dlq_message_of_row_def split: option.splits)
  next
    assume m: "m \<in> selected topic (pg_parked s)"
    then obtain r where r: "r \<in> set (db_dlq s)" "dlq_message_of_row r = m"
      by (auto simp: selected_def pg_parked_def dest!: table_map_Some)
    with m have "r \<in> set ?rows"
      by (auto simp: selected_def topic_selects_def where_topic_def dlq_message_of_row_def split: option.splits)
    with r show "m \<in> set (map dlq_message_of_row ?rows)" by auto
  qed
qed

lemma dlq_rows_distinct:
  assumes "pg_dlq_ok s"
  shows "distinct (map dw_id (where_topic topic (db_dlq s)))"
  using assms by (auto simp: where_topic_def pg_dlq_ok_def table_ok_def dlq_unique_def distinct_map_filter split: option.split)

lemma pg_dlq_get_all_law:
  assumes ok: "pg_dlq_ok s" and run: "pg_dlq_get_all topic n off s = (r, s')"
  shows "pg_dlq_ok s' \<and> pg_parked s' = pg_parked s \<and>
         (\<forall>ms. r = Ok ms \<longrightarrow> page_of topic (pg_parked s) n off ms)"
  unfolding pg_dlq_ok_def pg_parked_def
proof (rule dlq.query_law [OF run [unfolded pg_dlq_get_all_def dlq_stmt_def] ok [unfolded pg_dlq_ok_def]])
  fix env :: stmt_env and d1 d2 :: db and ms
  let ?rows = "where_topic topic (db_dlq s)"
  let ?sorted = "sort_key (\<lambda>r. - dw_created_at r) ?rows"
  assume rows: "db_dlq d1 = db_dlq s"
    and "map_ok (\<lambda>rs. (map dlq_message_of_row rs, d1)) (limit_rows n off (sort_key (\<lambda>r. - dw_created_at r)
        (where_topic topic (db_dlq d1)))) = Ok (ms, d2)"
  then have d2: "d2 = d1" and ms: "ms = take (nat (sint n)) (drop (nat (sint off)) (map dlq_message_of_row ?sorted))"
    by (auto simp: rows limit_rows_Ok take_map drop_map)
  have "distinct (map dm_id (map dlq_message_of_row ?sorted))"
    using dlq_rows_distinct [OF ok] by (simp add: comp_def distinct_map_sort_key)
  moreover have "set (map dlq_message_of_row ?sorted) = selected topic (pg_parked s)"
    using dlq_rows_selected [OF ok] by simp
  moreover have "sorted (rev (map dm_created_at (map dlq_message_of_row ?sorted)))"
  proof -
    have "sorted (map (\<lambda>r. - dw_created_at r) ?sorted)" by (rule sorted_sort_key)
    then show ?thesis
      by (simp add: sorted_wrt_rev sorted_wrt_map comp_def dlq_message_of_row_def)
  qed
  ultimately show "d2 = d1 \<and> page_of topic (dlq.table s) n off ms"
    unfolding page_of_def pg_parked_def [symmetric] using d2 ms by blast
qed

lemma pg_dlq_count_law:
  assumes ok: "pg_dlq_ok s" and run: "pg_dlq_count topic s = (r, s')"
  shows "pg_dlq_ok s' \<and> pg_parked s' = pg_parked s \<and>
         (\<forall>c. r = Ok c \<longrightarrow> c = of_nat (card (selected topic (pg_parked s))))"
proof -
  let ?rows = "where_topic topic (db_dlq s)"
  have "distinct (map dm_id (map dlq_message_of_row ?rows))"
    using dlq_rows_distinct [OF ok] by (simp add: comp_def)
  then have "distinct (map dlq_message_of_row ?rows)" unfolding distinct_map by (rule conjunct1)
  then have "card (selected topic (pg_parked s)) = length ?rows"
    unfolding dlq_rows_selected [OF ok, symmetric] by (simp only: distinct_card length_map)
  then show ?thesis
    unfolding pg_dlq_ok_def pg_parked_def
    by (intro dlq.query_law [OF run [unfolded pg_dlq_count_def dlq_stmt_def] ok [unfolded pg_dlq_ok_def]]) auto
qed

lemma pg_dlq_delete_law:
  assumes ok: "pg_dlq_ok s" and run: "pg_dlq_delete i s = (r, s')"
  shows "pg_dlq_ok s' \<and> effect r (pg_parked s) ((pg_parked s)(i := None)) (pg_parked s')"
proof -
  have "pg_dlq_ok s' \<and> effect r (pg_parked s) ((pg_parked s)(i := None)) (pg_parked s') \<and>
      (is_ok r \<or> pg_parked s' \<noteq> pg_parked s \<longrightarrow> (\<exists>a::unit. True)) \<and> (\<forall>a. r = Ok a \<longrightarrow> True)"
    unfolding pg_dlq_ok_def pg_parked_def
    by (rule dlq.method_law [OF run [unfolded pg_dlq_delete_def dlq_stmt_def] ok [unfolded pg_dlq_ok_def]])
       (use dlq.delete_table [OF ok [unfolded pg_dlq_ok_def], of i] in \<open>auto simp del: fun_upd_apply\<close>)
  then show ?thesis by blast
qed

lemma pg_dlq_delete_all_law:
  assumes ok: "pg_dlq_ok s" and run: "pg_dlq_delete_all s = (r, s')"
  shows "pg_dlq_ok s' \<and> effect r (pg_parked s) Map.empty (pg_parked s')"
proof -
  have "pg_dlq_ok s' \<and> effect r (pg_parked s) Map.empty (pg_parked s') \<and>
      (is_ok r \<or> pg_parked s' \<noteq> pg_parked s \<longrightarrow> (\<exists>a::unit. True)) \<and> (\<forall>a. r = Ok a \<longrightarrow> True)"
    unfolding pg_dlq_ok_def pg_parked_def
    by (rule dlq.method_law [OF run [unfolded pg_dlq_delete_all_def dlq_stmt_def] ok [unfolded pg_dlq_ok_def]])
       (auto simp: table_ok_def dlq_unique_def table_map_def)
  then show ?thesis by blast
qed

lemma pg_parked_key: "pg_dlq_ok s \<Longrightarrow> pg_parked s i = Some m \<Longrightarrow> dm_id m = i"
  by (auto simp: pg_parked_def dest!: table_map_Some)

lemma pg_dlq_repository_simps [simp]:
  "dr_create pg_dlq_repository = pg_dlq_create"
  "dr_get_by_id pg_dlq_repository = pg_dlq_get_by_id"
  "dr_get_all pg_dlq_repository = pg_dlq_get_all"
  "dr_count pg_dlq_repository = pg_dlq_count"
  "dr_delete pg_dlq_repository = pg_dlq_delete"
  "dr_delete_all pg_dlq_repository = pg_dlq_delete_all"
  by (simp_all add: pg_dlq_repository_def)

interpretation pg_dlq: dlq_port pg_dlq_repository pg_parked pg_dlq_ok
proof (unfold_locales, unfold pg_dlq_repository_simps)
qed (rule pg_dlq_create_law pg_dlq_get_by_id_law pg_dlq_get_all_law pg_dlq_count_law
      pg_dlq_delete_law pg_dlq_delete_all_law pg_parked_key; assumption)+

end
