(* ===== verification/Reprocess.thy ===== *)
theory Reprocess
  imports Outbox_System Db_Dlq
begin

text \<open>
  Dead letters on Postgres: the handler of theory Dead_Letter over the outbox and dead-letter tables
  of one database. The interpretations show that the two repositories do not disturb each other's
  tables; the properties say what reprocessing does, with and without failing statements.
\<close>

section \<open>The two repositories share a database\<close>

lemma pg_outbox_create_keeps_dlq:
  assumes "pg_outbox_create m d = (r, d')"
  shows "db_dlq d' = db_dlq d"
proof -
  from assms obtain r0 where "run_statement (outbox_insert [m]) d = (r0, d')"
    by (cases "run_statement (outbox_insert [m]) d") (auto simp: pg_outbox_create_def outbox_stmt_def)
  then show ?thesis
    by (rule run_statement_keeps) (auto simp: outbox_insert_def dest: next_env_tables)
qed

lemma dlq_stmt_keeps_outbox:
  assumes "dlq_stmt stmt d = (r, d')" and "\<And>env d1 a d2. stmt env d1 = Ok (a, d2) \<Longrightarrow> db_outbox d2 = db_outbox d1"
  shows "db_outbox d' = db_outbox d"
proof -
  from assms(1) obtain r0 where "run_statement stmt d = (r0, d')"
    by (cases "run_statement stmt d") (auto simp: dlq_stmt_def)
  then show ?thesis
    by (rule run_statement_keeps) (auto simp: assms(2) dest: next_env_tables)
qed

lemma pg_dlq_keeps_outbox:
  "pg_dlq_get_by_id i d = (r1, d') \<Longrightarrow> db_outbox d' = db_outbox d"
  "pg_dlq_get_all topic n off d = (r2, d') \<Longrightarrow> db_outbox d' = db_outbox d"
  "pg_dlq_delete i d = (r3, d') \<Longrightarrow> db_outbox d' = db_outbox d"
  unfolding pg_dlq_get_by_id_def pg_dlq_get_all_def pg_dlq_delete_def
  by (erule dlq_stmt_keeps_outbox; auto split: option.splits)+

lemma pg_outbox_same:
  "db_outbox d' = db_outbox d \<Longrightarrow> pg_outbox_ok d \<Longrightarrow> pg_outbox_ok d' \<and> pg_ledger d' = pg_ledger d"
  by (simp add: pg_outbox_ok_def pg_ledger_def)

interpretation pg_reprocess: reprocess_ports pg_outbox_repository pg_ledger pg_outbox_ok
    pg_dlq_repository pg_parked pg_dlq_ok
proof (unfold_locales, unfold pg_outbox_repository_simps pg_dlq_repository_simps)
  fix s m r s' assume "pg_dlq_ok s" "pg_outbox_create m s = (r, s')"
  then show "pg_dlq_ok s' \<and> pg_parked s' = pg_parked s"
    using pg_outbox_create_keeps_dlq by (simp add: pg_dlq_ok_def pg_parked_def)
qed (auto intro!: pg_outbox_same dest: pg_dlq_keeps_outbox)

text \<open>The canonical text of a UUID fits a \<open>VARCHAR(255)\<close>; \<open>Uuid::to_string\<close> has 36 characters.\<close>

definition printable_uuids :: "uuid_lib \<Rightarrow> bool" where
  "printable_uuids ul \<longleftrightarrow> (\<forall>u. varchar255 (ul_show ul u))"

definition outbox_used_ids :: "db \<Rightarrow> uuid set" where
  "outbox_used_ids d = ow_id ` set (db_outbox d) \<union> ow_message_id ` set (db_outbox d)"

definition reprocess_calm :: "uuid_lib \<Rightarrow> db \<Rightarrow> bool" where
  "reprocess_calm ul d \<longleftrightarrow> undisturbed d \<and> printable_uuids ul"

lemma reprocess_message_row_check:
  assumes "pg_dlq_ok s" and "pg_parked s i = Some m" and "printable_uuids ul" and "reprocess_message ul m rt = (ob, rt')"
  shows "outbox_row_check (outbox_row_of_message ob)"
proof -
  from assms(1,2) have "dlq_row_check (dlq_row_of_message m)"
    by (auto simp: pg_dlq_ok_def pg_parked_def table_ok_def list_all_iff dest!: table_map_Some)
  then have "varchar255 (dm_original_topic m)" by (simp add: dlq_row_check_def dlq_row_of_message_def)
  moreover have "varchar255 ''reprocess''" "varchar255 ''reprocessed''" by code_simp+
  ultimately show ?thesis
    using assms(3,4)
    by (auto simp: reprocess_message_def outbox_row_check_def outbox_row_of_message_def printable_uuids_def
        nullable_def now_v7_def utc_now_def)
qed

lemma undisturbed_dlq_stmt:
  assumes "undisturbed d" and "dlq_stmt stmt d = (r, d')" and "\<exists>a d2. stmt calm_env d = Ok (a, d2) \<and> undisturbed d2"
  shows "undisturbed d' \<and> is_ok r"
  using assms run_statement_calm [OF assms(1), of stmt] by (auto simp: dlq_stmt_def)

interpretation pg_reprocess: calm_reprocess_ports pg_outbox_repository pg_ledger pg_outbox_ok
    pg_dlq_repository pg_parked pg_dlq_ok ul "reprocess_calm ul" outbox_used_ids for ul
proof (unfold_locales, unfold pg_outbox_repository_simps pg_dlq_repository_simps)
  fix s i m rt ob rt' r s'
  assume s: "pg_outbox_ok s" "pg_dlq_ok s" "reprocess_calm ul s" and m: "pg_parked s i = Some m"
    and ob: "reprocess_message ul m rt = (ob, rt')" and fresh: "om_id ob \<notin> outbox_used_ids s"
    and run: "pg_outbox_create ob s = (r, s')"
  from s(3) have calm: "undisturbed s" and pr: "printable_uuids ul" by (simp_all add: reprocess_calm_def)
  let ?row = "outbox_row_of_message ob"
  have "outbox_row_check ?row" by (rule reprocess_message_row_check [OF s(2) m pr ob])
  moreover have "outbox_unique (db_outbox s @ [?row])"
    using s(1) fresh
    by (auto simp: pg_outbox_ok_def outbox_unique_def outbox_used_ids_def outbox_row_of_message_def)
  ultimately have "outbox_insert [ob] calm_env s = Ok ((), s\<lparr>db_outbox := db_outbox s @ [?row]\<rparr>)"
    by (simp add: outbox_insert_def insert_rows_def)
  with run run_statement_calm [OF calm, of "outbox_insert [ob]"]
  have "r = Ok ()" and s': "s' = s\<lparr>db_outbox := db_outbox s @ [?row]\<rparr>"
    by (auto simp: pg_outbox_create_def outbox_stmt_def)
  with calm pr show "reprocess_calm ul s' \<and> is_ok r \<and> outbox_used_ids s' = insert (om_id ob) (outbox_used_ids s)"
    by (auto simp: reprocess_calm_def undisturbed_def outbox_used_ids_def outbox_row_of_message_def)
next
  fix s i r2 s'
  assume s: "reprocess_calm ul s" and run: "pg_dlq_delete i s = (r2, s')"
  then have "undisturbed s' \<and> is_ok r2"
    unfolding pg_dlq_delete_def reprocess_calm_def
    by (elim undisturbed_dlq_stmt [rotated]) (auto simp: undisturbed_def)
  moreover have "outbox_used_ids s' = outbox_used_ids s"
    using pg_dlq_keeps_outbox(3) [OF run] by (simp add: outbox_used_ids_def)
  ultimately show "reprocess_calm ul s' \<and> is_ok r2 \<and> outbox_used_ids s' = outbox_used_ids s"
    using s by (simp add: reprocess_calm_def)
next
  fix s n off topic r3 s'
  assume s: "reprocess_calm ul s" "0 \<le> sint n" "0 \<le> sint off" and run: "pg_dlq_get_all topic n off s = (r3, s')"
  then have "undisturbed s' \<and> is_ok r3"
    unfolding pg_dlq_get_all_def reprocess_calm_def
    by (elim undisturbed_dlq_stmt [rotated]) (auto simp: limit_rows_def)
  moreover have "outbox_used_ids s' = outbox_used_ids s"
    using pg_dlq_keeps_outbox(2) [OF run] by (simp add: outbox_used_ids_def)
  ultimately show "reprocess_calm ul s' \<and> is_ok r3 \<and> outbox_used_ids s' = outbox_used_ids s"
    using s by (simp add: reprocess_calm_def)
qed

section \<open>What reprocessing does\<close>

text \<open>C12: Reprocessing loses nothing, whichever statements fail. Every ledger entry of the outbox
  stays; every new one is a pending copy of a parked message, on its original topic with its payload
  and headers; a message leaves the dead-letter table only when such a copy is in the outbox. The
  answer counts at most 10000 messages, one error text per failure, and at least as many new outbox
  entries as messages reported as reprocessed.\<close>

theorem reprocess_loses_nothing:
  assumes "pg_outbox_ok d" and "pg_dlq_ok d"
    and "reprocess ul pg_dlq_repository selector pg_outbox_repository rt d = (r, rt', d')"
  shows "pg_outbox_ok d' \<and> pg_dlq_ok d' \<and> pg_ledger d \<subseteq>\<^sub>m pg_ledger d' \<and> pg_parked d' \<subseteq>\<^sub>m pg_parked d \<and>
         (\<forall>i m. pg_parked d i = Some m \<longrightarrow> pg_parked d' i = None \<longrightarrow>
            (\<exists>j. pg_ledger d j = None \<and> pg_ledger d' j = Some (reprocessed_entry m))) \<and>
         (\<forall>j e. pg_ledger d' j = Some e \<longrightarrow> pg_ledger d j = None \<longrightarrow>
            (\<exists>i m. pg_parked d i = Some m \<and> e = reprocessed_entry m)) \<and>
         (\<forall>res. r = Ok res \<longrightarrow>
            length (rr_errors res) = unat (rr_failure_count res) \<and>
            unat (rr_reprocessed_count res) + unat (rr_failure_count res) \<le> 10000 \<and>
            (\<exists>js. distinct js \<and> length js = unat (rr_reprocessed_count res) \<and>
                  set js \<subseteq> dom (pg_ledger d') - dom (pg_ledger d)))"
  by (rule pg_reprocess.reprocess_law [OF assms])

definition sample_dlq_row :: "uuid \<Rightarrow> string \<Rightarrow> timestamp \<Rightarrow> dlq_row" where
  "sample_dlq_row i topic t =
     \<lparr>dw_id = i, dw_original_message_id = 5, dw_original_topic = topic, dw_dlq_topic = ''dlq'',
      dw_failure_reason = ''down'', dw_retry_count = 3, dw_payload = JNull, dw_headers = None, dw_created_at = t\<rparr>"

definition sample_dlq_db :: db where
  "sample_dlq_db = empty_db\<lparr>db_dlq := [sample_dlq_row 101 ''orders'' 5, sample_dlq_row 102 ''users'' 9]\<rparr>"

lemma sample_dlq_db_ok: "pg_outbox_ok sample_dlq_db" "pg_dlq_ok sample_dlq_db"
  by (simp_all add: sample_dlq_db_def empty_db_def pg_outbox_ok_def pg_dlq_ok_def outbox_unique_def table_ok_def dlq_unique_def
    sample_dlq_row_def row_eval)

lemma sample_reprocess:
  "db_dlq (snd (snd (reprocess decimal_uuids pg_dlq_repository (Sel_Topic ''orders'') pg_outbox_repository
     counting_runtime sample_dlq_db))) = [sample_dlq_row 102 ''users'' 9]"
  by code_simp

theorem reprocess_loses_nothing_witness:
  "\<exists>j. pg_ledger (snd (snd (reprocess decimal_uuids pg_dlq_repository (Sel_Topic ''orders'') pg_outbox_repository
        counting_runtime sample_dlq_db))) j =
      Some (reprocessed_entry (dlq_message_of_row (sample_dlq_row 101 ''orders'' 5)))"
proof -
  obtain r rt d where run: "reprocess decimal_uuids pg_dlq_repository (Sel_Topic ''orders'') pg_outbox_repository
      counting_runtime sample_dlq_db = (r, rt, d)" by (metis prod_cases3)
  have "pg_parked sample_dlq_db 101 = Some (dlq_message_of_row (sample_dlq_row 101 ''orders'' 5))"
    by (simp add: pg_parked_def table_map_def sample_dlq_db_def sample_dlq_row_def)
  moreover have "pg_parked d 101 = None"
    using sample_reprocess run by (simp add: pg_parked_def table_map_def sample_dlq_row_def)
  moreover have "\<forall>i m. pg_parked sample_dlq_db i = Some m \<longrightarrow> pg_parked d i = None \<longrightarrow>
      (\<exists>j. pg_ledger sample_dlq_db j = None \<and> pg_ledger d j = Some (reprocessed_entry m))"
    using reprocess_loses_nothing [OF sample_dlq_db_ok run] by (elim conjE)
  ultimately show ?thesis using run by auto
qed

text \<open>C33: On an undisturbed database, and when the generated identifiers are new, reprocessing a topic, or
  everything, moves a whole page: the at most 10000 newest parked messages the selector names. Each
  gets one pending outbox entry under a generated identifier, each leaves the dead-letter table, no
  other row of either table changes, and the answer reports them all as reprocessed, none as failed.\<close>

theorem reprocess_moves_a_page:
  assumes "pg_outbox_ok d" and "pg_dlq_ok d" and "undisturbed d" and "printable_uuids ul"
    and "fresh_ids (outbox_used_ids d) 10000 rt"
    and "reprocess ul pg_dlq_repository selector pg_outbox_repository rt d = (r, rt', d')"
    and "selector = Sel_Topic t \<and> topic = Some t \<or> selector = Sel_All \<and> topic = None"
  shows "\<exists>res ms. r = Ok res \<and> page_of topic (pg_parked d) reprocess_batch_limit 0 ms \<and>
           rr_reprocessed_count res = of_nat (length ms) \<and> rr_failure_count res = 0 \<and>
           pg_parked d' = pg_parked d |` (- dm_id ` set ms) \<and>
           pg_ledger d' = pg_ledger d ++ moved_entries rt ms"
  using pg_reprocess.reprocess_page_moves [OF assms(1,2) _ assms(5-7)] assms(3,4)
  by (simp add: reprocess_calm_def)

lemma utf8_length_le: "utf8_length s \<le> length s"
  by (simp add: utf8_length_def)

lemma length_show_nat: "n < 10 ^ Suc k \<Longrightarrow> length (show_nat n) \<le> Suc k"
proof (induction k arbitrary: n)
  case 0
  then show ?case by (simp add: show_nat.simps [of n])
next
  case (Suc k)
  then have "n div 10 < 10 ^ Suc k" by (simp add: div_less_iff_less_mult)
  from Suc.IH [OF this] show ?case by (simp add: show_nat.simps [of n])
qed

lemma decimal_uuids_printable: "printable_uuids decimal_uuids"
proof -
  have "varchar255 (show_u u)" for u :: uuid
  proof -
    have "unat u < 2 ^ 128" by (rule order_less_le_trans [OF unsigned_less]) simp
    also have "(2 :: nat) ^ 128 < 10 ^ Suc 38" by simp
    finally have "length (show_u u) \<le> 39" unfolding show_u_def by (rule length_show_nat [THEN order_trans]) simp
    with utf8_length_le [of "show_u u"] show ?thesis by (simp add: varchar255_def)
  qed
  then show ?thesis by (simp add: printable_uuids_def decimal_uuids_def)
qed

lemma counting_runtime_fresh: "n < 2 ^ 32 \<Longrightarrow> fresh_ids {} n counting_runtime"
proof -
  assume "n < 2 ^ 32"
  have "inj_on (\<lambda>k. of_nat k + 1 :: uuid) {0..<n}"
  proof (rule inj_onI)
    fix x y assume "x \<in> {0..<n}" "y \<in> {0..<n}" "of_nat x + 1 = (of_nat y + 1 :: uuid)"
    with \<open>n < 2 ^ 32\<close> have "unat (of_nat x :: uuid) = unat (of_nat y :: uuid)" "x < 2 ^ 128" "y < 2 ^ 128" by simp_all
    then show "x = y" by (simp add: unat_of_nat take_bit_nat_eq_self)
  qed
  then show ?thesis by (simp add: fresh_ids_def counting_runtime_def)
qed

theorem reprocess_moves_a_page_witness:
  "\<exists>ms. page_of None (pg_parked sample_dlq_db) reprocess_batch_limit 0 ms \<and>
        pg_parked (snd (snd (reprocess decimal_uuids pg_dlq_repository Sel_All pg_outbox_repository
          counting_runtime sample_dlq_db))) = pg_parked sample_dlq_db |` (- dm_id ` set ms)"
proof -
  obtain r rt d where run: "reprocess decimal_uuids pg_dlq_repository Sel_All pg_outbox_repository
      counting_runtime sample_dlq_db = (r, rt, d)" by (metis prod_cases3)
  have "undisturbed sample_dlq_db" "outbox_used_ids sample_dlq_db = {}"
    by (simp_all add: undisturbed_def outbox_used_ids_def sample_dlq_db_def empty_db_def)
  with reprocess_moves_a_page [OF sample_dlq_db_ok _ decimal_uuids_printable _ run]
    counting_runtime_fresh [of 10000] show ?thesis by (auto simp: run)
qed

end
