(* ===== verification/Proto.thy ===== *)
theory Proto
  imports Runtime
begin

text \<open>
  The wire types (\<open>rs-broker-proto/src/rsbroker.rs\<close>): one record per protobuf message, the four
  enums with their numbers and names, and the routing tables of the two services, as the
  client stubs send calls and as the servers dispatch them. A field of an enum type is an \<open>i32\<close>, as
  in the source. The byte encoding is the work of the \<open>prost\<close> library and is not modelled. The
  locale \<open>wire_enum\<close> states what an enum's four conversions owe each other; it is interpreted for
  each of the four.
\<close>

section \<open>Messages\<close>

record pb_header =
  hd_key :: string
  hd_value :: string

record pb_retry_config =
  wrc_max_retries :: i32
  wrc_initial_delay_ms :: i64
  wrc_multiplier :: f64
  wrc_max_delay_ms :: i64
  wrc_enable_dlq :: bool
  wrc_dlq_topic :: string

record pb_request_metadata =
  wmd_correlation_id :: string
  wmd_source_service :: string
  wmd_timestamp :: i64
  wmd_context :: "string \<rightharpoonup> string"

record pb_publish_request =
  pq_message_id :: string
  pq_aggregate_type :: string
  pq_aggregate_id :: string
  pq_event_type :: string
  pq_payload :: bytes
  pq_headers :: "pb_header list"
  pq_topic :: string
  pq_partition_key :: string
  pq_retry_config :: "pb_retry_config option"
  pq_metadata :: "pb_request_metadata option"

record pb_publish_response =
  pr_message_id :: string
  pr_status :: i32
  pr_duplicate :: bool
  pr_accepted_at :: i64
  pr_error :: string

record pb_publish_batch_request =
  bq_messages :: "pb_publish_request list"
  bq_metadata :: "pb_request_metadata option"

record pb_publish_batch_response =
  br_responses :: "pb_publish_response list"
  br_success_count :: i32
  br_failure_count :: i32

record pb_get_message_status_request =
  gq_message_id :: string
  gq_metadata :: "pb_request_metadata option"

record pb_get_message_status_response =
  gr_message_id :: string
  gr_status :: i32
  gr_retry_count :: i32
  gr_last_updated :: i64
  gr_error_message :: string
  gr_published_at :: i64
  gr_topic :: string

record pb_cancel_message_request =
  cq_message_id :: string
  cq_metadata :: "pb_request_metadata option"

record pb_cancel_message_response =
  cr_success :: bool
  cr_status :: i32
  cr_error :: string

record pb_delivery_config =
  wdc_timeout_ms :: i64
  wdc_max_concurrent :: i32
  wdc_retry_config :: "pb_retry_config option"
  wdc_require_ack :: bool

record pb_register_subscriber_request =
  rgq_subscriber_id :: string
  rgq_service_name :: string
  rgq_grpc_endpoint :: string
  rgq_topic_patterns :: "string list"
  rgq_delivery_config :: "pb_delivery_config option"
  rgq_metadata :: "pb_request_metadata option"

record pb_register_subscriber_response =
  rgr_subscriber_id :: string
  rgr_success :: bool
  rgr_error :: string

record pb_unregister_subscriber_request =
  uq_subscriber_id :: string
  uq_metadata :: "pb_request_metadata option"

record pb_unregister_subscriber_response =
  ur_success :: bool
  ur_error :: string

record pb_update_subscriber_request =
  aq_subscriber_id :: string
  aq_grpc_endpoint :: string
  aq_topic_patterns :: "string list"
  aq_active :: bool
  aq_delivery_config :: "pb_delivery_config option"
  aq_metadata :: "pb_request_metadata option"

record pb_update_subscriber_response =
  ar_success :: bool
  ar_error :: string

record pb_list_subscribers_request =
  lq_topic_filter :: string
  lq_active_only :: bool
  lq_metadata :: "pb_request_metadata option"

record pb_subscriber_info =
  si_subscriber_id :: string
  si_service_name :: string
  si_grpc_endpoint :: string
  si_topic_patterns :: "string list"
  si_active :: bool
  si_registered_at :: i64

record pb_list_subscribers_response =
  lr_subscribers :: "pb_subscriber_info list"

record pb_subscribe_events_request =
  eq_subscriber_id :: string
  eq_topic_patterns :: "string list"
  eq_position :: i32
  eq_metadata :: "pb_request_metadata option"

record pb_deliver_event =
  de_message_id :: string
  de_topic :: string
  de_partition :: i32
  de_offset :: i64
  de_key :: string
  de_payload :: bytes
  de_headers :: "pb_header list"
  de_timestamp :: i64
  de_event_type :: string

record pb_health_request =
  hq_include_metrics :: bool

record pb_component_health =
  ch_name :: string
  ch_status :: i32
  ch_message :: string

record pb_broker_metrics =
  bm_outbox_pending :: i64
  bm_inbox_pending :: i64
  bm_published_today :: i64
  bm_processed_today :: i64
  bm_dlq_count :: i64
  bm_active_subscribers :: i64
  bm_kafka_connected :: bool
  bm_database_connected :: bool

record pb_health_response =
  hr_status :: i32
  hr_components :: "pb_component_health list"
  hr_metrics :: "pb_broker_metrics option"

record pb_reprocess_dlq_request =
  xq_message_id :: string
  xq_topic :: string
  xq_all :: bool
  xq_metadata :: "pb_request_metadata option"

record pb_reprocess_dlq_response =
  xr_reprocessed_count :: i32
  xr_failure_count :: i32
  xr_errors :: "string list"

record pb_list_dlq_messages_request =
  mq_topic :: string
  mq_limit :: i32
  mq_offset :: i32
  mq_metadata :: "pb_request_metadata option"

record pb_dlq_message_info =
  di_message_id :: string
  di_original_topic :: string
  di_dlq_topic :: string
  di_failure_reason :: string
  di_retry_count :: i32
  di_created_at :: i64

record pb_list_dlq_messages_response =
  mr_messages :: "pb_dlq_message_info list"
  mr_total_count :: i32

record pb_deliver_request =
  dq_message_id :: string
  dq_topic :: string
  dq_payload :: bytes
  dq_headers :: "pb_header list"
  dq_timestamp :: i64
  dq_event_type :: string
  dq_retry_count :: i32

record pb_deliver_response =
  pdr_success :: bool
  pdr_error :: string
  pdr_retry :: bool
  pdr_retry_delay_ms :: i64


section \<open>What the conversions of an enum promise\<close>

locale wire_enum =
  fixes number :: "'a \<Rightarrow> i32" and of_number :: "i32 \<Rightarrow> 'a option"
    and name :: "'a \<Rightarrow> string" and of_name :: "string \<Rightarrow> 'a option"
  assumes of_number_number: "of_number (number a) = Some a"
    and number_of_number: "of_number i = Some a \<Longrightarrow> number a = i"
    and of_name_name: "of_name (name a) = Some a"
    and name_of_name: "of_name v = Some a \<Longrightarrow> name a = v"

context wire_enum begin

lemma of_number_iff: "of_number i = Some a \<longleftrightarrow> i = number a"
  using of_number_number number_of_number by blast

lemma of_name_iff: "of_name v = Some a \<longleftrightarrow> v = name a"
  using of_name_name name_of_name by blast

lemma number_inj: "number a = number b \<longleftrightarrow> a = b"
  by (metis of_number_number option.inject)

lemma unknown_number: "of_number i = None \<longleftrightarrow> i \<notin> range number"
proof -
  have "i \<in> range number \<longleftrightarrow> (\<exists>a. of_number i = Some a)" by (auto simp: of_number_iff)
  then show ?thesis by auto
qed

text \<open>Names and numbers translate into each other.\<close>

lemma name_of_number: "map_option number (of_name v) = Some i \<longleftrightarrow> map_option name (of_number i) = Some v"
  by (auto simp: of_name_iff of_number_iff)

end

section \<open>The enums\<close>

text \<open>\<open>_i32\<close> is the cast \<open>as i32\<close>. The derived \<open>TryFrom<i32>\<close> is documented to give the variant whose
  number it is, so \<open>_try_from\<close> looks the number up among the variants.\<close>

definition variant_of :: "('a \<Rightarrow> i32) \<Rightarrow> 'a list \<Rightarrow> i32 \<Rightarrow> 'a option" where
  "variant_of number variants i = List.find (\<lambda>a. number a = i) variants"

lemma variant_of_Some: "variant_of number variants i = Some a \<Longrightarrow> number a = i"
  by (auto simp: variant_of_def find_Some_iff)

datatype pb_message_status =
    MSG_Unspecified
  | MSG_Pending
  | MSG_Publishing
  | MSG_Published
  | MSG_Retrying
  | MSG_Failed
  | MSG_Dlq
  | MSG_Received
  | MSG_Processing
  | MSG_Processed
  | MSG_Delivered

fun message_status_i32 :: "pb_message_status \<Rightarrow> i32" where
  "message_status_i32 MSG_Unspecified = 0"
| "message_status_i32 MSG_Pending = 1"
| "message_status_i32 MSG_Publishing = 2"
| "message_status_i32 MSG_Published = 3"
| "message_status_i32 MSG_Retrying = 4"
| "message_status_i32 MSG_Failed = 5"
| "message_status_i32 MSG_Dlq = 6"
| "message_status_i32 MSG_Received = 7"
| "message_status_i32 MSG_Processing = 8"
| "message_status_i32 MSG_Processed = 9"
| "message_status_i32 MSG_Delivered = 10"

definition message_status_try_from :: "i32 \<Rightarrow> pb_message_status option" where
  "message_status_try_from =
     variant_of message_status_i32
       [MSG_Unspecified, MSG_Pending, MSG_Publishing, MSG_Published, MSG_Retrying, MSG_Failed,
        MSG_Dlq, MSG_Received, MSG_Processing, MSG_Processed, MSG_Delivered]"

fun message_status_as_str_name :: "pb_message_status \<Rightarrow> string" where
  "message_status_as_str_name MSG_Unspecified = ''MESSAGE_STATUS_UNSPECIFIED''"
| "message_status_as_str_name MSG_Pending = ''MESSAGE_STATUS_PENDING''"
| "message_status_as_str_name MSG_Publishing = ''MESSAGE_STATUS_PUBLISHING''"
| "message_status_as_str_name MSG_Published = ''MESSAGE_STATUS_PUBLISHED''"
| "message_status_as_str_name MSG_Retrying = ''MESSAGE_STATUS_RETRYING''"
| "message_status_as_str_name MSG_Failed = ''MESSAGE_STATUS_FAILED''"
| "message_status_as_str_name MSG_Dlq = ''MESSAGE_STATUS_DLQ''"
| "message_status_as_str_name MSG_Received = ''MESSAGE_STATUS_RECEIVED''"
| "message_status_as_str_name MSG_Processing = ''MESSAGE_STATUS_PROCESSING''"
| "message_status_as_str_name MSG_Processed = ''MESSAGE_STATUS_PROCESSED''"
| "message_status_as_str_name MSG_Delivered = ''MESSAGE_STATUS_DELIVERED''"

definition message_status_from_str_name :: "string \<Rightarrow> pb_message_status option" where
  "message_status_from_str_name v =
     (if v = ''MESSAGE_STATUS_UNSPECIFIED'' then Some MSG_Unspecified
      else if v = ''MESSAGE_STATUS_PENDING'' then Some MSG_Pending
      else if v = ''MESSAGE_STATUS_PUBLISHING'' then Some MSG_Publishing
      else if v = ''MESSAGE_STATUS_PUBLISHED'' then Some MSG_Published
      else if v = ''MESSAGE_STATUS_RETRYING'' then Some MSG_Retrying
      else if v = ''MESSAGE_STATUS_FAILED'' then Some MSG_Failed
      else if v = ''MESSAGE_STATUS_DLQ'' then Some MSG_Dlq
      else if v = ''MESSAGE_STATUS_RECEIVED'' then Some MSG_Received
      else if v = ''MESSAGE_STATUS_PROCESSING'' then Some MSG_Processing
      else if v = ''MESSAGE_STATUS_PROCESSED'' then Some MSG_Processed
      else if v = ''MESSAGE_STATUS_DELIVERED'' then Some MSG_Delivered
      else None)"

interpretation wire_message: wire_enum message_status_i32 message_status_try_from message_status_as_str_name message_status_from_str_name
proof
  fix a show "message_status_try_from (message_status_i32 a) = Some a" by (cases a) (simp_all add: message_status_try_from_def variant_of_def)
  show "message_status_from_str_name (message_status_as_str_name a) = Some a" by (cases a) (simp_all add: message_status_from_str_name_def)
qed (auto simp: message_status_try_from_def message_status_from_str_name_def dest: variant_of_Some split: if_splits)

datatype pb_delivery_status =
    DS_Unspecified
  | DS_Pending
  | DS_Delivering
  | DS_Delivered
  | DS_Retrying
  | DS_Failed

fun delivery_status_i32 :: "pb_delivery_status \<Rightarrow> i32" where
  "delivery_status_i32 DS_Unspecified = 0"
| "delivery_status_i32 DS_Pending = 1"
| "delivery_status_i32 DS_Delivering = 2"
| "delivery_status_i32 DS_Delivered = 3"
| "delivery_status_i32 DS_Retrying = 4"
| "delivery_status_i32 DS_Failed = 5"

definition delivery_status_try_from :: "i32 \<Rightarrow> pb_delivery_status option" where
  "delivery_status_try_from =
     variant_of delivery_status_i32
       [DS_Unspecified, DS_Pending, DS_Delivering, DS_Delivered, DS_Retrying, DS_Failed]"

fun delivery_status_as_str_name :: "pb_delivery_status \<Rightarrow> string" where
  "delivery_status_as_str_name DS_Unspecified = ''DELIVERY_STATUS_UNSPECIFIED''"
| "delivery_status_as_str_name DS_Pending = ''DELIVERY_STATUS_PENDING''"
| "delivery_status_as_str_name DS_Delivering = ''DELIVERY_STATUS_DELIVERING''"
| "delivery_status_as_str_name DS_Delivered = ''DELIVERY_STATUS_DELIVERED''"
| "delivery_status_as_str_name DS_Retrying = ''DELIVERY_STATUS_RETRYING''"
| "delivery_status_as_str_name DS_Failed = ''DELIVERY_STATUS_FAILED''"

definition delivery_status_from_str_name :: "string \<Rightarrow> pb_delivery_status option" where
  "delivery_status_from_str_name v =
     (if v = ''DELIVERY_STATUS_UNSPECIFIED'' then Some DS_Unspecified
      else if v = ''DELIVERY_STATUS_PENDING'' then Some DS_Pending
      else if v = ''DELIVERY_STATUS_DELIVERING'' then Some DS_Delivering
      else if v = ''DELIVERY_STATUS_DELIVERED'' then Some DS_Delivered
      else if v = ''DELIVERY_STATUS_RETRYING'' then Some DS_Retrying
      else if v = ''DELIVERY_STATUS_FAILED'' then Some DS_Failed
      else None)"

interpretation wire_delivery: wire_enum delivery_status_i32 delivery_status_try_from delivery_status_as_str_name delivery_status_from_str_name
proof
  fix a show "delivery_status_try_from (delivery_status_i32 a) = Some a" by (cases a) (simp_all add: delivery_status_try_from_def variant_of_def)
  show "delivery_status_from_str_name (delivery_status_as_str_name a) = Some a" by (cases a) (simp_all add: delivery_status_from_str_name_def)
qed (auto simp: delivery_status_try_from_def delivery_status_from_str_name_def dest: variant_of_Some split: if_splits)

datatype pb_subscription_position =
    SP_Unspecified
  | SP_Latest
  | SP_Earliest
  | SP_Timestamp

fun subscription_position_i32 :: "pb_subscription_position \<Rightarrow> i32" where
  "subscription_position_i32 SP_Unspecified = 0"
| "subscription_position_i32 SP_Latest = 1"
| "subscription_position_i32 SP_Earliest = 2"
| "subscription_position_i32 SP_Timestamp = 3"

definition subscription_position_try_from :: "i32 \<Rightarrow> pb_subscription_position option" where
  "subscription_position_try_from =
     variant_of subscription_position_i32
       [SP_Unspecified, SP_Latest, SP_Earliest, SP_Timestamp]"

fun subscription_position_as_str_name :: "pb_subscription_position \<Rightarrow> string" where
  "subscription_position_as_str_name SP_Unspecified = ''SUBSCRIPTION_POSITION_UNSPECIFIED''"
| "subscription_position_as_str_name SP_Latest = ''SUBSCRIPTION_POSITION_LATEST''"
| "subscription_position_as_str_name SP_Earliest = ''SUBSCRIPTION_POSITION_EARLIEST''"
| "subscription_position_as_str_name SP_Timestamp = ''SUBSCRIPTION_POSITION_TIMESTAMP''"

definition subscription_position_from_str_name :: "string \<Rightarrow> pb_subscription_position option" where
  "subscription_position_from_str_name v =
     (if v = ''SUBSCRIPTION_POSITION_UNSPECIFIED'' then Some SP_Unspecified
      else if v = ''SUBSCRIPTION_POSITION_LATEST'' then Some SP_Latest
      else if v = ''SUBSCRIPTION_POSITION_EARLIEST'' then Some SP_Earliest
      else if v = ''SUBSCRIPTION_POSITION_TIMESTAMP'' then Some SP_Timestamp
      else None)"

interpretation wire_position: wire_enum subscription_position_i32 subscription_position_try_from subscription_position_as_str_name subscription_position_from_str_name
proof
  fix a show "subscription_position_try_from (subscription_position_i32 a) = Some a" by (cases a) (simp_all add: subscription_position_try_from_def variant_of_def)
  show "subscription_position_from_str_name (subscription_position_as_str_name a) = Some a" by (cases a) (simp_all add: subscription_position_from_str_name_def)
qed (auto simp: subscription_position_try_from_def subscription_position_from_str_name_def dest: variant_of_Some split: if_splits)

datatype pb_health_status =
    HS_Unspecified
  | HS_Healthy
  | HS_Degraded
  | HS_Unhealthy

fun health_status_i32 :: "pb_health_status \<Rightarrow> i32" where
  "health_status_i32 HS_Unspecified = 0"
| "health_status_i32 HS_Healthy = 1"
| "health_status_i32 HS_Degraded = 2"
| "health_status_i32 HS_Unhealthy = 3"

definition health_status_try_from :: "i32 \<Rightarrow> pb_health_status option" where
  "health_status_try_from =
     variant_of health_status_i32
       [HS_Unspecified, HS_Healthy, HS_Degraded, HS_Unhealthy]"

fun health_status_as_str_name :: "pb_health_status \<Rightarrow> string" where
  "health_status_as_str_name HS_Unspecified = ''HEALTH_STATUS_UNSPECIFIED''"
| "health_status_as_str_name HS_Healthy = ''HEALTH_STATUS_HEALTHY''"
| "health_status_as_str_name HS_Degraded = ''HEALTH_STATUS_DEGRADED''"
| "health_status_as_str_name HS_Unhealthy = ''HEALTH_STATUS_UNHEALTHY''"

definition health_status_from_str_name :: "string \<Rightarrow> pb_health_status option" where
  "health_status_from_str_name v =
     (if v = ''HEALTH_STATUS_UNSPECIFIED'' then Some HS_Unspecified
      else if v = ''HEALTH_STATUS_HEALTHY'' then Some HS_Healthy
      else if v = ''HEALTH_STATUS_DEGRADED'' then Some HS_Degraded
      else if v = ''HEALTH_STATUS_UNHEALTHY'' then Some HS_Unhealthy
      else None)"

interpretation wire_health: wire_enum health_status_i32 health_status_try_from health_status_as_str_name health_status_from_str_name
proof
  fix a show "health_status_try_from (health_status_i32 a) = Some a" by (cases a) (simp_all add: health_status_try_from_def variant_of_def)
  show "health_status_from_str_name (health_status_as_str_name a) = Some a" by (cases a) (simp_all add: health_status_from_str_name_def)
qed (auto simp: health_status_try_from_def health_status_from_str_name_def dest: variant_of_Some split: if_splits)

text \<open>The derived order of an enum is the order of its numbers.\<close>

instantiation pb_message_status :: linorder
begin

definition less_eq_pb_message_status :: "pb_message_status \<Rightarrow> pb_message_status \<Rightarrow> bool" where
  "less_eq_pb_message_status a b \<longleftrightarrow> sint (message_status_i32 a) \<le> sint (message_status_i32 b)"

definition less_pb_message_status :: "pb_message_status \<Rightarrow> pb_message_status \<Rightarrow> bool" where
  "less_pb_message_status a b \<longleftrightarrow> sint (message_status_i32 a) < sint (message_status_i32 b)"

instance
proof
  fix a b :: pb_message_status
  assume "a \<le> b" "b \<le> a"
  then have "sint (message_status_i32 a) = sint (message_status_i32 b)"
    by (simp add: less_eq_pb_message_status_def)
  then have "message_status_i32 a = message_status_i32 b" by (rule signed_word_eqI)
  then show "a = b" by (simp only: wire_message.number_inj)
qed (auto simp: less_eq_pb_message_status_def less_pb_message_status_def)

end

section \<open>The services' routes\<close>

text \<open>A client method names the path it posts to, how the call streams and the method it records in
  the request's extensions; the server matches on the path. \<open>None\<close> is the answer with gRPC status
  12 (unimplemented).\<close>

datatype rpc =
    RPC_Publish
  | RPC_PublishBatch
  | RPC_GetMessageStatus
  | RPC_CancelMessage
  | RPC_RegisterSubscriber
  | RPC_UnregisterSubscriber
  | RPC_UpdateSubscriber
  | RPC_ListSubscribers
  | RPC_SubscribeEvents
  | RPC_StreamPublish
  | RPC_GetHealth
  | RPC_ReprocessDlq
  | RPC_ListDlqMessages

datatype call_kind = Unary | Server_Streaming | Streaming

record outgoing_call =
  oc_path :: string
  oc_kind :: call_kind
  oc_method :: "string \<times> string"

fun rs_broker_client_call :: "rpc \<Rightarrow> outgoing_call" where
  "rs_broker_client_call RPC_Publish =
     \<lparr>oc_path = ''/rsbroker.RsBroker/Publish'', oc_kind = Unary,
      oc_method = (''rsbroker.RsBroker'', ''Publish'')\<rparr>"
| "rs_broker_client_call RPC_PublishBatch =
     \<lparr>oc_path = ''/rsbroker.RsBroker/PublishBatch'', oc_kind = Unary,
      oc_method = (''rsbroker.RsBroker'', ''PublishBatch'')\<rparr>"
| "rs_broker_client_call RPC_GetMessageStatus =
     \<lparr>oc_path = ''/rsbroker.RsBroker/GetMessageStatus'', oc_kind = Unary,
      oc_method = (''rsbroker.RsBroker'', ''GetMessageStatus'')\<rparr>"
| "rs_broker_client_call RPC_CancelMessage =
     \<lparr>oc_path = ''/rsbroker.RsBroker/CancelMessage'', oc_kind = Unary,
      oc_method = (''rsbroker.RsBroker'', ''CancelMessage'')\<rparr>"
| "rs_broker_client_call RPC_RegisterSubscriber =
     \<lparr>oc_path = ''/rsbroker.RsBroker/RegisterSubscriber'', oc_kind = Unary,
      oc_method = (''rsbroker.RsBroker'', ''RegisterSubscriber'')\<rparr>"
| "rs_broker_client_call RPC_UnregisterSubscriber =
     \<lparr>oc_path = ''/rsbroker.RsBroker/UnregisterSubscriber'', oc_kind = Unary,
      oc_method = (''rsbroker.RsBroker'', ''UnregisterSubscriber'')\<rparr>"
| "rs_broker_client_call RPC_UpdateSubscriber =
     \<lparr>oc_path = ''/rsbroker.RsBroker/UpdateSubscriber'', oc_kind = Unary,
      oc_method = (''rsbroker.RsBroker'', ''UpdateSubscriber'')\<rparr>"
| "rs_broker_client_call RPC_ListSubscribers =
     \<lparr>oc_path = ''/rsbroker.RsBroker/ListSubscribers'', oc_kind = Unary,
      oc_method = (''rsbroker.RsBroker'', ''ListSubscribers'')\<rparr>"
| "rs_broker_client_call RPC_SubscribeEvents =
     \<lparr>oc_path = ''/rsbroker.RsBroker/SubscribeEvents'', oc_kind = Server_Streaming,
      oc_method = (''rsbroker.RsBroker'', ''SubscribeEvents'')\<rparr>"
| "rs_broker_client_call RPC_StreamPublish =
     \<lparr>oc_path = ''/rsbroker.RsBroker/StreamPublish'', oc_kind = Streaming,
      oc_method = (''rsbroker.RsBroker'', ''StreamPublish'')\<rparr>"
| "rs_broker_client_call RPC_GetHealth =
     \<lparr>oc_path = ''/rsbroker.RsBroker/GetHealth'', oc_kind = Unary,
      oc_method = (''rsbroker.RsBroker'', ''GetHealth'')\<rparr>"
| "rs_broker_client_call RPC_ReprocessDlq =
     \<lparr>oc_path = ''/rsbroker.RsBroker/ReprocessDlq'', oc_kind = Unary,
      oc_method = (''rsbroker.RsBroker'', ''ReprocessDlq'')\<rparr>"
| "rs_broker_client_call RPC_ListDlqMessages =
     \<lparr>oc_path = ''/rsbroker.RsBroker/ListDlqMessages'', oc_kind = Unary,
      oc_method = (''rsbroker.RsBroker'', ''ListDlqMessages'')\<rparr>"

definition rs_broker_server_call :: "string \<Rightarrow> (rpc \<times> call_kind) option" where
  "rs_broker_server_call path =
     (if path = ''/rsbroker.RsBroker/Publish'' then Some (RPC_Publish, Unary)
      else if path = ''/rsbroker.RsBroker/PublishBatch'' then Some (RPC_PublishBatch, Unary)
      else if path = ''/rsbroker.RsBroker/GetMessageStatus'' then Some (RPC_GetMessageStatus, Unary)
      else if path = ''/rsbroker.RsBroker/CancelMessage'' then Some (RPC_CancelMessage, Unary)
      else if path = ''/rsbroker.RsBroker/RegisterSubscriber'' then Some (RPC_RegisterSubscriber, Unary)
      else if path = ''/rsbroker.RsBroker/UnregisterSubscriber'' then Some (RPC_UnregisterSubscriber, Unary)
      else if path = ''/rsbroker.RsBroker/UpdateSubscriber'' then Some (RPC_UpdateSubscriber, Unary)
      else if path = ''/rsbroker.RsBroker/ListSubscribers'' then Some (RPC_ListSubscribers, Unary)
      else if path = ''/rsbroker.RsBroker/SubscribeEvents'' then Some (RPC_SubscribeEvents, Server_Streaming)
      else if path = ''/rsbroker.RsBroker/StreamPublish'' then Some (RPC_StreamPublish, Streaming)
      else if path = ''/rsbroker.RsBroker/GetHealth'' then Some (RPC_GetHealth, Unary)
      else if path = ''/rsbroker.RsBroker/ReprocessDlq'' then Some (RPC_ReprocessDlq, Unary)
      else if path = ''/rsbroker.RsBroker/ListDlqMessages'' then Some (RPC_ListDlqMessages, Unary)
      else None)"

definition callback_client_deliver :: outgoing_call where
  "callback_client_deliver =
     \<lparr>oc_path = ''/rsbroker.RsBrokerCallback/Deliver'', oc_kind = Unary,
      oc_method = (''rsbroker.RsBrokerCallback'', ''Deliver'')\<rparr>"

definition callback_server_call :: "string \<Rightarrow> call_kind option" where
  "callback_server_call path =
     (if path = ''/rsbroker.RsBrokerCallback/Deliver'' then Some Unary else None)"

text \<open>One arm of a match over literals.\<close>

lemma if_SomeE:
  assumes "(if P then Some x else y) = Some z" and "P \<Longrightarrow> x = z \<Longrightarrow> Q" and "y = Some z \<Longrightarrow> Q"
  shows Q
  using assms by (auto split: if_splits)

lemma server_call_Some:
  assumes "rs_broker_server_call path = Some (r, k)"
  shows "path = oc_path (rs_broker_client_call r) \<and> k = oc_kind (rs_broker_client_call r)"
  using assms unfolding rs_broker_server_call_def by (elim if_SomeE) auto

lemma server_call_client:
  "rs_broker_server_call (oc_path (rs_broker_client_call r)) = Some (r, oc_kind (rs_broker_client_call r))"
  by (cases r) (simp_all add: rs_broker_server_call_def)

text \<open>The client stubs and the servers agree. A path reaches a method of the broker exactly when
  the client stub of that method posts to it, with the same kind of streaming; the path is the
  recorded service and method name; and each of the two services leaves the other's paths unimplemented.\<close>

theorem client_server_agree:
  "(rs_broker_server_call path = Some (r, k) \<longleftrightarrow>
      path = oc_path (rs_broker_client_call r) \<and> k = oc_kind (rs_broker_client_call r)) \<and>
   oc_path (rs_broker_client_call r) =
     ''/'' @ fst (oc_method (rs_broker_client_call r)) @ ''/'' @ snd (oc_method (rs_broker_client_call r)) \<and>
   (callback_server_call path = Some k \<longleftrightarrow>
      path = oc_path callback_client_deliver \<and> k = oc_kind callback_client_deliver) \<and>
   callback_server_call (oc_path (rs_broker_client_call r)) = None \<and>
   rs_broker_server_call (oc_path callback_client_deliver) = None"
proof (intro conjI)
  show "rs_broker_server_call path = Some (r, k) \<longleftrightarrow>
      path = oc_path (rs_broker_client_call r) \<and> k = oc_kind (rs_broker_client_call r)"
    using server_call_Some server_call_client by blast
  show "oc_path (rs_broker_client_call r) =
     ''/'' @ fst (oc_method (rs_broker_client_call r)) @ ''/'' @ snd (oc_method (rs_broker_client_call r))"
    by (cases r) simp_all
  show "callback_server_call (oc_path (rs_broker_client_call r)) = None"
    by (cases r) (simp_all add: callback_server_call_def)
qed (auto simp: callback_server_call_def callback_client_deliver_def rs_broker_server_call_def)

end
