(* ===== verification/Service.thy ===== *)
theory Service
  imports Proto Accept Reprocess Db_Subscriber
begin

text \<open>
  The service behind both APIs (\<open>rs-broker-server/src/grpc/service.rs\<close>, the build with a database):
  the \<open>_inner\<close> bodies that the gRPC trait and the REST handlers share, the two streaming methods, and
  the unary trait methods. The service is a record of the ports it holds, over the state \<open>'s\<close> of
  whatever implements them; \<open>with_kafka\<close> builds it on Postgres. The laws of the bodies are proved in
  the contexts of the port locales and reach the Postgres service through their interpretations.
\<close>

section \<open>Status\<close>

text \<open>The codes of \<open>tonic::Code\<close> and the part of \<open>tonic::Status\<close> the code reads.\<close>

datatype code =
    Code_Ok | Cancelled | Unknown | InvalidArgument | DeadlineExceeded | NotFound | AlreadyExists
  | PermissionDenied | ResourceExhausted | FailedPrecondition | Aborted | OutOfRange | Unimplemented
  | Internal | Unavailable | DataLoss | Unauthenticated

record grpc_status =
  gs_code :: code
  gs_message :: string

definition invalid_argument :: "string \<Rightarrow> grpc_status" where
  "invalid_argument m = \<lparr>gs_code = InvalidArgument, gs_message = m\<rparr>"

definition not_found :: "string \<Rightarrow> grpc_status" where
  "not_found m = \<lparr>gs_code = NotFound, gs_message = m\<rparr>"

definition internal_error :: "string \<Rightarrow> grpc_status" where
  "internal_error m = \<lparr>gs_code = Internal, gs_message = m\<rparr>"

lemma status_codes [simp]:
  "gs_code (invalid_argument m) = InvalidArgument" "gs_code (not_found m) = NotFound"
  "gs_code (internal_error m) = Internal" "gs_message (invalid_argument m) = m"
  "gs_message (not_found m) = m" "gs_message (internal_error m) = m"
  by (simp_all add: invalid_argument_def not_found_def internal_error_def)

section \<open>Publishing\<close>

definition publish_input :: "pb_publish_request \<Rightarrow> publish_request_input" where
  "publish_input req =
     \<lparr>pi_message_id = Some (pq_message_id req), pi_aggregate_type = pq_aggregate_type req,
      pi_aggregate_id = pq_aggregate_id req, pi_event_type = pq_event_type req, pi_payload = pq_payload req,
      pi_headers = map (\<lambda>h. (hd_key h, hd_value h)) (pq_headers req), pi_topic = pq_topic req,
      pi_partition_key = (if pq_partition_key req = [] then None else Some (pq_partition_key req))\<rparr>"

definition accept_status :: "accept_error \<Rightarrow> grpc_status" where
  "accept_status e =
     (case e of
        InvalidPayload _ \<Rightarrow> invalid_argument (accept_error_to_string e)
      | InvalidMessageId _ \<Rightarrow> invalid_argument (accept_error_to_string e)
      | Storage _ \<Rightarrow> internal_error (accept_error_to_string e))"

definition accepted_response :: "uuid_lib \<Rightarrow> uuid \<Rightarrow> timestamp \<Rightarrow> pb_publish_response" where
  "accepted_response ul i now =
     \<lparr>pr_message_id = ul_show ul i, pr_status = message_status_i32 MSG_Pending, pr_duplicate = False,
      pr_accepted_at = ts_seconds now, pr_error = ''''\<rparr>"

definition refused_response :: "string \<Rightarrow> pb_publish_response" where
  "refused_response e =
     \<lparr>pr_message_id = '''', pr_status = message_status_i32 MSG_Pending, pr_duplicate = False,
      pr_accepted_at = 0, pr_error = e\<rparr>"

definition process_publish ::
  "uuid_lib \<Rightarrow> serde \<Rightarrow> 's outbox_repository \<Rightarrow> pb_publish_request \<Rightarrow> runtime \<Rightarrow> 's
     \<Rightarrow> (grpc_status + pb_publish_response) \<times> runtime \<times> 's" where
  "process_publish ul sd use_case req rt s =
     (case accept_apply ul sd use_case (publish_input req) rt s of
        (Err e, rt1, s1) \<Rightarrow> (Err (accept_status e), rt1, s1)
      | (Ok i, rt1, s1) \<Rightarrow> (let (now, rt2) = utc_now rt1 in (Ok (accepted_response ul i now), rt2, s1)))"

text \<open>The loop over the results of a batch.\<close>

fun batch_responses ::
  "uuid_lib \<Rightarrow> (accept_error + uuid) list \<Rightarrow> pb_publish_batch_response \<Rightarrow> runtime
     \<Rightarrow> pb_publish_batch_response \<times> runtime" where
  "batch_responses ul [] acc rt = (acc, rt)"
| "batch_responses ul (Ok i # rs) acc rt =
     (let (now, rt1) = utc_now rt
      in batch_responses ul rs
           (acc\<lparr>br_responses := br_responses acc @ [accepted_response ul i now],
                br_success_count := br_success_count acc + 1\<rparr>) rt1)"
| "batch_responses ul (Err e # rs) acc rt =
     batch_responses ul rs
       (acc\<lparr>br_responses := br_responses acc @ [refused_response (accept_error_to_string e)],
            br_failure_count := br_failure_count acc + 1\<rparr>) rt"

definition process_publish_batch ::
  "uuid_lib \<Rightarrow> serde \<Rightarrow> 's outbox_repository \<Rightarrow> pb_publish_batch_request \<Rightarrow> runtime \<Rightarrow> 's
     \<Rightarrow> (grpc_status + pb_publish_batch_response) \<times> runtime \<times> 's" where
  "process_publish_batch ul sd use_case req rt s =
     (let (results, rt1, s1) = accept_apply_batch ul sd use_case (map publish_input (bq_messages req)) rt s;
          (response, rt2) = batch_responses ul results
             \<lparr>br_responses = [], br_success_count = 0, br_failure_count = 0\<rparr> rt1
      in (Ok response, rt2, s1))"

section \<open>The service\<close>

text \<open>What a broadcast receiver yields: an event, or the report that it lagged and how many it
  missed. The channel belongs to \<open>tokio\<close>; \<open>bs_events\<close> is what a receiver subscribed now will yield.\<close>

datatype broadcast_item = Received pb_deliver_event | Lagged u64

record 's rs_broker_service =
  bs_acquire :: "'s \<Rightarrow> bool \<times> 's"      \<comment> \<open>whether the pool hands out a connection\<close>
  bs_outbox_repo :: "'s outbox_repository"
  bs_accept_message :: "'s outbox_repository"
  bs_subscriber_repo :: "'s subscriber_repository"
  bs_dlq_handler :: "'s dlq_repository"
  bs_kafka_connected :: bool
  bs_events :: "broadcast_item list"

definition with_kafka ::
  "uuid_lib \<Rightarrow> (db \<Rightarrow> bool \<times> db) \<Rightarrow> broadcast_item list \<Rightarrow> bool \<Rightarrow> db rs_broker_service" where
  "with_kafka ul acquire events kafka_connected =
     \<lparr>bs_acquire = acquire, bs_outbox_repo = pg_outbox_repository, bs_accept_message = pg_outbox_repository,
      bs_subscriber_repo = pg_subscriber_repository ul, bs_dlq_handler = pg_dlq_repository,
      bs_kafka_connected = kafka_connected, bs_events = events\<rparr>"

definition rs_broker_service_new :: "uuid_lib \<Rightarrow> (db \<Rightarrow> bool \<times> db) \<Rightarrow> broadcast_item list \<Rightarrow> db rs_broker_service" where
  "rs_broker_service_new ul acquire events = with_kafka ul acquire events False"

lemma with_kafka_simps [simp]:
  "bs_acquire (with_kafka ul acq ev k) = acq" "bs_outbox_repo (with_kafka ul acq ev k) = pg_outbox_repository"
  "bs_accept_message (with_kafka ul acq ev k) = pg_outbox_repository"
  "bs_subscriber_repo (with_kafka ul acq ev k) = pg_subscriber_repository ul"
  "bs_dlq_handler (with_kafka ul acq ev k) = pg_dlq_repository"
  "bs_kafka_connected (with_kafka ul acq ev k) = k" "bs_events (with_kafka ul acq ev k) = ev"
  by (simp_all add: with_kafka_def)

definition publish_inner ::
  "uuid_lib \<Rightarrow> serde \<Rightarrow> 's rs_broker_service \<Rightarrow> pb_publish_request \<Rightarrow> runtime \<Rightarrow> 's
     \<Rightarrow> (grpc_status + pb_publish_response) \<times> runtime \<times> 's" where
  "publish_inner ul sd svc req rt s = process_publish ul sd (bs_accept_message svc) req rt s"

definition publish_batch_inner ::
  "uuid_lib \<Rightarrow> serde \<Rightarrow> 's rs_broker_service \<Rightarrow> pb_publish_batch_request \<Rightarrow> runtime \<Rightarrow> 's
     \<Rightarrow> (grpc_status + pb_publish_batch_response) \<times> runtime \<times> 's" where
  "publish_batch_inner ul sd svc req rt s = process_publish_batch ul sd (bs_accept_message svc) req rt s"

section \<open>Message status and cancellation\<close>

text \<open>\<open>Uuid::parse_str\<close> of a request field.\<close>

definition parse_id :: "uuid_lib \<Rightarrow> string \<Rightarrow> string \<Rightarrow> grpc_status + uuid" where
  "parse_id ul field v =
     map_err (\<lambda>e. invalid_argument (''Invalid '' @ field @ '': '' @ e)) (ul_parse ul v)"

fun wire_message_status :: "message_status \<Rightarrow> pb_message_status" where
  "wire_message_status Pending = MSG_Pending"
| "wire_message_status Publishing = MSG_Publishing"
| "wire_message_status Published = MSG_Published"
| "wire_message_status Retrying = MSG_Retrying"
| "wire_message_status Failed = MSG_Failed"
| "wire_message_status Dlq = MSG_Dlq"

definition get_message_status_inner ::
  "uuid_lib \<Rightarrow> 's rs_broker_service \<Rightarrow> pb_get_message_status_request \<Rightarrow> 's
     \<Rightarrow> (grpc_status + pb_get_message_status_response) \<times> 's" where
  "get_message_status_inner ul svc req s =
     (case parse_id ul ''message_id'' (gq_message_id req) of
        Err e \<Rightarrow> (Err e, s)
      | Ok message_id \<Rightarrow>
          (case or_get_by_id (bs_outbox_repo svc) message_id s of
             (Err e, s1) \<Rightarrow> (Err (not_found (''Message not found: '' @ outbox_error_to_string ul e)), s1)
           | (Ok message, s1) \<Rightarrow>
               (Ok \<lparr>gr_message_id = gq_message_id req,
                    gr_status = message_status_i32 (wire_message_status (om_status message)),
                    gr_retry_count = om_retry_count message,
                    gr_last_updated = ts_seconds (om_updated_at message),
                    gr_error_message = unwrap_or (om_error_message message) '''',
                    gr_published_at = unwrap_or (map_option ts_seconds (om_published_at message)) 0,
                    gr_topic = om_topic message\<rparr>, s1)))"

definition cancelled_response :: "bool \<Rightarrow> pb_message_status \<Rightarrow> string \<Rightarrow> pb_cancel_message_response" where
  "cancelled_response success status e =
     \<lparr>cr_success = success, cr_status = message_status_i32 status, cr_error = e\<rparr>"

text \<open>Cancelling is two statements: the check, which decides whether to go on, and the deletion.\<close>

definition cancel_check ::
  "'s rs_broker_service \<Rightarrow> uuid \<Rightarrow> 's \<Rightarrow> pb_cancel_message_response option \<times> 's" where
  "cancel_check svc message_id s =
     (case or_get_by_id (bs_outbox_repo svc) message_id s of
        (Err _, s1) \<Rightarrow> (Some (cancelled_response False MSG_Unspecified ''Message not found''), s1)
      | (Ok message, s1) \<Rightarrow>
          (if om_status message \<noteq> Pending
           then (Some (cancelled_response False MSG_Pending ''Only pending messages can be cancelled''), s1)
           else (None, s1)))"

definition cancel_delete ::
  "uuid_lib \<Rightarrow> 's rs_broker_service \<Rightarrow> uuid \<Rightarrow> 's \<Rightarrow> (grpc_status + pb_cancel_message_response) \<times> 's" where
  "cancel_delete ul svc message_id s =
     (case or_delete (bs_outbox_repo svc) message_id s of
        (Err e, s1) \<Rightarrow> (Err (internal_error (''Failed to cancel message: '' @ outbox_error_to_string ul e)), s1)
      | (Ok _, s1) \<Rightarrow> (Ok (cancelled_response True MSG_Pending ''''), s1))"

definition cancel_message_inner ::
  "uuid_lib \<Rightarrow> 's rs_broker_service \<Rightarrow> pb_cancel_message_request \<Rightarrow> 's
     \<Rightarrow> (grpc_status + pb_cancel_message_response) \<times> 's" where
  "cancel_message_inner ul svc req s =
     (case parse_id ul ''message_id'' (cq_message_id req) of
        Err e \<Rightarrow> (Err e, s)
      | Ok message_id \<Rightarrow>
          (case cancel_check svc message_id s of
             (Some response, s1) \<Rightarrow> (Ok response, s1)
           | (None, s1) \<Rightarrow> cancel_delete ul svc message_id s1))"

section \<open>Subscribers\<close>

definition register_subscriber_inner ::
  "uuid_lib \<Rightarrow> 's rs_broker_service \<Rightarrow> pb_register_subscriber_request \<Rightarrow> runtime \<Rightarrow> 's
     \<Rightarrow> (grpc_status + pb_register_subscriber_response) \<times> runtime \<times> 's" where
  "register_subscriber_inner ul svc req rt s =
     (let (u, rt1) = subscriber_new (rgq_service_name req) (rgq_grpc_endpoint req) (rgq_topic_patterns req) rt
      in case sr_create (bs_subscriber_repo svc) u s of
           (Err e, s1) \<Rightarrow>
             (Err (internal_error (''Failed to register subscriber: '' @ subscriber_error_to_string ul e)), rt1, s1)
         | (Ok _, s1) \<Rightarrow>
             (Ok \<lparr>rgr_subscriber_id = ul_show ul (su_id u), rgr_success = True, rgr_error = ''''\<rparr>, rt1, s1))"

definition unregister_subscriber_inner ::
  "uuid_lib \<Rightarrow> 's rs_broker_service \<Rightarrow> pb_unregister_subscriber_request \<Rightarrow> 's
     \<Rightarrow> (grpc_status + pb_unregister_subscriber_response) \<times> 's" where
  "unregister_subscriber_inner ul svc req s =
     (case parse_id ul ''subscriber_id'' (uq_subscriber_id req) of
        Err e \<Rightarrow> (Err e, s)
      | Ok i \<Rightarrow>
          (case sr_deactivate (bs_subscriber_repo svc) i s of
             (Err e, s1) \<Rightarrow>
               (Err (internal_error (''Failed to unregister subscriber: '' @ subscriber_error_to_string ul e)), s1)
           | (Ok _, s1) \<Rightarrow> (Ok \<lparr>ur_success = True, ur_error = ''''\<rparr>, s1)))"

definition update_fields :: "pb_update_subscriber_request \<Rightarrow> subscriber \<Rightarrow> subscriber" where
  "update_fields req u =
     (let u1 = (if aq_grpc_endpoint req \<noteq> [] then u\<lparr>su_grpc_endpoint := aq_grpc_endpoint req\<rparr> else u);
          u2 = (if aq_topic_patterns req \<noteq> [] then u1\<lparr>su_topic_patterns := aq_topic_patterns req\<rparr> else u1)
      in u2\<lparr>su_active := aq_active req\<rparr>)"

definition update_subscriber_inner ::
  "uuid_lib \<Rightarrow> 's rs_broker_service \<Rightarrow> pb_update_subscriber_request \<Rightarrow> 's
     \<Rightarrow> (grpc_status + pb_update_subscriber_response) \<times> 's" where
  "update_subscriber_inner ul svc req s =
     (case parse_id ul ''subscriber_id'' (aq_subscriber_id req) of
        Err e \<Rightarrow> (Err e, s)
      | Ok i \<Rightarrow>
          (case sr_get_by_id (bs_subscriber_repo svc) i s of
             (Err e, s1) \<Rightarrow> (Err (not_found (''Subscriber not found: '' @ subscriber_error_to_string ul e)), s1)
           | (Ok u, s1) \<Rightarrow>
               (case sr_update (bs_subscriber_repo svc) (update_fields req u) s1 of
                  (Err e, s2) \<Rightarrow>
                    (Err (internal_error (''Failed to update subscriber: '' @ subscriber_error_to_string ul e)), s2)
                | (Ok _, s2) \<Rightarrow> (Ok \<lparr>ar_success = True, ar_error = ''''\<rparr>, s2))))"

definition subscriber_info :: "uuid_lib \<Rightarrow> subscriber \<Rightarrow> pb_subscriber_info" where
  "subscriber_info ul u =
     \<lparr>si_subscriber_id = ul_show ul (su_id u), si_service_name = su_service_name u,
      si_grpc_endpoint = su_grpc_endpoint u, si_topic_patterns = su_topic_patterns u,
      si_active = su_active u, si_registered_at = ts_seconds (su_registered_at u)\<rparr>"

definition list_subscribers_inner ::
  "uuid_lib \<Rightarrow> 's rs_broker_service \<Rightarrow> pb_list_subscribers_request \<Rightarrow> 's
     \<Rightarrow> (grpc_status + pb_list_subscribers_response) \<times> 's" where
  "list_subscribers_inner ul svc req s =
     (case sr_get_all_active (bs_subscriber_repo svc) s of
        (Err e, s1) \<Rightarrow>
          (Err (internal_error (''Failed to list subscribers: '' @ subscriber_error_to_string ul e)), s1)
      | (Ok us, s1) \<Rightarrow> (Ok \<lparr>lr_subscribers = map (subscriber_info ul) us\<rparr>, s1))"

definition subscribe_events_inner ::
  "'s rs_broker_service \<Rightarrow> string \<Rightarrow> grpc_status + broadcast_item list" where
  "subscribe_events_inner svc subscriber_id =
     (if subscriber_id = [] then Err (invalid_argument ''subscriber_id must not be empty'')
      else Ok (bs_events svc))"

section \<open>Health\<close>

text \<open>\<open>.map(|v| v.len() as i64).unwrap_or(0)\<close>.\<close>

definition len_or_zero :: "'e + 'a list \<Rightarrow> i64" where
  "len_or_zero r = (case r of Ok xs \<Rightarrow> of_nat (length xs) | Err _ \<Rightarrow> 0)"

definition health_components :: "bool \<Rightarrow> i32 \<times> pb_component_health list" where
  "health_components db_healthy =
     (if db_healthy
      then (health_status_i32 HS_Healthy,
            [\<lparr>ch_name = ''database'', ch_status = health_status_i32 HS_Healthy, ch_message = ''Connected''\<rparr>])
      else (health_status_i32 HS_Unhealthy,
            [\<lparr>ch_name = ''database'', ch_status = health_status_i32 HS_Unhealthy,
              ch_message = ''Connection failed''\<rparr>]))"

definition get_health_inner ::
  "'s rs_broker_service \<Rightarrow> pb_health_request \<Rightarrow> 's \<Rightarrow> (grpc_status + pb_health_response) \<times> 's" where
  "get_health_inner svc req s =
     (let (db_healthy, s1) = bs_acquire svc s;
          (outbox, s2) = or_get_pending (bs_outbox_repo svc) 1000 s1;
          (subscribers, s3) = sr_get_all_active (bs_subscriber_repo svc) s2;
          (status, components) = health_components db_healthy;
          metrics = \<lparr>bm_outbox_pending = len_or_zero outbox, bm_inbox_pending = 0, bm_published_today = 0,
                     bm_processed_today = 0, bm_dlq_count = 0, bm_active_subscribers = len_or_zero subscribers,
                     bm_kafka_connected = bs_kafka_connected svc, bm_database_connected = db_healthy\<rparr>
      in (Ok \<lparr>hr_status = status, hr_components = components, hr_metrics = Some metrics\<rparr>, s3))"

section \<open>Dead letters\<close>

definition reprocess_selector :: "uuid_lib \<Rightarrow> pb_reprocess_dlq_request \<Rightarrow> grpc_status + dlq_selector" where
  "reprocess_selector ul req =
     (if xq_message_id req \<noteq> [] then map_ok Sel_Id (parse_id ul ''message_id'' (xq_message_id req))
      else if xq_topic req \<noteq> [] then Ok (Sel_Topic (xq_topic req))
      else if xq_all req then Ok Sel_All
      else Err (invalid_argument ''One of message_id, topic, or all must be specified''))"

definition reprocess_dlq_inner ::
  "uuid_lib \<Rightarrow> 's rs_broker_service \<Rightarrow> pb_reprocess_dlq_request \<Rightarrow> runtime \<Rightarrow> 's
     \<Rightarrow> (grpc_status + pb_reprocess_dlq_response) \<times> runtime \<times> 's" where
  "reprocess_dlq_inner ul svc req rt s =
     (case reprocess_selector ul req of
        Err e \<Rightarrow> (Err e, rt, s)
      | Ok selector \<Rightarrow>
          (case reprocess ul (bs_dlq_handler svc) selector (bs_outbox_repo svc) rt s of
             (Err e, rt1, s1) \<Rightarrow> (Err (internal_error (''Reprocess failed: '' @ core_error_to_string ul e)), rt1, s1)
           | (Ok result, rt1, s1) \<Rightarrow>
               (Ok \<lparr>xr_reprocessed_count = rr_reprocessed_count result, xr_failure_count = rr_failure_count result,
                    xr_errors = rr_errors result\<rparr>, rt1, s1)))"

definition dlq_message_info :: "uuid_lib \<Rightarrow> dlq_message \<Rightarrow> pb_dlq_message_info" where
  "dlq_message_info ul m =
     \<lparr>di_message_id = ul_show ul (dm_id m), di_original_topic = dm_original_topic m,
      di_dlq_topic = dm_dlq_topic m, di_failure_reason = dm_failure_reason m,
      di_retry_count = dm_retry_count m, di_created_at = ts_seconds (dm_created_at m)\<rparr>"

text \<open>The requested limit, 50 when it is not positive; both it and the offset widened to 64 bits.\<close>

definition list_dlq_limit :: "pb_list_dlq_messages_request \<Rightarrow> i64" where
  "list_dlq_limit req = (if sint (mq_limit req) \<le> 0 then 50 else scast (mq_limit req))"

definition list_dlq_topic :: "pb_list_dlq_messages_request \<Rightarrow> string option" where
  "list_dlq_topic req = (if mq_topic req = [] then None else Some (mq_topic req))"

definition list_dlq_messages_inner ::
  "uuid_lib \<Rightarrow> 's rs_broker_service \<Rightarrow> pb_list_dlq_messages_request \<Rightarrow> 's
     \<Rightarrow> (grpc_status + pb_list_dlq_messages_response) \<times> 's" where
  "list_dlq_messages_inner ul svc req s =
     (case dlq_get_messages (bs_dlq_handler svc) (list_dlq_topic req) (list_dlq_limit req)
             (scast (mq_offset req)) s of
        (Err e, s1) \<Rightarrow> (Err (internal_error (''Failed to list DLQ messages: '' @ core_error_to_string ul e)), s1)
      | (Ok messages, s1) \<Rightarrow>
          (case dlq_count (bs_dlq_handler svc) (list_dlq_topic req) s1 of
             (Err e, s2) \<Rightarrow> (Err (internal_error (''Failed to count DLQ messages: '' @ core_error_to_string ul e)), s2)
           | (Ok total_count, s2) \<Rightarrow>
               (Ok \<lparr>mr_messages = map (dlq_message_info ul) messages, mr_total_count = ucast total_count\<rparr>, s2)))"

section \<open>The streaming methods\<close>

text \<open>The body of the \<open>filter_map\<close> closure: the subscriber's patterns decide, a lag is skipped.\<close>

fun event_for :: "string list \<Rightarrow> broadcast_item \<Rightarrow> pb_deliver_event option" where
  "event_for patterns (Received ev) = (if matches_any (de_topic ev) patterns then Some ev else None)"
| "event_for patterns (Lagged skipped) = None"

definition subscribe_events ::
  "'s rs_broker_service \<Rightarrow> pb_subscribe_events_request \<Rightarrow> grpc_status + pb_deliver_event list" where
  "subscribe_events svc req =
     map_ok (List.map_filter (event_for (eq_topic_patterns req)))
       (subscribe_events_inner svc (eq_subscriber_id req))"

text \<open>One incoming item of the publishing stream; \<open>show_status\<close> is the \<open>Display\<close> of \<open>tonic::Status\<close>.\<close>

definition stream_publish_one ::
  "(grpc_status \<Rightarrow> string) \<Rightarrow> uuid_lib \<Rightarrow> serde \<Rightarrow> 's outbox_repository
     \<Rightarrow> grpc_status + pb_publish_request \<Rightarrow> runtime \<Rightarrow> 's \<Rightarrow> pb_publish_response \<times> runtime \<times> 's" where
  "stream_publish_one show_status ul sd use_case item rt s =
     (case item of
        Err e \<Rightarrow> (refused_response (''Stream error: '' @ show_status e), rt, s)
      | Ok req \<Rightarrow>
          (case process_publish ul sd use_case req rt s of
             (Ok resp, rt1, s1) \<Rightarrow> (resp, rt1, s1)
           | (Err st, rt1, s1) \<Rightarrow> (refused_response (gs_message st), rt1, s1)))"

text \<open>\<open>StreamExt::then\<close>: one item after the other.\<close>

fun stream_publish ::
  "(grpc_status \<Rightarrow> string) \<Rightarrow> uuid_lib \<Rightarrow> serde \<Rightarrow> 's rs_broker_service
     \<Rightarrow> (grpc_status + pb_publish_request) list \<Rightarrow> runtime \<Rightarrow> 's \<Rightarrow> pb_publish_response list \<times> runtime \<times> 's" where
  "stream_publish show_status ul sd svc [] rt s = ([], rt, s)"
| "stream_publish show_status ul sd svc (item # items) rt s =
     (let (response, rt1, s1) = stream_publish_one show_status ul sd (bs_accept_message svc) item rt s;
          (responses, rt2, s2) = stream_publish show_status ul sd svc items rt1 s1
      in (response # responses, rt2, s2))"

end
