(* ===== verification/Service_System.thy ===== *)
theory Service_System
  imports Service
begin

text \<open>
  What the service of theory Service does on Postgres. The laws of the bodies are proved in the
  contexts of the port locales; the properties instantiate them for the service \<open>with_kafka\<close> builds.
\<close>

section \<open>Publishing\<close>

lemma accept_error_text_nonempty [simp]: "accept_error_to_string e \<noteq> []"
  by (cases e) simp_all

lemma gs_message_accept [simp]: "gs_message (accept_status e) = accept_error_to_string e"
  by (cases e) (simp_all add: accept_status_def)

lemma response_simps [simp]:
  "pr_error (accepted_response ul i now) = []" "pr_message_id (accepted_response ul i now) = ul_show ul i"
  "pr_error (refused_response e) = e" "pr_message_id (refused_response e) = []"
  by (simp_all add: accepted_response_def refused_response_def)

text \<open>What a response of the batch says about its result.\<close>

definition answer_id :: "uuid_lib \<Rightarrow> accept_error + uuid \<Rightarrow> string" where
  "answer_id ul r = (case r of Ok i \<Rightarrow> ul_show ul i | Err _ \<Rightarrow> [])"

definition answer_error :: "accept_error + uuid \<Rightarrow> string" where
  "answer_error r = (case r of Ok _ \<Rightarrow> [] | Err e \<Rightarrow> accept_error_to_string e)"

lemma batch_responses_spec:
  "batch_responses ul rs acc rt = (acc', rt') \<Longrightarrow>
     map pr_message_id (br_responses acc') = map pr_message_id (br_responses acc) @ map (answer_id ul) rs \<and>
     map pr_error (br_responses acc') = map pr_error (br_responses acc) @ map answer_error rs \<and>
     br_success_count acc' = br_success_count acc + of_nat (length (filter is_ok rs)) \<and>
     br_failure_count acc' = br_failure_count acc + of_nat (length (filter (\<lambda>r. \<not> is_ok r) rs))"
proof (induction rs arbitrary: acc rt)
  case Nil
  then show ?case by simp
next
  case (Cons r rs)
  show ?case
  proof (cases r)
    case (Inl e)
    with Cons.prems Cons.IH show ?thesis by (fastforce simp: answer_id_def answer_error_def)
  next
    case (Inr i)
    obtain now rt1 where "utc_now rt = (now, rt1)" by fastforce
    with Inr Cons.prems have "batch_responses ul rs
        (acc\<lparr>br_responses := br_responses acc @ [accepted_response ul i now],
             br_success_count := br_success_count acc + 1\<rparr>) rt1 = (acc', rt')" by simp
    from Cons.IH [OF this] Inr show ?thesis by (simp add: answer_id_def answer_error_def)
  qed
qed

context outbox_port begin

lemma process_publish_law:
  assumes "ok s" and run: "process_publish ul sd repo req rt s = (r, rt', s')"
  shows "ok s' \<and>
         (\<forall>resp. r = Ok resp \<longrightarrow> (\<exists>m. built_from ul sd (publish_input req) m \<and> om_id m \<notin> dom (led s) \<and>
            led s' = (led s)(om_id m \<mapsto> entry_of m) \<and> pr_message_id resp = ul_show ul (om_id m) \<and> pr_error resp = [])) \<and>
         led s \<subseteq>\<^sub>m led s' \<and> (\<forall>st. r = Err st \<longrightarrow> gs_message st \<noteq> [])"
proof -
  obtain q rt1 s1 where q: "accept_apply ul sd repo (publish_input req) rt s = (q, rt1, s1)" by (metis prod_cases3)
  note law = apply_law [OF assms(1) q]
  have grow: "led s \<subseteq>\<^sub>m led s1"
    using law by (cases q) (auto simp: map_le_def split: if_splits)
  show ?thesis
  proof (cases q)
    case (Inl e)
    with run q law grow show ?thesis by (auto simp: process_publish_def)
  next
    case (Inr i)
    with run q have "s' = s1" and r: "\<exists>now. r = Ok (accepted_response ul i now)"
      by (auto simp: process_publish_def split: prod.splits)
    with law Inr grow show ?thesis by auto
  qed
qed

lemma stream_publish_law:
  assumes "ok s" and "bs_accept_message svc = repo"
    and "stream_publish show_status ul sd svc items rt s = (resps, rt', s')"
  shows "ok s' \<and> led s \<subseteq>\<^sub>m led s' \<and>
         list_all2 (\<lambda>item resp. pr_error resp = [] \<longrightarrow>
            (\<exists>req m. item = Ok req \<and> built_from ul sd (publish_input req) m \<and>
               pr_message_id resp = ul_show ul (om_id m) \<and> om_id m \<notin> dom (led s) \<and>
               led s' (om_id m) = Some (entry_of m))) items resps"
  using assms(1,3)
proof (induction items arbitrary: rt s resps)
  case Nil
  then show ?case by simp
next
  case (Cons item items)
  obtain resp rt1 s1 where one: "stream_publish_one show_status ul sd repo item rt s = (resp, rt1, s1)"
    by (metis prod_cases3)
  from Cons.prems(2) one assms(2) obtain resps1
    where rest: "stream_publish show_status ul sd svc items rt1 s1 = (resps1, rt', s')"
      and resps: "resps = resp # resps1" by (auto split: prod.splits)
  have head: "ok s1 \<and> led s \<subseteq>\<^sub>m led s1 \<and> (pr_error resp = [] \<longrightarrow>
      (\<exists>req m. item = Ok req \<and> built_from ul sd (publish_input req) m \<and> pr_message_id resp = ul_show ul (om_id m) \<and>
         om_id m \<notin> dom (led s) \<and> led s1 (om_id m) = Some (entry_of m)))"
  proof (cases item)
    case (Inl e)
    with one Cons.prems(1) show ?thesis by (auto simp: stream_publish_one_def)
  next
    case (Inr req)
    obtain q rt3 s3 where q: "process_publish ul sd repo req rt s = (q, rt3, s3)" by (metis prod_cases3)
    from process_publish_law [OF Cons.prems(1) q] one Inr q show ?thesis
      by (cases q) (auto simp: stream_publish_one_def)
  qed
  from Cons.IH [OF _ rest] head have tail: "ok s'" "led s1 \<subseteq>\<^sub>m led s'"
    "list_all2 (\<lambda>item resp. pr_error resp = [] \<longrightarrow>
       (\<exists>req m. item = Ok req \<and> built_from ul sd (publish_input req) m \<and>
          pr_message_id resp = ul_show ul (om_id m) \<and> om_id m \<notin> dom (led s1) \<and>
          led s' (om_id m) = Some (entry_of m))) items resps1" by auto
  have "dom (led s) \<subseteq> dom (led s1)" using head by (meson map_le_implies_dom_le)
  then have "list_all2 (\<lambda>item resp. pr_error resp = [] \<longrightarrow>
       (\<exists>req m. item = Ok req \<and> built_from ul sd (publish_input req) m \<and>
          pr_message_id resp = ul_show ul (om_id m) \<and> om_id m \<notin> dom (led s) \<and>
          led s' (om_id m) = Some (entry_of m))) items resps1"
    by (intro list_all2_mono [OF tail(3)]) blast
  moreover have "led s' (om_id m) = Some (entry_of m)" if "led s1 (om_id m) = Some (entry_of m)" for m
    using tail(2) that by (metis domI map_le_def)
  ultimately show ?case
    using head tail(1,2) by (auto simp: resps intro: map_le_trans)
qed

end

text \<open>The two ways a batch ends: with the answers of the stored messages, or with one storage error for each.\<close>

lemma batch_answers:
  assumes "list_all2 (built_from ul sd) valid ms"
    and "rs = map Err errors @ map (\<lambda>m. Ok (om_id m)) ms \<and> l' = add_entries ms l \<or>
         (\<exists>t. rs = map Err (errors @ replicate (length ms) (Storage t)))"
    and "l' = l \<or> l' = add_entries ms l"
  shows "length (filter is_ok rs) = length valid \<and> l' = add_entries ms l \<and>
           map (answer_id ul) rs = replicate (length errors) [] @ map (\<lambda>m. ul_show ul (om_id m)) ms \<and>
           map answer_error rs = map accept_error_to_string errors @ replicate (length ms) [] \<or>
         length (filter is_ok rs) = 0 \<and> (l' = l \<or> l' = add_entries ms l) \<and>
           (\<exists>t. map answer_error rs = map accept_error_to_string (errors @ replicate (length ms) (Storage t)))"
  using assms(2)
proof
  assume stored: "rs = map Err errors @ map (\<lambda>m. Ok (om_id m)) ms \<and> l' = add_entries ms l"
  then have "filter is_ok rs = map (\<lambda>m. Ok (om_id m)) ms" by (simp add: filter_map o_def)
  with stored list_all2_lengthD [OF assms(1)] show ?thesis
    by (simp add: answer_id_def answer_error_def o_def map_replicate_const)
next
  assume "\<exists>t. rs = map Err (errors @ replicate (length ms) (Storage t))"
  then obtain t where t: "rs = map Err (errors @ replicate (length ms) (Storage t))" by blast
  then have "filter is_ok rs = []" by (simp add: filter_map o_def del: map_append)
  with t assms(3) show ?thesis by (auto simp: answer_error_def o_def)
qed

text \<open>C11: A batch over the wire. The answer has one response per request and its two counts add up,
  but the responses are not in the order of the requests: those of the invalid requests come first,
  with their error texts and no identifier. The valid requests are then either all reported as
  stored, under the identifiers of the messages that are in the outbox, or all as failed.\<close>

theorem publish_batch_contract:
  assumes "pg_outbox_ok d"
    and run: "publish_batch_inner ul sd (with_kafka ul acquire events kafka) req rt d = (r, rt', d')"
    and inps: "inps = map publish_input (bq_messages req)"
  shows "\<exists>resp ms. r = Ok resp \<and> length (br_responses resp) = length (bq_messages req) \<and>
           br_success_count resp + br_failure_count resp = of_nat (length (bq_messages req)) \<and>
           list_all2 (built_from ul sd) (valid_of ul sd inps) ms \<and>
           (br_success_count resp = of_nat (length (valid_of ul sd inps)) \<and>
              pg_ledger d' = add_entries ms (pg_ledger d) \<and>
              map pr_message_id (br_responses resp) =
                replicate (length (errors_of ul sd inps)) [] @ map (\<lambda>m. ul_show ul (om_id m)) ms \<and>
              map pr_error (br_responses resp) =
                map accept_error_to_string (errors_of ul sd inps) @ replicate (length ms) [] \<or>
            br_success_count resp = 0 \<and> (pg_ledger d' = pg_ledger d \<or> pg_ledger d' = add_entries ms (pg_ledger d)) \<and>
              (\<exists>t. map pr_error (br_responses resp) =
                 map accept_error_to_string (errors_of ul sd inps @ replicate (length ms) (Storage t))))"
proof -
  obtain rs rt1 s1 where rs: "accept_apply_batch ul sd pg_outbox_repository inps rt d = (rs, rt1, s1)"
    by (metis prod_cases3)
  obtain resp rt2 where resp: "batch_responses ul rs \<lparr>br_responses = [], br_success_count = 0, br_failure_count = 0\<rparr> rt1 =
      (resp, rt2)" by fastforce
  from run rs resp have r: "r = Ok resp" and d': "d' = s1"
    by (simp_all add: publish_batch_inner_def process_publish_batch_def inps)
  from batch_responses_spec [OF resp]
  have ids: "map pr_message_id (br_responses resp) = map (answer_id ul) rs"
    and errs: "map pr_error (br_responses resp) = map answer_error rs"
    and succ: "br_success_count resp = of_nat (length (filter is_ok rs))"
    and fail: "br_failure_count resp = of_nat (length (filter (\<lambda>r. \<not> is_ok r) rs))" by simp_all
  from pg.apply_batch_law [OF assms(1) rs] obtain ms
    where ms: "list_all2 (built_from ul sd) (valid_of ul sd inps) ms"
      and led: "pg_ledger d' = pg_ledger d \<or> pg_ledger d' = add_entries ms (pg_ledger d)"
      and cases: "rs = map Err (errors_of ul sd inps) @ map (\<lambda>m. Ok (om_id m)) ms \<and>
          pg_ledger d' = add_entries ms (pg_ledger d) \<or>
        (\<exists>t. rs = map Err (errors_of ul sd inps @ replicate (length ms) (Storage t)))"
    unfolding d' by blast
  have len: "length rs = length inps"
    using cases length_valid_errors [of ul sd inps] list_all2_lengthD [OF ms] by auto
  have counts: "length (filter is_ok rs) + length (filter (\<lambda>r. \<not> is_ok r) rs) = length inps"
    using length_filter_partition [of is_ok rs] len by simp
  have "length (br_responses resp) = length (bq_messages req)"
    using arg_cong [OF ids, of length] len by (simp add: inps)
  moreover have "br_success_count resp + br_failure_count resp = of_nat (length (bq_messages req))"
    unfolding succ fail by (metis counts inps length_map of_nat_add)
  moreover have "br_success_count resp = of_nat (length (valid_of ul sd inps)) \<and>
        pg_ledger d' = add_entries ms (pg_ledger d) \<and>
        map pr_message_id (br_responses resp) =
          replicate (length (errors_of ul sd inps)) [] @ map (\<lambda>m. ul_show ul (om_id m)) ms \<and>
        map pr_error (br_responses resp) =
          map accept_error_to_string (errors_of ul sd inps) @ replicate (length ms) [] \<or>
      br_success_count resp = 0 \<and> (pg_ledger d' = pg_ledger d \<or> pg_ledger d' = add_entries ms (pg_ledger d)) \<and>
        (\<exists>t. map pr_error (br_responses resp) =
           map accept_error_to_string (errors_of ul sd inps @ replicate (length ms) (Storage t)))"
    using batch_answers [OF ms cases led] unfolding ids errs succ by force
  ultimately show ?thesis using r ms by blast
qed

definition sample_service :: "db rs_broker_service" where
  "sample_service = with_kafka decimal_uuids (\<lambda>d. (True, d)) [] True"

definition sample_publish :: "string \<Rightarrow> bytes \<Rightarrow> pb_publish_request" where
  "sample_publish i p =
     \<lparr>pq_message_id = i, pq_aggregate_type = ''Order'', pq_aggregate_id = ''o1'', pq_event_type = ''OrderCreated'',
      pq_payload = p, pq_headers = [\<lparr>hd_key = ''k'', hd_value = ''v''\<rparr>], pq_topic = ''orders'',
      pq_partition_key = [], pq_retry_config = None, pq_metadata = None\<rparr>"

definition sample_batch :: pb_publish_batch_request where
  "sample_batch = \<lparr>bq_messages = [sample_publish ''7'' [], sample_publish ''no'' []], bq_metadata = None\<rparr>"

theorem publish_batch_contract_witness:
  "case publish_batch_inner decimal_uuids null_serde sample_service sample_batch counting_runtime (sample_db []) of
     (r, rt', d') \<Rightarrow> (\<exists>resp. r = Ok resp \<and> length (br_responses resp) = 2 \<and>
       br_success_count resp + br_failure_count resp = 2)"
proof -
  have ok: "pg_outbox_ok (sample_db [])" by (simp add: sample_outbox_ok)
  obtain r rt' d' where run: "publish_batch_inner decimal_uuids null_serde sample_service sample_batch
      counting_runtime (sample_db []) = (r, rt', d')" by (metis prod_cases3)
  from publish_batch_contract [OF ok run [unfolded sample_service_def] refl]
  obtain resp where "r = Ok resp" "length (br_responses resp) = length (bq_messages sample_batch)"
    "br_success_count resp + br_failure_count resp = of_nat (length (bq_messages sample_batch))" by blast
  with run show ?thesis by (simp add: sample_batch_def)
qed

text \<open>C25: Publishing over a stream. Unlike a batch, a stream answers each item at its position: an
  empty error text means that the item was a request and that a message built from it is in the
  outbox at the end of the stream, new and under the identifier the response shows. Nothing stored
  before is lost.\<close>

theorem stream_publish_positional:
  assumes "pg_outbox_ok d"
    and "stream_publish show_status ul sd (with_kafka ul acquire events kafka) items rt d = (resps, rt', d')"
  shows "pg_outbox_ok d' \<and> pg_ledger d \<subseteq>\<^sub>m pg_ledger d' \<and>
         list_all2 (\<lambda>item resp. pr_error resp = [] \<longrightarrow>
            (\<exists>req m. item = Ok req \<and> built_from ul sd (publish_input req) m \<and>
               pr_message_id resp = ul_show ul (om_id m) \<and> om_id m \<notin> dom (pg_ledger d) \<and>
               pg_ledger d' (om_id m) = Some (entry_of m))) items resps"
  by (rule pg.stream_publish_law [OF assms(1) _ assms(2)]) simp

theorem stream_publish_positional_witness:
  "case stream_publish (\<lambda>st. gs_message st) decimal_uuids null_serde sample_service
          [Ok (sample_publish ''no'' []), Ok (sample_publish ''7'' [])] counting_runtime (sample_db []) of
     (resps, rt', d') \<Rightarrow> map pr_message_id resps = [[], ''7''] \<and> 7 \<in> dom (pg_ledger d')"
proof -
  let ?items = "[Ok (sample_publish ''no'' []), Ok (sample_publish ''7'' [])] :: (grpc_status + pb_publish_request) list"
  have ok: "pg_outbox_ok (sample_db [])" by (simp add: sample_outbox_ok)
  obtain resps rt' d' where run: "stream_publish (\<lambda>st. gs_message st) decimal_uuids null_serde sample_service
      ?items counting_runtime (sample_db []) = (resps, rt', d')" by (metis prod_cases3)
  have "map (\<lambda>r. (pr_message_id r, pr_error r)) (fst (stream_publish (\<lambda>st. gs_message st) decimal_uuids null_serde
      sample_service ?items counting_runtime (sample_db []))) =
      [([], ''Invalid message_id: not a UUID''), (''7'', [])]"
    by (simp add: sample_service_def sample_publish_def stream_publish_one_def process_publish_def publish_input_def
      accept_status_def accepted_response_def refused_response_def null_serde_def invalid_argument_def
      decimal_eval accept_eval row_eval outbox_eval)
  with run have "map (\<lambda>r. (pr_message_id r, pr_error r)) resps =
      [([], ''Invalid message_id: not a UUID''), (''7'', [])]" by simp
  then obtain x y where resps: "resps = [x, y]" "pr_message_id x = []" "pr_message_id y = ''7''" "pr_error y = []"
    by auto
  from stream_publish_positional [OF ok run [unfolded sample_service_def]] resps
  obtain m where m: "''7'' = ul_show decimal_uuids (om_id m)" "pg_ledger d' (om_id m) = Some (entry_of m)" by auto
  have "ul_show decimal_uuids (7 :: uuid) = ''7''" by (rule decimal_eval)
  with m(1) ul_show_inj [OF decimal_uuids_ok] have "om_id m = 7" by metis
  with m(2) run resps show ?thesis by auto
qed

section \<open>Status and cancellation\<close>

lemma parse_id_cases:
  obtains i where "parse_id ul field v = Ok i" "ul_parse ul v = Ok i"
    | st where "parse_id ul field v = Err st" "gs_code st = InvalidArgument" "\<not> is_ok (ul_parse ul v)"
  by (cases "ul_parse ul v") (auto simp: parse_id_def)

context outbox_port begin

lemma cancel_check_law:
  assumes "ok s" and "bs_outbox_repo svc = repo" and "cancel_check svc i s = (c, s')"
  shows "ok s' \<and> led s' = led s \<and>
         (c = None \<longrightarrow> (\<exists>e. led s i = Some e \<and> en_status e = Pending)) \<and>
         (\<forall>resp. c = Some resp \<longrightarrow> \<not> cr_success resp)"
proof -
  obtain g s1 where g: "or_get_by_id repo i s = (g, s1)" by fastforce
  from get_by_id_law [OF assms(1) g] assms(2,3) g show ?thesis
    by (auto simp: cancel_check_def cancelled_response_def entry_of_def split: sum.splits if_splits)
qed

lemma cancel_delete_law:
  assumes "ok s" and "bs_outbox_repo svc = repo" and "cancel_delete ul svc i s = (r, s')"
  shows "ok s' \<and>
         (\<forall>resp. r = Ok resp \<longrightarrow> cr_success resp \<and> led s' = (led s)(i := None)) \<and>
         (\<forall>st. r = Err st \<longrightarrow> gs_code st = Internal \<and> (led s' = led s \<or> led s' = (led s)(i := None)))"
proof -
  obtain g s1 where g: "or_delete repo i s = (g, s1)" by fastforce
  from delete_law [OF assms(1) g] assms(2,3) g show ?thesis
    by (auto simp: cancel_delete_def cancelled_response_def split: sum.splits)
qed

lemma cancel_law:
  assumes "ok s" and "bs_outbox_repo svc = repo" and run: "cancel_message_inner ul svc req s = (r, s')"
  shows "ok s' \<and>
         (\<forall>resp. r = Ok resp \<longrightarrow>
            (if cr_success resp
             then \<exists>i e. ul_parse ul (cq_message_id req) = Ok i \<and> led s i = Some e \<and> en_status e = Pending \<and>
                        led s' = (led s)(i := None)
             else led s' = led s)) \<and>
         (\<forall>st. r = Err st \<longrightarrow>
            gs_code st = InvalidArgument \<and> \<not> is_ok (ul_parse ul (cq_message_id req)) \<and> led s' = led s \<or>
            gs_code st = Internal \<and>
              (\<exists>i e. ul_parse ul (cq_message_id req) = Ok i \<and> led s i = Some e \<and> en_status e = Pending \<and>
                     (led s' = led s \<or> led s' = (led s)(i := None))))"
proof (cases rule: parse_id_cases [of ul "''message_id''" "cq_message_id req"])
  case (2 st)
  with run assms(1) show ?thesis by (auto simp: cancel_message_inner_def)
next
  case (1 i)
  obtain c s1 where c: "cancel_check svc i s = (c, s1)" by fastforce
  note check = cancel_check_law [OF assms(1,2) c]
  show ?thesis
  proof (cases c)
    case (Some resp)
    with run 1 c check show ?thesis by (auto simp: cancel_message_inner_def)
  next
    case None
    with run 1 c have "cancel_delete ul svc i s1 = (r, s')" by (simp add: cancel_message_inner_def)
    from cancel_delete_law [OF _ assms(2) this] check None 1 show ?thesis by (cases r) auto
  qed
qed

lemma get_message_status_law:
  assumes "ok s" and "bs_outbox_repo svc = repo" and run: "get_message_status_inner ul svc req s = (r, s')"
  shows "ok s' \<and> led s' = led s \<and>
         (\<forall>resp. r = Ok resp \<longrightarrow>
            (\<exists>i e. ul_parse ul (gq_message_id req) = Ok i \<and> led s i = Some e \<and>
               gr_status resp = message_status_i32 (wire_message_status (en_status e)) \<and>
               gr_retry_count resp = en_retries e \<and> gr_topic resp = en_topic e \<and>
               gr_error_message resp = unwrap_or (en_error e) [])) \<and>
         (\<forall>st. r = Err st \<longrightarrow> gs_code st = (if is_ok (ul_parse ul (gq_message_id req)) then NotFound else InvalidArgument))"
proof (cases rule: parse_id_cases [of ul "''message_id''" "gq_message_id req"])
  case (2 st)
  with run assms(1) show ?thesis by (auto simp: get_message_status_inner_def)
next
  case (1 i)
  obtain g s1 where g: "or_get_by_id repo i s = (g, s1)" by fastforce
  from get_by_id_law [OF assms(1) g] assms(2) run g 1 show ?thesis
    by (cases g) (auto simp: get_message_status_inner_def wire_message.of_number_number entry_of_def)
qed

end

text \<open>On an undisturbed database the check passes a pending message and the deletion answers.\<close>

lemma cancel_calm:
  assumes ok: "pg_outbox_ok d" and calm: "undisturbed d" and repo: "bs_outbox_repo svc = pg_outbox_repository"
    and i: "ul_parse ul (cq_message_id req) = Ok i" and e: "pg_ledger d i = Some e" "en_status e = Pending"
    and run: "cancel_message_inner ul svc req d = (r, d')"
  shows "is_ok r \<and> (\<forall>resp. r = Ok resp \<longrightarrow> cr_success resp)"
proof -
  from e obtain m where get: "pg_outbox_get_by_id i d = (Ok m, d)" and m: "om_status m = Pending"
    by (auto simp: pg_outbox_get_by_id_def outbox_stmt_def run_statement_calm [OF calm] pg_ledger_def entry_of_row_def
      entry_of_def split: option.splits)
  obtain q d2 where del: "pg_outbox_delete i d = (q, d2)" by fastforce
  from outbox_stmt_calm [OF calm del [unfolded pg_outbox_delete_def]] calm
  have "is_ok q" by (simp add: undisturbed_def)
  with get m del i run show ?thesis
    by (cases q) (auto simp: cancel_message_inner_def parse_id_def cancel_check_def cancel_delete_def cancelled_response_def repo)
qed

text \<open>C17: Cancelling, whatever the database does. An answer of success means that the message was there,
  pending, and is gone. An answer without success, and the refusal of a malformed identifier, leave the outbox
  as it was. An internal error means that deleting a pending message failed; the deletion may nevertheless have
  happened, and nothing else. No other message is ever touched. A pending message is cancelled when the
  database is undisturbed. The check and the deletion are two statements, and the deletion does not look at the
  status again: whatever has become of the message in between, it deletes that message or nothing.\<close>

theorem cancel_only_pending:
  assumes "pg_outbox_ok d"
    and "cancel_message_inner ul (with_kafka ul acquire events kafka) req d = (r, d')"
  shows "pg_outbox_ok d' \<and>
         (\<forall>resp. r = Ok resp \<longrightarrow>
            (if cr_success resp
             then \<exists>i e. ul_parse ul (cq_message_id req) = Ok i \<and> pg_ledger d i = Some e \<and> en_status e = Pending \<and>
                        pg_ledger d' = (pg_ledger d)(i := None)
             else pg_ledger d' = pg_ledger d)) \<and>
         (\<forall>st. r = Err st \<longrightarrow>
            gs_code st = InvalidArgument \<and> \<not> is_ok (ul_parse ul (cq_message_id req)) \<and> pg_ledger d' = pg_ledger d \<or>
            gs_code st = Internal \<and>
              (\<exists>i e. ul_parse ul (cq_message_id req) = Ok i \<and> pg_ledger d i = Some e \<and> en_status e = Pending \<and>
                     (pg_ledger d' = pg_ledger d \<or> pg_ledger d' = (pg_ledger d)(i := None)))) \<and>
         (undisturbed d \<longrightarrow> (\<forall>i e. ul_parse ul (cq_message_id req) = Ok i \<longrightarrow> pg_ledger d i = Some e \<longrightarrow>
            en_status e = Pending \<longrightarrow>
            is_ok r \<and> (\<forall>resp. r = Ok resp \<longrightarrow> cr_success resp) \<and> pg_ledger d' = (pg_ledger d)(i := None))) \<and>
         (\<forall>i d2 q d3. pg_outbox_ok d2 \<longrightarrow> cancel_delete ul (with_kafka ul acquire events kafka) i d2 = (q, d3) \<longrightarrow>
            (if is_ok q then pg_ledger d3 = (pg_ledger d2)(i := None)
             else pg_ledger d3 = pg_ledger d2 \<or> pg_ledger d3 = (pg_ledger d2)(i := None)))"
proof -
  let ?svc = "with_kafka ul acquire events kafka"
  have repo: "bs_outbox_repo ?svc = pg_outbox_repository" by simp
  note law = pg.cancel_law [OF assms(1) repo assms(2)]
  have calm: "is_ok r \<and> (\<forall>resp. r = Ok resp \<longrightarrow> cr_success resp) \<and> pg_ledger d' = (pg_ledger d)(i := None)"
    if "undisturbed d" and i: "ul_parse ul (cq_message_id req) = Ok i" and "pg_ledger d i = Some e" "en_status e = Pending" for i e
    using cancel_calm [OF assms(1) that(1) repo i that(3,4) assms(2)] law i by (cases r) (auto simp: fun_upd_idem_iff)
  have del: "if is_ok q then pg_ledger d3 = (pg_ledger d2)(i := None)
      else pg_ledger d3 = pg_ledger d2 \<or> pg_ledger d3 = (pg_ledger d2)(i := None)"
    if "pg_outbox_ok d2" "cancel_delete ul ?svc i d2 = (q, d3)" for i d2 q d3
    using pg.cancel_delete_law [OF that(1) repo that(2)] by (cases q) auto
  show ?thesis by (intro conjI impI allI; (use law in blast | use calm in blast | use del in blast))
qed

theorem cancel_only_pending_witness:
  "let d = sample_db [sample_outbox_row 7 ''pending'' 0];
       d' = snd (cancel_message_inner decimal_uuids sample_service \<lparr>cq_message_id = ''7'', cq_metadata = None\<rparr> d)
   in pg_ledger d' = (pg_ledger d)(7 := None)"
proof -
  let ?d = "sample_db [sample_outbox_row 7 ''pending'' 0]"
  let ?req = "\<lparr>cq_message_id = ''7'', cq_metadata = None\<rparr>"
  have ok: "pg_outbox_ok ?d" by (simp add: sample_outbox_ok)
  obtain r d' where run: "cancel_message_inner decimal_uuids sample_service ?req ?d = (r, d')" by fastforce
  have "map_ok cr_success (fst (cancel_message_inner decimal_uuids sample_service ?req ?d)) = Ok True"
    by (simp add: cancel_message_inner_def cancel_check_def cancel_delete_def sample_service_def parse_id_def cancelled_response_def
      decimal_eval outbox_eval)
  with run obtain resp where resp: "r = Ok resp" "cr_success resp" by auto
  have parse: "ul_parse decimal_uuids ''7'' = Ok 7" by (rule decimal_eval)
  have "\<forall>resp. r = Ok resp \<longrightarrow>
      (if cr_success resp
       then \<exists>i e. ul_parse decimal_uuids (cq_message_id ?req) = Ok i \<and> pg_ledger ?d i = Some e \<and>
              en_status e = Pending \<and> pg_ledger d' = (pg_ledger ?d)(i := None)
       else pg_ledger d' = pg_ledger ?d)"
    using cancel_only_pending [OF ok run [unfolded sample_service_def]] by blast
  with resp parse have "pg_ledger d' = (pg_ledger ?d)(7 := None)" by (auto simp del: fun_upd_apply)
  with run show ?thesis by (simp add: Let_def)
qed

text \<open>Cancelling races with publishing. The check and the deletion are two statements, and the
  deletion does not look at the status again: when the publisher claims the message between the two,
  it holds the message and will send it, while the client is told that it was cancelled, and the
  publisher's own bookkeeping afterwards finds nothing to mark.\<close>

theorem cancelled_message_claimed:
  assumes ok: "pg_outbox_ok d" and svc: "svc = with_kafka ul acquire events kafka"
    and check: "cancel_check svc i d = (None, d1)"
    and claim: "pg_outbox_claim_pending n lease d1 = (Ok ms, d2)" and held: "i \<in> om_id ` set ms"
    and del: "cancel_delete ul svc i d2 = (Ok resp, d3)"
    and mark: "pg_outbox_mark_published_batch [i] d3 = (q, d4)"
  shows "cr_success resp \<and> (\<exists>e. pg_ledger d2 i = Some e \<and> en_status e = Publishing) \<and>
         pg_ledger d4 i = None \<and> i \<in> dom (pg_ledger d)"
proof -
  from pg.cancel_check_law [OF ok _ check] have ok1: "pg_outbox_ok d1" and l1: "pg_ledger d1 = pg_ledger d"
    and pend: "i \<in> dom (pg_ledger d)" by (auto simp: svc)
  from pg_outbox_claim_law [OF ok1 claim] have ok2: "pg_outbox_ok d2"
    and l2: "pg_ledger d2 = on_entries (om_id ` set ms) claimed (pg_ledger d)" by (auto simp: l1)
  from pg.cancel_delete_law [OF ok2 _ del] have ok3: "pg_outbox_ok d3" and "cr_success resp"
    and l3: "pg_ledger d3 = (pg_ledger d2)(i := None)" by (auto simp: svc)
  moreover from pg_outbox_mark_published_batch_law [OF ok3 mark] l3 have "pg_ledger d4 i = None"
    by (auto dest: effect_or)
  moreover from l2 held pend have "\<exists>e. pg_ledger d2 i = Some e \<and> en_status e = Publishing"
    by (auto simp: claimed_def)
  ultimately show ?thesis using pend by blast
qed

theorem cancelled_message_claimed_witness:
  "let d = sample_db [sample_outbox_row 7 ''pending'' 0];
       d1 = snd (cancel_check sample_service 7 d);
       (ms, d2) = pg_outbox_claim_pending 10 300 d1;
       (r, d3) = cancel_delete decimal_uuids sample_service 7 d2
   in map_ok (map om_id) ms = Ok [7] \<and> map_ok cr_success r = Ok True \<and>
      (\<exists>e. pg_ledger d2 7 = Some e \<and> en_status e = Publishing) \<and> 7 \<in> dom (pg_ledger d)"
proof -
  let ?d = "sample_db [sample_outbox_row 7 ''pending'' 0]"
  let ?d1 = "snd (cancel_check sample_service 7 ?d)"
  let ?d2 = "snd (pg_outbox_claim_pending 10 300 ?d1)"
  let ?del = "cancel_delete decimal_uuids sample_service 7 ?d2"
  have ok: "pg_outbox_ok ?d" by (simp add: sample_outbox_ok)
  have c: "fst (cancel_check sample_service 7 ?d) = None" by (simp add: cancel_check_def sample_service_def outbox_eval)
  have p: "map_ok (map om_id) (fst (pg_outbox_claim_pending 10 300 ?d1)) = Ok [7]" by code_simp
  have x: "map_ok cr_success (fst ?del) = Ok True" by code_simp
  from p obtain ms where ms: "fst (pg_outbox_claim_pending 10 300 ?d1) = Ok ms" "map om_id ms = [7]" by auto
  from x obtain resp where resp: "fst ?del = Ok resp" by auto
  have held: "7 \<in> om_id ` set ms" using ms(2) by (metis list.set_intros(1) set_map)
  obtain q d4 where mark: "pg_outbox_mark_published_batch [7] (snd ?del) = (q, d4)" by fastforce
  have c': "cancel_check sample_service 7 ?d = (None, ?d1)" using c by (simp add: prod_eq_iff)
  have p': "pg_outbox_claim_pending 10 300 ?d1 = (Ok ms, ?d2)" using ms(1) by (simp add: prod_eq_iff)
  have x': "?del = (Ok resp, snd ?del)" using resp by (simp add: prod_eq_iff)
  from cancelled_message_claimed [OF ok sample_service_def c' p' held x' mark]
  show ?thesis using p x by (simp add: Let_def case_prod_unfold)
qed



section \<open>Subscribers\<close>

text \<open>The subscription a partial update leads to.\<close>

definition merged_subscription :: "pb_update_subscriber_request \<Rightarrow> subscription \<Rightarrow> subscription" where
  "merged_subscription req n =
     n\<lparr>sn_endpoint := (if aq_grpc_endpoint req = [] then sn_endpoint n else aq_grpc_endpoint req),
       sn_patterns := (if aq_topic_patterns req = [] then sn_patterns n else aq_topic_patterns req),
       sn_active := aq_active req\<rparr>"

lemma update_fields_subscription [simp]:
  "subscription_of (update_fields req u) = merged_subscription req (subscription_of u)"
  "su_id (update_fields req u) = su_id u"
  by (simp_all add: update_fields_def merged_subscription_def subscription_of_def Let_def)

context subscriber_port begin

lemma update_subscriber_law:
  assumes "ok s" and "bs_subscriber_repo svc = repo" and run: "update_subscriber_inner ul svc req s = (r, s')"
  shows "ok s' \<and>
         (\<forall>resp. r = Ok resp \<longrightarrow>
            (\<exists>i n. ul_parse ul (aq_subscriber_id req) = Ok i \<and> tab s i = Some n \<and>
                   tab s' = (tab s)(i \<mapsto> merged_subscription req n))) \<and>
         (\<forall>st. r = Err st \<longrightarrow> tab s' = tab s \<or>
            gs_code st = Internal \<and>
            (\<exists>i n. ul_parse ul (aq_subscriber_id req) = Ok i \<and> tab s i = Some n \<and>
                   tab s' = (tab s)(i \<mapsto> merged_subscription req n)))"
proof (cases rule: parse_id_cases [of ul "''subscriber_id''" "aq_subscriber_id req"])
  case (2 st)
  with run assms(1) show ?thesis by (auto simp: update_subscriber_inner_def)
next
  case (1 i)
  obtain g s1 where g: "sr_get_by_id repo i s = (g, s1)" by fastforce
  note get = get_by_id_law [OF assms(1) g]
  show ?thesis
  proof (cases g)
    case (Inl e)
    with run 1 g get assms(2) show ?thesis by (auto simp: update_subscriber_inner_def)
  next
    case (Inr u)
    obtain q s2 where q: "sr_update repo (update_fields req u) s1 = (q, s2)" by fastforce
    from get Inr have ok1: "ok s1" and t1: "tab s1 = tab s" and ui: "su_id u = i"
      and n: "tab s i = Some (subscription_of u)" by auto
    have "on_subscription i (\<lambda>_. merged_subscription req (subscription_of u)) (tab s) =
        (tab s)(i \<mapsto> merged_subscription req (subscription_of u))"
      by (simp add: on_subscription_def n)
    with update_law [OF ok1 q] ui t1 have "ok s2"
      and eff: "effect q (tab s) ((tab s)(i \<mapsto> merged_subscription req (subscription_of u))) (tab s2)" by simp_all
    with run 1 g Inr q assms(2) n show ?thesis
      by (cases q) (auto simp: update_subscriber_inner_def simp del: fun_upd_apply)
  qed
qed

end

text \<open>C30: Updating a subscriber merges the request into the stored row: an empty endpoint or pattern
  list keeps the old one, the active flag is always taken over (so a request that leaves it out
  deactivates the subscriber), the name and configuration stay, and no other subscriber changes.\<close>

theorem update_subscriber_merges:
  assumes "pg_subscribers_ok d"
    and "update_subscriber_inner ul (with_kafka ul acquire events kafka) req d = (r, d')"
  shows "pg_subscribers_ok d' \<and>
         (\<forall>resp. r = Ok resp \<longrightarrow>
            (\<exists>i n. ul_parse ul (aq_subscriber_id req) = Ok i \<and> pg_subscriptions d i = Some n \<and>
                   pg_subscriptions d' = (pg_subscriptions d)(i \<mapsto> merged_subscription req n))) \<and>
         (\<forall>st. r = Err st \<longrightarrow> pg_subscriptions d' = pg_subscriptions d \<or>
            gs_code st = Internal \<and>
            (\<exists>i n. ul_parse ul (aq_subscriber_id req) = Ok i \<and> pg_subscriptions d i = Some n \<and>
                   pg_subscriptions d' = (pg_subscriptions d)(i \<mapsto> merged_subscription req n)))"
  by (rule pg_sub.update_subscriber_law [OF assms(1) _ assms(2)]) simp

definition sample_update :: pb_update_subscriber_request where
  "sample_update = \<lparr>aq_subscriber_id = ''1'', aq_grpc_endpoint = [], aq_topic_patterns = [''users.#''],
     aq_active = True, aq_delivery_config = None, aq_metadata = None\<rparr>"

theorem update_subscriber_merges_witness:
  "let d = snd (snd sample_register);
       d' = snd (update_subscriber_inner decimal_uuids sample_service sample_update d)
   in \<exists>n. pg_subscriptions d 1 = Some n \<and>
          pg_subscriptions d' = (pg_subscriptions d)(1 \<mapsto> merged_subscription sample_update n)"
proof -
  let ?d = "snd (snd sample_register)"
  have ok: "pg_subscribers_ok ?d" by (simp add: pg_subscribers_ok_def table_ok_def register_eval)
  obtain r d' where run: "update_subscriber_inner decimal_uuids sample_service sample_update ?d = (r, d')" by fastforce
  have "map_ok ar_success (fst (update_subscriber_inner decimal_uuids sample_service sample_update ?d)) = Ok True"
    by (simp add: update_subscriber_inner_def sample_update_def parse_id_def sample_service_def update_fields_def register_eval
      pg_subscriber_get_by_id_def pg_subscriber_update_def subscriber_update_row_def subscriber_of_row_def Let_def)
  with run obtain resp where resp: "r = Ok resp" by auto
  have parse: "ul_parse decimal_uuids (aq_subscriber_id sample_update) = Ok 1" by (simp add: sample_update_def decimal_eval)
  have "\<forall>resp. r = Ok resp \<longrightarrow>
      (\<exists>i n. ul_parse decimal_uuids (aq_subscriber_id sample_update) = Ok i \<and> pg_subscriptions ?d i = Some n \<and>
             pg_subscriptions d' = (pg_subscriptions ?d)(i \<mapsto> merged_subscription sample_update n))"
    using update_subscriber_merges [OF ok run [unfolded sample_service_def]] by blast
  with resp parse run show ?thesis by (auto simp: Let_def simp del: fun_upd_apply)
qed

section \<open>Dead letters\<close>

text \<open>The cast \<open>as i32\<close> keeps the low 32 bits.\<close>

lemma ucast_count: "ucast (of_nat n :: i64) = (of_nat n :: i32)"
  by (rule bit_word_eqI) (simp add: bit_simps)

context dlq_port begin

lemma list_dlq_law:
  assumes "dok s" and "bs_dlq_handler svc = drepo" and run: "list_dlq_messages_inner ul svc req s = (r, s')"
  shows "dok s' \<and> parked s' = parked s \<and>
         (\<forall>resp. r = Ok resp \<longrightarrow>
            (\<exists>ms. page_of (list_dlq_topic req) (parked s) (list_dlq_limit req) (scast (mq_offset req)) ms \<and>
                  mr_messages resp = map (dlq_message_info ul) ms \<and>
                  mr_total_count resp = of_nat (card (selected (list_dlq_topic req) (parked s))))) \<and>
         (\<forall>st. r = Err st \<longrightarrow> gs_code st = Internal)"
proof -
  obtain g s1 where g: "dr_get_all drepo (list_dlq_topic req) (list_dlq_limit req) (scast (mq_offset req)) s = (g, s1)"
    by fastforce
  note get = dlq_get_all_law [OF assms(1) g]
  show ?thesis
  proof (cases g)
    case (Inl e)
    with run g get assms(2) show ?thesis by (auto simp: list_dlq_messages_inner_def dlq_get_messages_def)
  next
    case (Inr ms)
    obtain c s2 where c: "dr_count drepo (list_dlq_topic req) s1 = (c, s2)" by fastforce
    from get have "dok s1" "parked s1 = parked s" by auto
    with dlq_count_law [OF _ c] run g Inr c get assms(2) show ?thesis
      by (cases c) (auto simp: list_dlq_messages_inner_def dlq_get_messages_def dlq_count_def ucast_count)
  qed
qed

end





end
