(* ===== verification/Rest_Dto.thy ===== *)
theory Rest_Dto
  imports Service
begin

text \<open>
  The JSON shapes of the REST API (\<open>rs-broker-server/src/http/dto.rs\<close>) and its error responses
  (\<open>http/error.rs\<close>): one record per DTO, one conversion per \<open>From\<close> implementation, the payload
  encoding and the mapping of \<open>tonic::Status\<close> to HTTP. \<open>_from\<close> converts the wire type to the DTO,
  \<open>_into\<close> the DTO to the wire type. The four value types shared by requests and responses convert
  both ways without loss: locale \<open>wire_conversion\<close>. The Base64 engine is a library's and a parameter.
\<close>

section \<open>Conversions without loss\<close>

locale wire_conversion =
  fixes from_wire :: "'p \<Rightarrow> 'd" and into_wire :: "'d \<Rightarrow> 'p"
  assumes into_from [simp]: "into_wire (from_wire p) = p"
    and from_into [simp]: "from_wire (into_wire d) = d"

context wire_conversion begin

lemma from_inj: "from_wire p = from_wire q \<longleftrightarrow> p = q"
  by (metis into_from)

lemma map_into_from [simp]: "map into_wire (map from_wire ps) = ps"
  by (induction ps) simp_all

lemma map_option_into_from [simp]: "map_option into_wire (map_option from_wire v) = v"
  by (cases v) simp_all

lemma map_option_from_into [simp]: "map_option from_wire (map_option into_wire v) = v"
  by (cases v) simp_all

end

section \<open>Shared value types\<close>

record dto_header =
  jhd_key :: string
  jhd_value :: string

definition dto_header_from :: "pb_header \<Rightarrow> dto_header" where
  "dto_header_from m =
     \<lparr>jhd_key = hd_key m, jhd_value = hd_value m\<rparr>"

definition dto_header_into :: "dto_header \<Rightarrow> pb_header" where
  "dto_header_into m =
     \<lparr>hd_key = jhd_key m, hd_value = jhd_value m\<rparr>"

interpretation header: wire_conversion dto_header_from dto_header_into
  by unfold_locales (simp_all add: dto_header_from_def dto_header_into_def)

record dto_retry_config =
  jrc_max_retries :: i32
  jrc_initial_delay_ms :: i64
  jrc_multiplier :: f64
  jrc_max_delay_ms :: i64
  jrc_enable_dlq :: bool
  jrc_dlq_topic :: string

definition dto_retry_config_from :: "pb_retry_config \<Rightarrow> dto_retry_config" where
  "dto_retry_config_from m =
     \<lparr>jrc_max_retries = wrc_max_retries m, jrc_initial_delay_ms = wrc_initial_delay_ms m,
      jrc_multiplier = wrc_multiplier m, jrc_max_delay_ms = wrc_max_delay_ms m,
      jrc_enable_dlq = wrc_enable_dlq m, jrc_dlq_topic = wrc_dlq_topic m\<rparr>"

definition dto_retry_config_into :: "dto_retry_config \<Rightarrow> pb_retry_config" where
  "dto_retry_config_into m =
     \<lparr>wrc_max_retries = jrc_max_retries m, wrc_initial_delay_ms = jrc_initial_delay_ms m,
      wrc_multiplier = jrc_multiplier m, wrc_max_delay_ms = jrc_max_delay_ms m,
      wrc_enable_dlq = jrc_enable_dlq m, wrc_dlq_topic = jrc_dlq_topic m\<rparr>"

interpretation retry: wire_conversion dto_retry_config_from dto_retry_config_into
  by unfold_locales (simp_all add: dto_retry_config_from_def dto_retry_config_into_def)

record dto_delivery_config =
  jdc_timeout_ms :: i64
  jdc_max_concurrent :: i32
  jdc_retry_config :: "dto_retry_config option"
  jdc_require_ack :: bool

definition dto_delivery_config_from :: "pb_delivery_config \<Rightarrow> dto_delivery_config" where
  "dto_delivery_config_from m =
     \<lparr>jdc_timeout_ms = wdc_timeout_ms m, jdc_max_concurrent = wdc_max_concurrent m,
      jdc_retry_config = map_option dto_retry_config_from (wdc_retry_config m),
      jdc_require_ack = wdc_require_ack m\<rparr>"

definition dto_delivery_config_into :: "dto_delivery_config \<Rightarrow> pb_delivery_config" where
  "dto_delivery_config_into m =
     \<lparr>wdc_timeout_ms = jdc_timeout_ms m, wdc_max_concurrent = jdc_max_concurrent m,
      wdc_retry_config = map_option dto_retry_config_into (jdc_retry_config m),
      wdc_require_ack = jdc_require_ack m\<rparr>"

interpretation delivery: wire_conversion dto_delivery_config_from dto_delivery_config_into
  by unfold_locales (simp_all add: dto_delivery_config_from_def dto_delivery_config_into_def del: option.map_comp)

record dto_request_metadata =
  jmd_correlation_id :: string
  jmd_source_service :: string
  jmd_timestamp :: i64
  jmd_context :: "string \<rightharpoonup> string"

definition dto_request_metadata_from :: "pb_request_metadata \<Rightarrow> dto_request_metadata" where
  "dto_request_metadata_from m =
     \<lparr>jmd_correlation_id = wmd_correlation_id m, jmd_source_service = wmd_source_service m,
      jmd_timestamp = wmd_timestamp m, jmd_context = wmd_context m\<rparr>"

definition dto_request_metadata_into :: "dto_request_metadata \<Rightarrow> pb_request_metadata" where
  "dto_request_metadata_into m =
     \<lparr>wmd_correlation_id = jmd_correlation_id m, wmd_source_service = jmd_source_service m,
      wmd_timestamp = jmd_timestamp m, wmd_context = jmd_context m\<rparr>"

interpretation metadata: wire_conversion dto_request_metadata_from dto_request_metadata_into
  by unfold_locales (simp_all add: dto_request_metadata_from_def dto_request_metadata_into_def)

section \<open>Payloads\<close>

record base64 =
  b64_encode :: "bytes \<Rightarrow> string"
  b64_decode :: "string \<Rightarrow> string + bytes"

datatype payload = Payload_Json json | Payload_Base64 bytes

datatype response_payload = RP_Json json | RP_Base64 string

definition payload_from_request_parts ::
  "base64 \<Rightarrow> json option \<Rightarrow> string option \<Rightarrow> string + payload option" where
  "payload_from_request_parts b64 payload payload_base64 =
     (case (payload, payload_base64) of
        (Some _, Some _) \<Rightarrow> Err ''only one of 'payload' and 'payload_base64' may be set''
      | (Some v, None) \<Rightarrow> Ok (Some (Payload_Json v))
      | (None, Some s) \<Rightarrow>
          (case b64_decode b64 s of
             Err e \<Rightarrow> Err (''invalid base64 in payload_base64: '' @ e)
           | Ok bytes \<Rightarrow> Ok (Some (Payload_Base64 bytes)))
      | (None, None) \<Rightarrow> Ok None)"

definition to_response_value :: "base64 \<Rightarrow> serde \<Rightarrow> bytes \<Rightarrow> response_payload" where
  "to_response_value b64 sd bytes =
     (if bytes = [] then RP_Json JNull
      else case sd_from_slice sd bytes of
             Ok v \<Rightarrow> RP_Json v
           | Err _ \<Rightarrow> RP_Base64 (b64_encode b64 bytes))"

text \<open>\<open>#[serde(untagged)]\<close>: the value is serialized without a trace of its variant.\<close>

fun response_payload_json :: "response_payload \<Rightarrow> json" where
  "response_payload_json (RP_Json v) = v"
| "response_payload_json (RP_Base64 s) = JString s"

section \<open>Publishing\<close>

record dto_publish_request =
  jpq_message_id :: "string option"
  jpq_aggregate_type :: "string option"
  jpq_aggregate_id :: "string option"
  jpq_event_type :: "string option"
  jpq_payload :: "json option"
  jpq_payload_base64 :: "string option"
  jpq_headers :: "dto_header list option"
  jpq_topic :: "string option"
  jpq_partition_key :: "string option"
  jpq_retry_config :: "dto_retry_config option"
  jpq_metadata :: "dto_request_metadata option"

definition payload_bytes :: "serde \<Rightarrow> payload option \<Rightarrow> string + bytes" where
  "payload_bytes sd p =
     (case p of
        Some (Payload_Json v) \<Rightarrow> map_err (\<lambda>e. ''failed to serialize payload: '' @ e) (sd_to_vec sd v)
      | Some (Payload_Base64 bytes) \<Rightarrow> Ok bytes
      | None \<Rightarrow> Ok [])"

definition publish_into_proto :: "base64 \<Rightarrow> serde \<Rightarrow> dto_publish_request \<Rightarrow> string + pb_publish_request" where
  "publish_into_proto b64 sd body =
     (case payload_from_request_parts b64 (jpq_payload body) (jpq_payload_base64 body) of
        Err e \<Rightarrow> Err e
      | Ok p \<Rightarrow>
          (case payload_bytes sd p of
             Err e \<Rightarrow> Err e
           | Ok bytes \<Rightarrow>
               Ok \<lparr>pq_message_id = unwrap_or (jpq_message_id body) [],
                   pq_aggregate_type = unwrap_or (jpq_aggregate_type body) [],
                   pq_aggregate_id = unwrap_or (jpq_aggregate_id body) [],
                   pq_event_type = unwrap_or (jpq_event_type body) [], pq_payload = bytes,
                   pq_headers = map dto_header_into (unwrap_or (jpq_headers body) []),
                   pq_topic = unwrap_or (jpq_topic body) [],
                   pq_partition_key = unwrap_or (jpq_partition_key body) [],
                   pq_retry_config = map_option dto_retry_config_into (jpq_retry_config body),
                   pq_metadata = map_option dto_request_metadata_into (jpq_metadata body)\<rparr>))"

definition message_status_to_str :: "i32 \<Rightarrow> string" where
  "message_status_to_str status =
     (case message_status_try_from status of
        Some MSG_Pending \<Rightarrow> ''pending''
      | Some MSG_Publishing \<Rightarrow> ''publishing''
      | Some MSG_Published \<Rightarrow> ''published''
      | Some MSG_Retrying \<Rightarrow> ''retrying''
      | Some MSG_Failed \<Rightarrow> ''failed''
      | Some MSG_Dlq \<Rightarrow> ''dlq''
      | Some MSG_Received \<Rightarrow> ''received''
      | Some MSG_Processing \<Rightarrow> ''processing''
      | Some MSG_Processed \<Rightarrow> ''processed''
      | Some MSG_Delivered \<Rightarrow> ''delivered''
      | _ \<Rightarrow> ''unspecified'')"

record dto_publish_response =
  jpr_message_id :: string
  jpr_status :: string
  jpr_duplicate :: bool
  jpr_accepted_at :: i64
  jpr_error :: string

definition dto_publish_response_from :: "pb_publish_response \<Rightarrow> dto_publish_response" where
  "dto_publish_response_from m =
     \<lparr>jpr_message_id = pr_message_id m, jpr_status = message_status_to_str (pr_status m),
      jpr_duplicate = pr_duplicate m, jpr_accepted_at = pr_accepted_at m, jpr_error = pr_error m\<rparr>"

record dto_publish_batch_request =
  jbq_messages :: "dto_publish_request list"
  jbq_metadata :: "dto_request_metadata option"

record dto_publish_batch_response =
  jbr_responses :: "dto_publish_response list"
  jbr_success_count :: i32
  jbr_failure_count :: i32

definition dto_publish_batch_response_from :: "pb_publish_batch_response \<Rightarrow> dto_publish_batch_response" where
  "dto_publish_batch_response_from m =
     \<lparr>jbr_responses = map dto_publish_response_from (br_responses m),
      jbr_success_count = br_success_count m, jbr_failure_count = br_failure_count m\<rparr>"

section \<open>Status and cancellation\<close>

record dto_get_message_status_response =
  jgr_message_id :: string
  jgr_status :: string
  jgr_retry_count :: i32
  jgr_last_updated :: i64
  jgr_error_message :: string
  jgr_published_at :: i64
  jgr_topic :: string

definition dto_get_message_status_response_from :: "pb_get_message_status_response \<Rightarrow> dto_get_message_status_response" where
  "dto_get_message_status_response_from m =
     \<lparr>jgr_message_id = gr_message_id m, jgr_status = message_status_to_str (gr_status m),
      jgr_retry_count = gr_retry_count m, jgr_last_updated = gr_last_updated m,
      jgr_error_message = gr_error_message m, jgr_published_at = gr_published_at m,
      jgr_topic = gr_topic m\<rparr>"

record dto_cancel_message_response =
  jcr_success :: bool
  jcr_status :: string
  jcr_error :: string

definition dto_cancel_message_response_from :: "pb_cancel_message_response \<Rightarrow> dto_cancel_message_response" where
  "dto_cancel_message_response_from m =
     \<lparr>jcr_success = cr_success m, jcr_status = message_status_to_str (cr_status m),
      jcr_error = cr_error m\<rparr>"

section \<open>Subscribers\<close>

record dto_register_subscriber_request =
  jrq_service_name :: string
  jrq_grpc_endpoint :: string
  jrq_topic_patterns :: "string list"
  jrq_delivery_config :: "dto_delivery_config option"
  jrq_metadata :: "dto_request_metadata option"

record dto_subscriber_mutation_response =
  jsm_subscriber_id :: string
  jsm_success :: bool
  jsm_error :: string

definition dto_registered_from :: "pb_register_subscriber_response \<Rightarrow> dto_subscriber_mutation_response" where
  "dto_registered_from m =
     \<lparr>jsm_subscriber_id = rgr_subscriber_id m, jsm_success = rgr_success m,
      jsm_error = rgr_error m\<rparr>"

definition dto_updated_from :: "pb_update_subscriber_response \<Rightarrow> dto_subscriber_mutation_response" where
  "dto_updated_from m =
     \<lparr>jsm_subscriber_id = [], jsm_success = ar_success m, jsm_error = ar_error m\<rparr>"

definition dto_unregistered_from :: "pb_unregister_subscriber_response \<Rightarrow> dto_subscriber_mutation_response" where
  "dto_unregistered_from m =
     \<lparr>jsm_subscriber_id = [], jsm_success = ur_success m, jsm_error = ur_error m\<rparr>"

record dto_update_subscriber_request =
  juq_grpc_endpoint :: "string option"
  juq_topic_patterns :: "string list option"
  juq_active :: "bool option"
  juq_delivery_config :: "dto_delivery_config option"
  juq_metadata :: "dto_request_metadata option"

record dto_subscriber_info =
  jsi_subscriber_id :: string
  jsi_service_name :: string
  jsi_grpc_endpoint :: string
  jsi_topic_patterns :: "string list"
  jsi_active :: bool
  jsi_registered_at :: i64

definition dto_subscriber_info_from :: "pb_subscriber_info \<Rightarrow> dto_subscriber_info" where
  "dto_subscriber_info_from m =
     \<lparr>jsi_subscriber_id = si_subscriber_id m, jsi_service_name = si_service_name m,
      jsi_grpc_endpoint = si_grpc_endpoint m, jsi_topic_patterns = si_topic_patterns m,
      jsi_active = si_active m, jsi_registered_at = si_registered_at m\<rparr>"

record dto_list_subscribers_response =
  jlr_subscribers :: "dto_subscriber_info list"

definition dto_list_subscribers_response_from :: "pb_list_subscribers_response \<Rightarrow> dto_list_subscribers_response" where
  "dto_list_subscribers_response_from m =
     \<lparr>jlr_subscribers = map dto_subscriber_info_from (lr_subscribers m)\<rparr>"

section \<open>Health\<close>

definition health_status_to_str :: "i32 \<Rightarrow> string" where
  "health_status_to_str status =
     (case health_status_try_from status of
        Some HS_Healthy \<Rightarrow> ''healthy''
      | Some HS_Degraded \<Rightarrow> ''degraded''
      | Some HS_Unhealthy \<Rightarrow> ''unhealthy''
      | _ \<Rightarrow> ''unspecified'')"

record dto_component_health =
  jch_name :: string
  jch_status :: string
  jch_message :: string

definition dto_component_health_from :: "pb_component_health \<Rightarrow> dto_component_health" where
  "dto_component_health_from m =
     \<lparr>jch_name = ch_name m, jch_status = health_status_to_str (ch_status m),
      jch_message = ch_message m\<rparr>"

record dto_broker_metrics =
  jbm_outbox_pending :: i64
  jbm_inbox_pending :: i64
  jbm_published_today :: i64
  jbm_processed_today :: i64
  jbm_dlq_count :: i64
  jbm_active_subscribers :: i64
  jbm_kafka_connected :: bool
  jbm_database_connected :: bool

definition dto_broker_metrics_from :: "pb_broker_metrics \<Rightarrow> dto_broker_metrics" where
  "dto_broker_metrics_from m =
     \<lparr>jbm_outbox_pending = bm_outbox_pending m, jbm_inbox_pending = bm_inbox_pending m,
      jbm_published_today = bm_published_today m, jbm_processed_today = bm_processed_today m,
      jbm_dlq_count = bm_dlq_count m, jbm_active_subscribers = bm_active_subscribers m,
      jbm_kafka_connected = bm_kafka_connected m, jbm_database_connected = bm_database_connected m\<rparr>"

record dto_health_response =
  jhr_status :: string
  jhr_components :: "dto_component_health list"
  jhr_metrics :: "dto_broker_metrics option"

definition dto_health_response_from :: "pb_health_response \<Rightarrow> dto_health_response" where
  "dto_health_response_from m =
     \<lparr>jhr_status = health_status_to_str (hr_status m),
      jhr_components = map dto_component_health_from (hr_components m),
      jhr_metrics = map_option dto_broker_metrics_from (hr_metrics m)\<rparr>"

section \<open>Dead letters\<close>

record dto_reprocess_dlq_request =
  jxq_message_id :: "string option"
  jxq_topic :: "string option"
  jxq_all :: "bool option"

definition reprocess_into_proto :: "dto_reprocess_dlq_request \<Rightarrow> pb_reprocess_dlq_request" where
  "reprocess_into_proto body =
     \<lparr>xq_message_id = unwrap_or (jxq_message_id body) [], xq_topic = unwrap_or (jxq_topic body) [],
      xq_all = unwrap_or (jxq_all body) False, xq_metadata = None\<rparr>"

record dto_reprocess_dlq_response =
  jxr_reprocessed_count :: i32
  jxr_failure_count :: i32
  jxr_errors :: "string list"

definition dto_reprocess_dlq_response_from :: "pb_reprocess_dlq_response \<Rightarrow> dto_reprocess_dlq_response" where
  "dto_reprocess_dlq_response_from m =
     \<lparr>jxr_reprocessed_count = xr_reprocessed_count m, jxr_failure_count = xr_failure_count m,
      jxr_errors = xr_errors m\<rparr>"

record dto_list_dlq_query =
  jlq_topic :: "string option"
  jlq_limit :: "i32 option"
  jlq_offset :: "i32 option"

record dto_dlq_message_info =
  jdi_message_id :: string
  jdi_original_topic :: string
  jdi_dlq_topic :: string
  jdi_failure_reason :: string
  jdi_retry_count :: i32
  jdi_created_at :: i64

definition dto_dlq_message_info_from :: "pb_dlq_message_info \<Rightarrow> dto_dlq_message_info" where
  "dto_dlq_message_info_from m =
     \<lparr>jdi_message_id = di_message_id m, jdi_original_topic = di_original_topic m,
      jdi_dlq_topic = di_dlq_topic m, jdi_failure_reason = di_failure_reason m,
      jdi_retry_count = di_retry_count m, jdi_created_at = di_created_at m\<rparr>"

record dto_list_dlq_messages_response =
  jmr_messages :: "dto_dlq_message_info list"
  jmr_total_count :: i32

definition dto_list_dlq_messages_response_from :: "pb_list_dlq_messages_response \<Rightarrow> dto_list_dlq_messages_response" where
  "dto_list_dlq_messages_response_from m =
     \<lparr>jmr_messages = map dto_dlq_message_info_from (mr_messages m),
      jmr_total_count = mr_total_count m\<rparr>"

section \<open>Events\<close>

record dto_deliver_event =
  jde_message_id :: string
  jde_topic :: string
  jde_partition :: i32
  jde_offset :: i64
  jde_key :: string
  jde_payload :: response_payload
  jde_headers :: "dto_header list"
  jde_timestamp :: i64
  jde_event_type :: string

definition dto_deliver_event_from :: "base64 \<Rightarrow> serde \<Rightarrow> pb_deliver_event \<Rightarrow> dto_deliver_event" where
  "dto_deliver_event_from b64 sd m =
     \<lparr>jde_message_id = de_message_id m, jde_topic = de_topic m, jde_partition = de_partition m,
      jde_offset = de_offset m, jde_key = de_key m, jde_payload = to_response_value b64 sd (de_payload m),
      jde_headers = map dto_header_from (de_headers m), jde_timestamp = de_timestamp m,
      jde_event_type = de_event_type m\<rparr>"

section \<open>Errors\<close>

text \<open>The HTTP status codes as numbers.\<close>

definition status_to_http :: "grpc_status \<Rightarrow> nat" where
  "status_to_http status =
     (case gs_code status of
        InvalidArgument \<Rightarrow> 400
      | OutOfRange \<Rightarrow> 400
      | NotFound \<Rightarrow> 404
      | AlreadyExists \<Rightarrow> 409
      | FailedPrecondition \<Rightarrow> 409
      | Unauthenticated \<Rightarrow> 401
      | PermissionDenied \<Rightarrow> 403
      | Unimplemented \<Rightarrow> 501
      | Unavailable \<Rightarrow> 503
      | DeadlineExceeded \<Rightarrow> 504
      | _ \<Rightarrow> 500)"

fun status_code_name :: "code \<Rightarrow> string" where
  "status_code_name Code_Ok = ''ok''"
| "status_code_name Cancelled = ''cancelled''"
| "status_code_name Unknown = ''unknown''"
| "status_code_name InvalidArgument = ''invalid_argument''"
| "status_code_name DeadlineExceeded = ''deadline_exceeded''"
| "status_code_name NotFound = ''not_found''"
| "status_code_name AlreadyExists = ''already_exists''"
| "status_code_name PermissionDenied = ''permission_denied''"
| "status_code_name ResourceExhausted = ''resource_exhausted''"
| "status_code_name FailedPrecondition = ''failed_precondition''"
| "status_code_name Aborted = ''aborted''"
| "status_code_name OutOfRange = ''out_of_range''"
| "status_code_name Unimplemented = ''unimplemented''"
| "status_code_name Internal = ''internal''"
| "status_code_name Unavailable = ''unavailable''"
| "status_code_name DataLoss = ''data_loss''"
| "status_code_name Unauthenticated = ''unauthenticated''"

record error_detail =
  ed_code :: string
  ed_message :: string

record error_body =
  eb_error :: error_detail

definition error_body_from_status :: "grpc_status \<Rightarrow> error_body" where
  "error_body_from_status status =
     \<lparr>eb_error = \<lparr>ed_code = status_code_name (gs_code status), ed_message = gs_message status\<rparr>\<rparr>"

text \<open>An HTTP response: its status code and its JSON body, an error or a DTO.\<close>

type_synonym 'd http_response = "nat \<times> (error_body + 'd)"

definition status_response :: "grpc_status \<Rightarrow> 'd http_response" where
  "status_response status = (status_to_http status, Err (error_body_from_status status))"

text \<open>\<open>ApiError\<close> wraps a status; a handler's \<open>Ok(Json(dto))\<close> answers 200.\<close>

definition into_response :: "grpc_status + 'd \<Rightarrow> 'd http_response" where
  "into_response r = (case r of Err st \<Rightarrow> status_response st | Ok body \<Rightarrow> (200, Ok body))"

lemma status_code_name_inj: "status_code_name a = status_code_name b \<longleftrightarrow> a = b"
  by (cases a; cases b) simp_all

section \<open>What a response tells of a payload\<close>

text \<open>Raw bytes that are no JSON are answered as their Base64 text. The event's body does not say so: a payload
  that is the JSON string of the same text is answered with the same value, so a client cannot tell the
  two apart.\<close>

theorem untagged_payload:
  assumes "raw \<noteq> []" and "\<not> is_ok (sd_from_slice sd raw)"
    and "bs \<noteq> []" and "sd_from_slice sd bs = Ok (JString (b64_encode b64 raw))"
  shows "response_payload_json (to_response_value b64 sd raw) = response_payload_json (to_response_value b64 sd bs)"
  using assms by (cases "sd_from_slice sd raw") (simp_all add: to_response_value_def)

text \<open>An instance of the two libraries: printing is tagging.\<close>

definition tagged_serde :: serde where
  "tagged_serde =
     \<lparr>sd_from_slice = (\<lambda>b. if b = [1] then Ok JNull else Err ''expected value''),
      sd_to_vec = (\<lambda>j. if j = JNull then Ok [1] else Err ''unsupported''),
      sd_map_to_value = (\<lambda>m. Ok JNull)\<rparr>"

definition char_base64 :: base64 where
  "char_base64 = \<lparr>b64_encode = map (\<lambda>w. char_of (unat w)), b64_decode = (\<lambda>s. Ok (map (\<lambda>c. of_nat (of_char c)) s))\<rparr>"

end
