(* ===== verification/Rest_Routes.thy ===== *)
theory Rest_Routes
  imports Rest_Dto Service_System
begin

text \<open>
  The REST and SSE transport (\<open>rs-broker-server/src/http/routes.rs\<close>, \<open>mod.rs\<close>, \<open>sse.rs\<close>): one
  definition per handler over the same service bodies as gRPC, the route table, and the event
  stream. Reading paths, queries and bodies into the DTOs is the work of \<open>axum\<close>: a \<open>rest_call\<close> is a
  request after extraction.
\<close>

section \<open>Handlers\<close>

definition rest_publish ::
  "base64 \<Rightarrow> uuid_lib \<Rightarrow> serde \<Rightarrow> 's rs_broker_service \<Rightarrow> dto_publish_request \<Rightarrow> runtime \<Rightarrow> 's
     \<Rightarrow> (grpc_status + dto_publish_response) \<times> runtime \<times> 's" where
  "rest_publish b64 ul sd svc body rt s =
     (case publish_into_proto b64 sd body of
        Err msg \<Rightarrow> (Err (invalid_argument msg), rt, s)
      | Ok proto_req \<Rightarrow> apfst (map_ok dto_publish_response_from) (publish_inner ul sd svc proto_req rt s))"

fun batch_into_proto :: "base64 \<Rightarrow> serde \<Rightarrow> dto_publish_request list \<Rightarrow> string + pb_publish_request list" where
  "batch_into_proto b64 sd [] = Ok []"
| "batch_into_proto b64 sd (m # ms) =
     (case publish_into_proto b64 sd m of
        Err msg \<Rightarrow> Err msg
      | Ok req \<Rightarrow> map_ok (\<lambda>reqs. req # reqs) (batch_into_proto b64 sd ms))"

definition rest_publish_batch ::
  "base64 \<Rightarrow> uuid_lib \<Rightarrow> serde \<Rightarrow> 's rs_broker_service \<Rightarrow> dto_publish_batch_request \<Rightarrow> runtime \<Rightarrow> 's
     \<Rightarrow> (grpc_status + dto_publish_batch_response) \<times> runtime \<times> 's" where
  "rest_publish_batch b64 ul sd svc body rt s =
     (case batch_into_proto b64 sd (jbq_messages body) of
        Err msg \<Rightarrow> (Err (invalid_argument msg), rt, s)
      | Ok proto_reqs \<Rightarrow>
          apfst (map_ok dto_publish_batch_response_from)
            (publish_batch_inner ul sd svc
               \<lparr>bq_messages = proto_reqs, bq_metadata = map_option dto_request_metadata_into (jbq_metadata body)\<rparr> rt s))"

definition rest_get_message_status ::
  "uuid_lib \<Rightarrow> 's rs_broker_service \<Rightarrow> string \<Rightarrow> 's \<Rightarrow> (grpc_status + dto_get_message_status_response) \<times> 's" where
  "rest_get_message_status ul svc path_id s =
     apfst (map_ok dto_get_message_status_response_from)
       (get_message_status_inner ul svc \<lparr>gq_message_id = path_id, gq_metadata = None\<rparr> s)"

definition rest_cancel_message ::
  "uuid_lib \<Rightarrow> 's rs_broker_service \<Rightarrow> string \<Rightarrow> 's \<Rightarrow> (grpc_status + dto_cancel_message_response) \<times> 's" where
  "rest_cancel_message ul svc path_id s =
     apfst (map_ok dto_cancel_message_response_from)
       (cancel_message_inner ul svc \<lparr>cq_message_id = path_id, cq_metadata = None\<rparr> s)"

definition rest_register_subscriber ::
  "uuid_lib \<Rightarrow> 's rs_broker_service \<Rightarrow> dto_register_subscriber_request \<Rightarrow> runtime \<Rightarrow> 's
     \<Rightarrow> (grpc_status + dto_subscriber_mutation_response) \<times> runtime \<times> 's" where
  "rest_register_subscriber ul svc body rt s =
     apfst (map_ok dto_registered_from)
       (register_subscriber_inner ul svc
          \<lparr>rgq_subscriber_id = [], rgq_service_name = jrq_service_name body,
           rgq_grpc_endpoint = jrq_grpc_endpoint body, rgq_topic_patterns = jrq_topic_patterns body,
           rgq_delivery_config = map_option dto_delivery_config_into (jrq_delivery_config body),
           rgq_metadata = map_option dto_request_metadata_into (jrq_metadata body)\<rparr> rt s)"

record list_subscribers_query =
  jls_topic_filter :: "string option"
  jls_active_only :: "bool option"

definition rest_list_subscribers ::
  "uuid_lib \<Rightarrow> 's rs_broker_service \<Rightarrow> list_subscribers_query \<Rightarrow> 's
     \<Rightarrow> (grpc_status + dto_list_subscribers_response) \<times> 's" where
  "rest_list_subscribers ul svc query s =
     apfst (map_ok dto_list_subscribers_response_from)
       (list_subscribers_inner ul svc
          \<lparr>lq_topic_filter = unwrap_or (jls_topic_filter query) [],
           lq_active_only = unwrap_or (jls_active_only query) False, lq_metadata = None\<rparr> s)"

definition update_into_proto :: "string \<Rightarrow> dto_update_subscriber_request \<Rightarrow> pb_update_subscriber_request" where
  "update_into_proto path_id body =
     \<lparr>aq_subscriber_id = path_id, aq_grpc_endpoint = unwrap_or (juq_grpc_endpoint body) [],
      aq_topic_patterns = unwrap_or (juq_topic_patterns body) [], aq_active = unwrap_or (juq_active body) True,
      aq_delivery_config = map_option dto_delivery_config_into (juq_delivery_config body),
      aq_metadata = map_option dto_request_metadata_into (juq_metadata body)\<rparr>"

definition rest_update_subscriber ::
  "uuid_lib \<Rightarrow> 's rs_broker_service \<Rightarrow> string \<Rightarrow> dto_update_subscriber_request \<Rightarrow> 's
     \<Rightarrow> (grpc_status + dto_subscriber_mutation_response) \<times> 's" where
  "rest_update_subscriber ul svc path_id body s =
     apfst (map_ok dto_updated_from) (update_subscriber_inner ul svc (update_into_proto path_id body) s)"

definition rest_unregister_subscriber ::
  "uuid_lib \<Rightarrow> 's rs_broker_service \<Rightarrow> string \<Rightarrow> 's \<Rightarrow> (grpc_status + dto_subscriber_mutation_response) \<times> 's" where
  "rest_unregister_subscriber ul svc path_id s =
     apfst (map_ok dto_unregistered_from)
       (unregister_subscriber_inner ul svc \<lparr>uq_subscriber_id = path_id, uq_metadata = None\<rparr> s)"

definition rest_get_health :: "'s rs_broker_service \<Rightarrow> 's \<Rightarrow> (grpc_status + dto_health_response) \<times> 's" where
  "rest_get_health svc s =
     apfst (map_ok dto_health_response_from) (get_health_inner svc \<lparr>hq_include_metrics = True\<rparr> s)"

definition rest_reprocess_dlq ::
  "uuid_lib \<Rightarrow> 's rs_broker_service \<Rightarrow> dto_reprocess_dlq_request \<Rightarrow> runtime \<Rightarrow> 's
     \<Rightarrow> (grpc_status + dto_reprocess_dlq_response) \<times> runtime \<times> 's" where
  "rest_reprocess_dlq ul svc body rt s =
     apfst (map_ok dto_reprocess_dlq_response_from) (reprocess_dlq_inner ul svc (reprocess_into_proto body) rt s)"

definition rest_list_dlq_messages ::
  "uuid_lib \<Rightarrow> 's rs_broker_service \<Rightarrow> dto_list_dlq_query \<Rightarrow> 's
     \<Rightarrow> (grpc_status + dto_list_dlq_messages_response) \<times> 's" where
  "rest_list_dlq_messages ul svc query s =
     apfst (map_ok dto_list_dlq_messages_response_from)
       (list_dlq_messages_inner ul svc
          \<lparr>mq_topic = unwrap_or (jlq_topic query) [], mq_limit = unwrap_or (jlq_limit query) 50,
           mq_offset = unwrap_or (jlq_offset query) 0, mq_metadata = None\<rparr> s)"

section \<open>The router\<close>

datatype http_method = GET | POST | PATCH | DELETE

datatype rest_handler =
    H_Publish | H_Publish_Batch | H_Get_Message_Status | H_Cancel_Message | H_Register_Subscriber
  | H_List_Subscribers | H_Update_Subscriber | H_Unregister_Subscriber | H_Events_Stream | H_Get_Health
  | H_Reprocess_Dlq | H_List_Dlq_Messages

definition router :: "(string \<times> (http_method \<times> rest_handler) list) list" where
  "router =
     [(''/publish'', [(POST, H_Publish)]),
      (''/publish/batch'', [(POST, H_Publish_Batch)]),
      (''/messages/:id'', [(GET, H_Get_Message_Status), (DELETE, H_Cancel_Message)]),
      (''/subscribers'', [(POST, H_Register_Subscriber), (GET, H_List_Subscribers)]),
      (''/subscribers/:id'', [(PATCH, H_Update_Subscriber), (DELETE, H_Unregister_Subscriber)]),
      (''/events/stream'', [(GET, H_Events_Stream)]),
      (''/health'', [(GET, H_Get_Health)]),
      (''/dlq/reprocess'', [(POST, H_Reprocess_Dlq)]),
      (''/dlq'', [(GET, H_List_Dlq_Messages)])]"

text \<open>A request after routing and extraction, and the DTOs of the answers; the event stream apart.\<close>

datatype rest_call =
    Call_Publish dto_publish_request
  | Call_Publish_Batch dto_publish_batch_request
  | Call_Get_Message_Status string
  | Call_Cancel_Message string
  | Call_Register_Subscriber dto_register_subscriber_request
  | Call_List_Subscribers list_subscribers_query
  | Call_Update_Subscriber string dto_update_subscriber_request
  | Call_Unregister_Subscriber string
  | Call_Get_Health
  | Call_Reprocess_Dlq dto_reprocess_dlq_request
  | Call_List_Dlq_Messages dto_list_dlq_query

datatype rest_body =
    Body_Publish dto_publish_response
  | Body_Publish_Batch dto_publish_batch_response
  | Body_Message_Status dto_get_message_status_response
  | Body_Cancel dto_cancel_message_response
  | Body_Mutation dto_subscriber_mutation_response
  | Body_Subscribers dto_list_subscribers_response
  | Body_Health dto_health_response
  | Body_Reprocess dto_reprocess_dlq_response
  | Body_Dlq_Messages dto_list_dlq_messages_response

text \<open>The answer of a handler as an HTTP response; registering answers 201.\<close>

definition respond :: "nat \<Rightarrow> ('d \<Rightarrow> rest_body) \<Rightarrow> grpc_status + 'd \<Rightarrow> rest_body http_response" where
  "respond success body r = (case r of Err st \<Rightarrow> status_response st | Ok d \<Rightarrow> (success, Ok (body d)))"

fun rest_serve ::
  "base64 \<Rightarrow> uuid_lib \<Rightarrow> serde \<Rightarrow> 's rs_broker_service \<Rightarrow> rest_call \<Rightarrow> runtime \<Rightarrow> 's
     \<Rightarrow> rest_body http_response \<times> runtime \<times> 's" where
  "rest_serve b64 ul sd svc (Call_Publish body) rt s =
     apfst (respond 200 Body_Publish) (rest_publish b64 ul sd svc body rt s)"
| "rest_serve b64 ul sd svc (Call_Publish_Batch body) rt s =
     apfst (respond 200 Body_Publish_Batch) (rest_publish_batch b64 ul sd svc body rt s)"
| "rest_serve b64 ul sd svc (Call_Get_Message_Status i) rt s =
     apsnd (Pair rt) (apfst (respond 200 Body_Message_Status) (rest_get_message_status ul svc i s))"
| "rest_serve b64 ul sd svc (Call_Cancel_Message i) rt s =
     apsnd (Pair rt) (apfst (respond 200 Body_Cancel) (rest_cancel_message ul svc i s))"
| "rest_serve b64 ul sd svc (Call_Register_Subscriber body) rt s =
     apfst (respond 201 Body_Mutation) (rest_register_subscriber ul svc body rt s)"
| "rest_serve b64 ul sd svc (Call_List_Subscribers query) rt s =
     apsnd (Pair rt) (apfst (respond 200 Body_Subscribers) (rest_list_subscribers ul svc query s))"
| "rest_serve b64 ul sd svc (Call_Update_Subscriber i body) rt s =
     apsnd (Pair rt) (apfst (respond 200 Body_Mutation) (rest_update_subscriber ul svc i body s))"
| "rest_serve b64 ul sd svc (Call_Unregister_Subscriber i) rt s =
     apsnd (Pair rt) (apfst (respond 200 Body_Mutation) (rest_unregister_subscriber ul svc i s))"
| "rest_serve b64 ul sd svc Call_Get_Health rt s =
     apsnd (Pair rt) (apfst (respond 200 Body_Health) (rest_get_health svc s))"
| "rest_serve b64 ul sd svc (Call_Reprocess_Dlq body) rt s =
     apfst (respond 200 Body_Reprocess) (rest_reprocess_dlq ul svc body rt s)"
| "rest_serve b64 ul sd svc (Call_List_Dlq_Messages query) rt s =
     apsnd (Pair rt) (apfst (respond 200 Body_Dlq_Messages) (rest_list_dlq_messages ul svc query s))"

section \<open>Refusals\<close>

text \<open>What every service body owes the transport: a refusal as \<open>InvalidArgument\<close> leaves the state as
  it was, and no other codes than three occur.\<close>

definition orderly :: "'s \<Rightarrow> (grpc_status + 'a) \<times> 's \<Rightarrow> bool" where
  "orderly s res \<longleftrightarrow>
     (case fst res of
        Err st \<Rightarrow> gs_code st = InvalidArgument \<and> snd res = s \<or> gs_code st = NotFound \<or> gs_code st = Internal
      | Ok _ \<Rightarrow> True)"

lemma orderly_simps [simp]:
  "orderly s (Ok a, s')" "orderly s (Err (invalid_argument m), s)" "orderly s (Err (not_found m), s')"
  "orderly s (Err (internal_error m), s')"
  by (simp_all add: orderly_def)

lemma orderly_map [simp]: "orderly s (map_ok f r, s') = orderly s (r, s')"
  by (cases r) (simp_all add: orderly_def)

lemma orderly_apfst [simp]: "orderly s (apfst (map_ok f) res) = orderly s res"
  by (cases res) simp

text \<open>The answer and the state, the runtime left out.\<close>

definition outcome :: "'r \<times> runtime \<times> 's \<Rightarrow> 'r \<times> 's" where
  "outcome res = (fst res, snd (snd res))"

lemma outcome_Pair [simp]: "outcome (r, rt, s) = (r, s)"
  by (simp add: outcome_def)

lemma orderly_outcome [simp]: "orderly s (outcome (apfst (map_ok f) res)) = orderly s (outcome res)"
  by (cases res) simp

lemma orderly_parse: "parse_id ul field v = Err st \<Longrightarrow> orderly s (Err st, s)"
  by (auto simp: parse_id_def)

lemma orderly_selector: "reprocess_selector ul req = Err st \<Longrightarrow> orderly s (Err st, s)"
  by (cases "parse_id ul ''message_id'' (xq_message_id req)")
     (auto simp: reprocess_selector_def orderly_parse split: if_splits)

lemma accept_apply_refusal:
  "accept_apply ul sd repo inp rt s = (Err e, rt', s') \<Longrightarrow> s' = s \<or> (\<exists>t. e = Storage t)"
  by (auto simp: accept_apply_def Let_def split: prod.splits sum.splits)

lemma orderly_publish: "orderly s (outcome (publish_inner ul sd svc req rt s))"
proof -
  obtain r rt' s' where run: "accept_apply ul sd (bs_accept_message svc) (publish_input req) rt s = (r, rt', s')"
    by (metis prod_cases3)
  show ?thesis
  proof (cases r)
    case (Inl e)
    with run accept_apply_refusal [of ul sd "bs_accept_message svc" "publish_input req" rt s e rt' s'] show ?thesis
      by (cases e) (auto simp: publish_inner_def process_publish_def accept_status_def)
  qed (use run in \<open>simp add: publish_inner_def process_publish_def split: prod.split\<close>)
qed

lemma orderly_bodies:
  "orderly s (outcome (publish_batch_inner ul sd svc bq rt s))"
  "orderly s (get_message_status_inner ul svc gq s)" "orderly s (cancel_message_inner ul svc cq s)"
  "orderly s (outcome (register_subscriber_inner ul svc rq rt s))" "orderly s (list_subscribers_inner ul svc lq s)"
  "orderly s (update_subscriber_inner ul svc uq s)" "orderly s (unregister_subscriber_inner ul svc nq s)"
  "orderly s (get_health_inner svc hq s)" "orderly s (outcome (reprocess_dlq_inner ul svc xq rt s))"
  "orderly s (list_dlq_messages_inner ul svc mq s)"
proof -
  show "orderly s (outcome (reprocess_dlq_inner ul svc xq rt s))"
    by (auto simp: reprocess_dlq_inner_def orderly_selector split: sum.split prod.split)
qed (auto simp: publish_batch_inner_def process_publish_batch_def get_message_status_inner_def
    cancel_message_inner_def cancel_check_def cancel_delete_def register_subscriber_inner_def
    list_subscribers_inner_def update_subscriber_inner_def unregister_subscriber_inner_def get_health_inner_def
    list_dlq_messages_inner_def orderly_parse Let_def split: sum.split prod.split option.split)

lemma orderly_handlers:
  "orderly s (outcome (rest_publish b64 ul sd svc pq rt s))"
  "orderly s (outcome (rest_publish_batch b64 ul sd svc bq rt s))"
  "orderly s (rest_get_message_status ul svc i s)" "orderly s (rest_cancel_message ul svc i s)"
  "orderly s (outcome (rest_register_subscriber ul svc rq rt s))" "orderly s (rest_list_subscribers ul svc lq s)"
  "orderly s (rest_update_subscriber ul svc i uq s)" "orderly s (rest_unregister_subscriber ul svc i s)"
  "orderly s (rest_get_health svc s)" "orderly s (outcome (rest_reprocess_dlq ul svc xq rt s))"
  "orderly s (rest_list_dlq_messages ul svc mq s)"
  by (simp_all add: rest_publish_def rest_publish_batch_def rest_get_message_status_def rest_cancel_message_def
      rest_register_subscriber_def rest_list_subscribers_def rest_update_subscriber_def
      rest_unregister_subscriber_def rest_get_health_def rest_reprocess_dlq_def rest_list_dlq_messages_def
      orderly_publish orderly_bodies split: sum.split)

text \<open>How a response may look, given the status of success and the state before and after.\<close>

definition served :: "nat \<Rightarrow> 's \<Rightarrow> rest_body http_response \<Rightarrow> 's \<Rightarrow> bool" where
  "served success s resp s' \<longleftrightarrow>
     (case snd resp of
        Ok b \<Rightarrow> fst resp = success
      | Err e \<Rightarrow>
          fst resp = 400 \<and> ed_code (eb_error e) = ''invalid_argument'' \<and> s' = s \<or>
          fst resp = 404 \<and> ed_code (eb_error e) = ''not_found'' \<or>
          fst resp = 500 \<and> ed_code (eb_error e) = ''internal'')"

lemma respond_served: "orderly s (r, s') \<Longrightarrow> served n s (respond n f r) s'"
  by (auto simp: served_def respond_def orderly_def status_response_def status_to_http_def
      error_body_from_status_def split: sum.split)

lemma served_triple:
  "orderly s (outcome res) \<Longrightarrow> apfst (respond n f) res = (resp, rt', s') \<Longrightarrow> served n s resp s'"
  by (cases res) (auto intro: respond_served)

lemma served_pair: "orderly s res \<Longrightarrow> served n s (respond n f (fst res)) (snd res)"
  by (cases res) (auto intro: respond_served)

lemmas served_handlers =
  served_pair [OF orderly_handlers(3)] served_pair [OF orderly_handlers(4)] served_pair [OF orderly_handlers(6)]
  served_pair [OF orderly_handlers(7)] served_pair [OF orderly_handlers(8)] served_pair [OF orderly_handlers(9)]
  served_pair [OF orderly_handlers(11)]

lemmas served_recording_handlers =
  served_triple [OF orderly_handlers(1)] served_triple [OF orderly_handlers(2)]
  served_triple [OF orderly_handlers(5)] served_triple [OF orderly_handlers(10)]

lemma rest_serve_served:
  assumes "rest_serve b64 ul sd svc call rt s = (resp, rt', s')"
  shows "served (case call of Call_Register_Subscriber _ \<Rightarrow> 201 | _ \<Rightarrow> 200) s resp s'"
  using assms
  by (cases call) (auto intro: served_handlers dest: served_recording_handlers)

text \<open>C26: Answers and errors of the REST API, for the unary routes once a request is routed and its body,
  path and query are read (what axum refuses before that, the event stream and the unimplemented stream route
  have answers of their own), and for any implementation of the ports. A response carries the answer's
  DTO exactly when its status is a success, 201 for a registration and 200 otherwise; otherwise it carries an
  error body, its status is 400, 404 or 500 and the body names the matching code; and a request that is
  refused with 400 has changed nothing.\<close>

theorem rest_errors:
  assumes "rest_serve b64 ul sd svc call rt s = ((code, body), rt', s')"
  shows "case body of
           Ok b \<Rightarrow> code = (case call of Call_Register_Subscriber _ \<Rightarrow> 201 | _ \<Rightarrow> 200)
         | Err e \<Rightarrow>
             code = 400 \<and> ed_code (eb_error e) = ''invalid_argument'' \<and> s' = s \<or>
             code = 404 \<and> ed_code (eb_error e) = ''not_found'' \<or>
             code = 500 \<and> ed_code (eb_error e) = ''internal''"
  using rest_serve_served [OF assms] by (simp add: served_def split: sum.splits)

text \<open>A publish request with both forms of payload, and a deletion that is not there.\<close>

definition sample_rest_publish :: "json option \<Rightarrow> string option \<Rightarrow> dto_publish_request" where
  "sample_rest_publish payload payload_base64 =
     \<lparr>jpq_message_id = Some ''7'', jpq_aggregate_type = None, jpq_aggregate_id = None, jpq_event_type = None,
      jpq_payload = payload, jpq_payload_base64 = payload_base64, jpq_headers = None, jpq_topic = Some ''orders'',
      jpq_partition_key = None, jpq_retry_config = None, jpq_metadata = None\<rparr>"

theorem rest_errors_witness:
  "db_outbox (snd (snd (rest_serve char_base64 decimal_uuids tagged_serde sample_service
     (Call_Publish (sample_rest_publish (Some JNull) (Some ''Hi''))) counting_runtime (sample_db [])))) = []"
proof -
  let ?call = "Call_Publish (sample_rest_publish (Some JNull) (Some ''Hi''))"
  obtain code body rt' d' where run: "rest_serve char_base64 decimal_uuids tagged_serde sample_service ?call
      counting_runtime (sample_db []) = ((code, body), rt', d')" by (metis prod.collapse)
  have "fst (fst (rest_serve char_base64 decimal_uuids tagged_serde sample_service ?call counting_runtime
      (sample_db []))) = 400"
    by (simp add: rest_publish_def publish_into_proto_def payload_from_request_parts_def sample_rest_publish_def
      respond_def status_response_def status_to_http_def)
  with run have "code = 400" by simp
  with rest_errors [OF run] have "d' = sample_db []" by (simp split: sum.splits)
  with run show ?thesis by simp
qed

section \<open>Publishing\<close>

text \<open>The payload a request asks to store: an empty object when it carries none; the value that its JSON
  payload, printed, reads back as; or the value that its raw bytes, decoded, read as (an empty object when
  there are none). Both at once are refused.\<close>

definition requested_payload :: "base64 \<Rightarrow> serde \<Rightarrow> dto_publish_request \<Rightarrow> json \<Rightarrow> bool" where
  "requested_payload b64 sd body v =
     (case (jpq_payload body, jpq_payload_base64 body) of
        (None, None) \<Rightarrow> v = json_empty_object
      | (Some w, None) \<Rightarrow>
          (case sd_to_vec sd w of Ok bs \<Rightarrow> parse_payload sd bs = Ok v | Err _ \<Rightarrow> False)
      | (None, Some t) \<Rightarrow>
          (case b64_decode b64 t of Ok bs \<Rightarrow> parse_payload sd bs = Ok v | Err _ \<Rightarrow> False)
      | (Some _, Some _) \<Rightarrow> False)"

lemma publish_into_proto_payload:
  "publish_into_proto b64 sd body = Ok req \<Longrightarrow> parse_payload sd (pq_payload req) = Ok v \<Longrightarrow> requested_payload b64 sd body v"
  by (auto simp: publish_into_proto_def payload_from_request_parts_def payload_bytes_def parse_payload_def
      requested_payload_def split: option.splits sum.splits if_splits)

lemma rest_publish_law:
  assumes "pg_outbox_ok d"
    and run: "rest_publish b64 ul sd (with_kafka ul acquire events kafka) body rt d = (Ok resp, rt', d')"
  shows "pg_outbox_ok d' \<and> (\<exists>m. pg_ledger d' = (pg_ledger d)(om_id m \<mapsto> entry_of m) \<and> om_id m \<notin> dom (pg_ledger d) \<and>
           requested_payload b64 sd body (om_payload m) \<and>
           om_topic m = unwrap_or (jpq_topic body) [] \<and> om_event_type m = unwrap_or (jpq_event_type body) [] \<and>
           om_partition_key m = (if unwrap_or (jpq_partition_key body) [] = [] then None else jpq_partition_key body) \<and>
           om_status m = Pending \<and> om_retry_count m = 0 \<and>
           jpr_message_id resp = ul_show ul (om_id m) \<and> jpr_status resp = ''pending'' \<and> jpr_error resp = [] \<and>
           (\<forall>i. jpq_message_id body = Some i \<longrightarrow> i \<noteq> [] \<longrightarrow> ul_parse ul i = Ok (om_id m)))"
proof -
  from run obtain req where req: "publish_into_proto b64 sd body = Ok req"
    by (cases "publish_into_proto b64 sd body") (auto simp: rest_publish_def)
  from run req obtain presp where p: "process_publish ul sd pg_outbox_repository req rt d = (Ok presp, rt', d')"
    and resp: "resp = dto_publish_response_from presp"
    by (cases "process_publish ul sd pg_outbox_repository req rt d")
       (auto simp: rest_publish_def publish_inner_def)
  from pg.process_publish_law [OF assms(1) p] have ok': "pg_outbox_ok d'" by simp
  from pg.process_publish_law [OF assms(1) p] obtain m where m: "built_from ul sd (publish_input req) m"
    "om_id m \<notin> dom (pg_ledger d)" "pg_ledger d' = (pg_ledger d)(om_id m \<mapsto> entry_of m)"
    and ans: "pr_message_id presp = ul_show ul (om_id m)" "pr_error presp = []" by auto
  have status: "pr_status presp = message_status_i32 MSG_Pending"
    using p by (auto simp: process_publish_def accepted_response_def split: prod.splits sum.splits)
  from m(1) have payload: "requested_payload b64 sd body (om_payload m)"
    by (intro publish_into_proto_payload [OF req]) (simp add: built_from_def publish_input_def)
  have fields: "pq_topic req = unwrap_or (jpq_topic body) []" "pq_event_type req = unwrap_or (jpq_event_type body) []"
    "pq_partition_key req = unwrap_or (jpq_partition_key body) []" "pq_message_id req = unwrap_or (jpq_message_id body) []"
    using req by (auto simp: publish_into_proto_def split: sum.splits)
  have "jpr_status resp = ''pending''"
    by (simp add: resp dto_publish_response_from_def status message_status_to_str_def message_status_try_from_def variant_of_def)
  with ok' m ans payload fields show ?thesis
    by (intro conjI exI [of _ m]) (auto simp: built_from_def publish_input_def resp dto_publish_response_from_def
      unwrap_or_def split: option.splits)
qed

text \<open>C24: Publishing over REST. When the answer is 200, exactly one message is new in the outbox: it
  carries what the request's payload reads back as once printed or, for a raw payload, what the decoded bytes
  read as, and an empty object when the request has none; a request with both forms is never answered with
  200. It carries the request's topic, key and event type, missing ones as empty, and it is pending under the
  identifier in the answer, which is the requested one when the request names one.\<close>

theorem rest_publish_stores_payload:
  assumes "pg_outbox_ok d"
    and run: "rest_publish b64 ul sd (with_kafka ul acquire events kafka) body rt d = (Ok resp, rt', d')"
  shows "\<exists>m. pg_ledger d' = (pg_ledger d)(om_id m \<mapsto> entry_of m) \<and> om_id m \<notin> dom (pg_ledger d) \<and>
           requested_payload b64 sd body (om_payload m) \<and>
           om_topic m = unwrap_or (jpq_topic body) [] \<and> om_event_type m = unwrap_or (jpq_event_type body) [] \<and>
           om_partition_key m = (if unwrap_or (jpq_partition_key body) [] = [] then None else jpq_partition_key body) \<and>
           om_status m = Pending \<and> om_retry_count m = 0 \<and>
           jpr_message_id resp = ul_show ul (om_id m) \<and> jpr_status resp = ''pending'' \<and> jpr_error resp = [] \<and>
           (\<forall>i. jpq_message_id body = Some i \<longrightarrow> i \<noteq> [] \<longrightarrow> ul_parse ul i = Ok (om_id m))"
  using rest_publish_law [OF assms] by blast

theorem rest_publish_stores_payload_witness:
  "case rest_publish char_base64 decimal_uuids tagged_serde sample_service (sample_rest_publish (Some JNull) None)
          counting_runtime (sample_db []) of
     (r, rt', d') \<Rightarrow> (\<exists>m. pg_ledger d' = (pg_ledger (sample_db []))(7 \<mapsto> entry_of m) \<and> om_payload m = JNull)"
proof -
  let ?body = "sample_rest_publish (Some JNull) None"
  have ok: "pg_outbox_ok (sample_db [])" by (simp add: sample_outbox_ok)
  obtain r rt' d' where run: "rest_publish char_base64 decimal_uuids tagged_serde sample_service ?body
      counting_runtime (sample_db []) = (r, rt', d')" by (metis prod_cases3)
  have "is_ok (fst (rest_publish char_base64 decimal_uuids tagged_serde sample_service ?body
      counting_runtime (sample_db [])))"
    by (simp add: rest_publish_def publish_into_proto_def sample_rest_publish_def payload_from_request_parts_def payload_bytes_def
      publish_inner_def sample_service_def process_publish_def publish_input_def accepted_response_def tagged_serde_def
      decimal_eval accept_eval row_eval outbox_eval)
  with run obtain resp where resp: "r = Ok resp" by (cases r) auto
  from rest_publish_stores_payload [OF ok, OF run [unfolded sample_service_def resp]]
  obtain m where m: "pg_ledger d' = (pg_ledger (sample_db []))(om_id m \<mapsto> entry_of m)"
    "requested_payload char_base64 tagged_serde ?body (om_payload m)"
    "\<forall>i. jpq_message_id ?body = Some i \<longrightarrow> i \<noteq> [] \<longrightarrow> ul_parse decimal_uuids i = Ok (om_id m)" by blast
  then have "om_payload m = JNull" and "ul_parse decimal_uuids ''7'' = Ok (om_id m)"
    by (simp_all add: sample_rest_publish_def requested_payload_def tagged_serde_def parse_payload_def)
  moreover
  have "ul_parse decimal_uuids ''7'' = Ok 7" by (rule decimal_eval)
  ultimately show ?thesis using m(1) run by (auto simp del: fun_upd_apply)
qed

section \<open>Patching a subscriber\<close>

lemma update_subscriber_codes:
  assumes "update_subscriber_inner ul svc req s = (Err st, s')"
  shows "if is_ok (ul_parse ul (aq_subscriber_id req)) then gs_code st \<in> {NotFound, Internal} else gs_code st = InvalidArgument"
  using assms by (auto simp: update_subscriber_inner_def parse_id_def split: sum.splits prod.splits)

text \<open>C28: \<open>PATCH /subscribers/:id\<close>, from the request's fields to the stored subscription, whatever the database
  does. With 200 the subscription named by the path is there and takes over the endpoint and the patterns of the
  body where they are given and not empty, and the active flag of the body, or active when the body has none
  (so that patching an inactive subscriber with anything else activates it); its name and configuration stay,
  and no other subscription changes. A malformed identifier, and nothing else, is answered with 400. No
  other answer than 200 changes any subscription, but for 500, where that same update may have been made.\<close>

theorem rest_patch_subscriber:
  assumes "pg_subscribers_ok d"
    and "rest_serve b64 ul sd (with_kafka ul acquire events kafka) (Call_Update_Subscriber path body) rt d =
           ((code, answer), rt', d')"
  shows "let patched = (\<lambda>i n. (pg_subscriptions d)(i \<mapsto> n
               \<lparr>sn_endpoint := (case juq_grpc_endpoint body of Some (c # cs) \<Rightarrow> c # cs | _ \<Rightarrow> sn_endpoint n),
                sn_patterns := (case juq_topic_patterns body of Some (p # ps) \<Rightarrow> p # ps | _ \<Rightarrow> sn_patterns n),
                sn_active := (case juq_active body of Some a \<Rightarrow> a | None \<Rightarrow> True)\<rparr>));
             done_on = (\<lambda>i n. ul_parse ul path = Ok i \<and> pg_subscriptions d i = Some n \<and> pg_subscriptions d' = patched i n)
         in pg_subscribers_ok d' \<and> code \<in> {200, 400, 404, 500} \<and> (code = 400 \<longleftrightarrow> \<not> is_ok (ul_parse ul path)) \<and>
            (code = 200 \<longrightarrow> (\<exists>i n. done_on i n)) \<and>
            (code \<noteq> 200 \<longrightarrow> pg_subscriptions d' = pg_subscriptions d \<or> code = 500 \<and> (\<exists>i n. done_on i n))"
proof -
  let ?svc = "with_kafka ul acquire events kafka" and ?req = "update_into_proto path body"
  obtain r s' where run: "update_subscriber_inner ul ?svc ?req d = (r, s')" by fastforce
  have merged: "merged_subscription ?req n = n
      \<lparr>sn_endpoint := (case juq_grpc_endpoint body of Some (c # cs) \<Rightarrow> c # cs | _ \<Rightarrow> sn_endpoint n),
       sn_patterns := (case juq_topic_patterns body of Some (p # ps) \<Rightarrow> p # ps | _ \<Rightarrow> sn_patterns n),
       sn_active := (case juq_active body of Some a \<Rightarrow> a | None \<Rightarrow> True)\<rparr>" for n
    by (simp add: merged_subscription_def update_into_proto_def unwrap_or_def split: option.split list.split)
  have id: "aq_subscriber_id ?req = path" by (simp add: update_into_proto_def)
  have law: "pg_subscribers_ok s' \<and>
      (\<forall>resp. r = Ok resp \<longrightarrow> (\<exists>i n. ul_parse ul path = Ok i \<and> pg_subscriptions d i = Some n \<and>
         pg_subscriptions s' = (pg_subscriptions d)(i \<mapsto> merged_subscription ?req n))) \<and>
      (\<forall>st. r = Err st \<longrightarrow> pg_subscriptions s' = pg_subscriptions d \<or> gs_code st = Internal \<and>
         (\<exists>i n. ul_parse ul path = Ok i \<and> pg_subscriptions d i = Some n \<and>
            pg_subscriptions s' = (pg_subscriptions d)(i \<mapsto> merged_subscription ?req n)))"
    using pg_sub.update_subscriber_law [OF assms(1) _ run] by (simp add: id)
  from assms(2) run have served: "((code, answer), rt', d') = (respond 200 Body_Mutation (map_ok dto_updated_from r), rt, s')"
    by (simp add: rest_update_subscriber_def)
  show ?thesis
  proof (cases r)
    case (Inl st)
    from update_subscriber_codes [OF run [unfolded Inl]] id served Inl law show ?thesis
      unfolding Let_def merged [symmetric]
      by (cases "is_ok (ul_parse ul path)") (auto simp: respond_def status_response_def status_to_http_def simp del: fun_upd_apply)
  next
    case (Inr resp)
    with law served show ?thesis unfolding Let_def merged [symmetric]
      by (auto simp: respond_def simp del: fun_upd_apply)
  qed
qed

text \<open>An inactive subscriber is given another endpoint, and is active again.\<close>

definition sample_patch :: "string option \<Rightarrow> bool option \<Rightarrow> dto_update_subscriber_request" where
  "sample_patch e a =
     \<lparr>juq_grpc_endpoint = e, juq_topic_patterns = None, juq_active = a, juq_delivery_config = None, juq_metadata = None\<rparr>"

theorem rest_patch_subscriber_witness:
  "let d = snd (snd sample_register);
       d1 = snd (snd (rest_serve char_base64 decimal_uuids tagged_serde sample_service
              (Call_Update_Subscriber ''1'' (sample_patch None (Some False))) counting_runtime d));
       d2 = snd (snd (rest_serve char_base64 decimal_uuids tagged_serde sample_service
              (Call_Update_Subscriber ''1'' (sample_patch (Some ''b'') None)) counting_runtime d1))
   in map_option sn_active (pg_subscriptions d1 1) = Some False \<and>
      map_option sn_active (pg_subscriptions d2 1) = Some True \<and> map_option sn_endpoint (pg_subscriptions d2 1) = Some ''b''"
proof -
  let ?patch = "\<lambda>e a d. rest_serve char_base64 decimal_uuids tagged_serde sample_service
      (Call_Update_Subscriber ''1'' (sample_patch e a)) counting_runtime d"
  let ?d = "snd (snd sample_register)"
  let ?d1 = "snd (snd (?patch None (Some False) ?d))"
  let ?d2 = "snd (snd (?patch (Some ''b'') None ?d1))"
  have ok: "pg_subscribers_ok ?d" by (simp add: pg_subscribers_ok_def table_ok_def register_eval)
  have codes: "fst (fst (?patch None (Some False) ?d)) = 200" "fst (fst (?patch (Some ''b'') None ?d1)) = 200" by code_simp+
  have parse: "ul_parse decimal_uuids ''1'' = Ok 1" by (rule decimal_eval)
  obtain c a rt where run1: "?patch None (Some False) ?d = ((c, a), rt, ?d1)" by (metis prod.collapse)
  note one = rest_patch_subscriber [OF ok run1 [unfolded sample_service_def]]
  obtain c' a' rt' where run2: "?patch (Some ''b'') None ?d1 = ((c', a'), rt', ?d2)" by (metis prod.collapse)
  from one have ok1: "pg_subscribers_ok ?d1" by (simp add: Let_def sample_service_def)
  note two = rest_patch_subscriber [OF ok1 [unfolded sample_service_def] run2 [unfolded sample_service_def]]
  from codes run1 run2 have "c = 200" "c' = 200" by simp_all
  with one two parse show ?thesis by (auto simp: Let_def sample_patch_def sample_service_def)
qed

section \<open>The event stream\<close>

record sse_query =
  sq_subscriber_id :: string
  sq_patterns :: "string option"
  sq_position :: "string option"

definition pattern_list :: "sse_query \<Rightarrow> string list" where
  "pattern_list q = filter (\<lambda>s. s \<noteq> []) (map trim (split_on (CHR '','') (unwrap_or (sq_patterns q) [])))"

datatype sse_event = Sse_Deliver string | Sse_Lagged string

text \<open>The body of the stream's closure; \<open>print_event\<close> is \<open>serde_json::to_string\<close> on the DTO.\<close>

fun sse_item ::
  "(dto_deliver_event \<Rightarrow> string + string) \<Rightarrow> base64 \<Rightarrow> serde \<Rightarrow> string list \<Rightarrow> broadcast_item \<Rightarrow> sse_event option" where
  "sse_item print_event b64 sd patterns (Received ev) =
     (if matches_any (de_topic ev) patterns
      then case print_event (dto_deliver_event_from b64 sd ev) of
             Ok json \<Rightarrow> Some (Sse_Deliver json)
           | Err _ \<Rightarrow> None
      else None)"
| "sse_item print_event b64 sd patterns (Lagged skipped) =
     Some (Sse_Lagged (''{\"missed\": '' @ show_u skipped @ ''}''))"

definition events_stream ::
  "(dto_deliver_event \<Rightarrow> string + string) \<Rightarrow> base64 \<Rightarrow> serde \<Rightarrow> 's rs_broker_service \<Rightarrow> sse_query
     \<Rightarrow> grpc_status + sse_event list" where
  "events_stream print_event b64 sd svc query =
     map_ok (List.map_filter (sse_item print_event b64 sd (pattern_list query)))
       (subscribe_events_inner svc (sq_subscriber_id query))"

text \<open>The comma-separated text of patterns that hold no comma and no outer white space.\<close>

definition plain_pattern :: "string \<Rightarrow> bool" where
  "plain_pattern p \<longleftrightarrow> p \<noteq> [] \<and> CHR '','' \<notin> set p \<and> trim p = p"

fun comma_join :: "string list \<Rightarrow> string" where
  "comma_join [] = []"
| "comma_join [p] = p"
| "comma_join (p # q # ps) = p @ CHR '','' # comma_join (q # ps)"

lemma split_comma_join: "list_all plain_pattern ps \<Longrightarrow> ps \<noteq> [] \<Longrightarrow> split_on (CHR '','') (comma_join ps) = ps"
  by (induction ps rule: comma_join.induct) (simp_all add: plain_pattern_def split_on_id split_on_append)

lemma pattern_list_join:
  assumes "list_all plain_pattern ps" and "sq_patterns q = Some (comma_join ps)"
  shows "pattern_list q = ps"
proof (cases "ps = []")
  case True
  with assms show ?thesis by (simp add: pattern_list_def)
next
  case False
  from assms(1) have "map trim ps = ps" "filter (\<lambda>s. s \<noteq> []) ps = ps"
    by (auto simp: list_all_iff plain_pattern_def intro: map_idI filter_True)
  with split_comma_join [OF assms(1) False] assms(2) show ?thesis by (simp add: pattern_list_def)
qed

definition delivered_text :: "sse_event \<Rightarrow> string option" where
  "delivered_text ev = (case ev of Sse_Deliver t \<Rightarrow> Some t | Sse_Lagged _ \<Rightarrow> None)"

text \<open>C34: The two event transports agree. For the same subscriber and the same patterns, the
  \<open>deliver\<close> events of the SSE stream are the events of the gRPC stream, in the same order, each in its
  printed form; both refuse an empty subscriber identifier and nothing else.\<close>

theorem sse_grpc_agree:
  assumes "list_all plain_pattern ps" and "sq_patterns q = Some (comma_join ps)"
    and "eq_topic_patterns req = ps" and "eq_subscriber_id req = sq_subscriber_id q"
    and printing: "\<And>e. print_event e = Ok (text_of e)"
  shows "map_ok (List.map_filter delivered_text) (events_stream print_event engine sd svc q) =
           map_ok (map (\<lambda>ev. text_of (dto_deliver_event_from engine sd ev))) (subscribe_events svc req) \<and>
         is_ok (subscribe_events svc req) = (sq_subscriber_id q \<noteq> [])"
proof -
  have "List.map_filter delivered_text (List.map_filter (sse_item print_event engine sd ps) items) =
      map (\<lambda>ev. text_of (dto_deliver_event_from engine sd ev)) (List.map_filter (event_for ps) items)" for items
  proof (induction items)
    case (Cons it items)
    then show ?case by (cases it) (simp_all add: map_filter_simps printing delivered_text_def)
  qed (simp add: map_filter_simps)
  with assms pattern_list_join [OF assms(1,2)] show ?thesis
    by (simp add: events_stream_def subscribe_events_def subscribe_events_inner_def)
qed

theorem sse_grpc_agree_witness:
  "let ev = \<lparr>de_message_id = ''m'', de_topic = ''orders.new'', de_partition = 0, de_offset = 0, de_key = [],
             de_payload = [], de_headers = [], de_timestamp = 0, de_event_type = []\<rparr>;
       svc = sample_service\<lparr>bs_events := [Lagged 3, Received ev, Received (ev\<lparr>de_topic := ''users''\<rparr>)]\<rparr>
   in map_ok (List.map_filter delivered_text) (events_stream (\<lambda>e. Ok (jde_topic e)) char_base64 tagged_serde svc
        \<lparr>sq_subscriber_id = ''s'', sq_patterns = Some ''orders.*,x'', sq_position = None\<rparr>) = Ok [''orders.new'']"
proof -
  let ?ev = "\<lparr>de_message_id = ''m'', de_topic = ''orders.new'', de_partition = 0, de_offset = 0, de_key = [],
      de_payload = [], de_headers = [], de_timestamp = 0, de_event_type = []\<rparr>"
  let ?svc = "sample_service\<lparr>bs_events := [Lagged 3, Received ?ev, Received (?ev\<lparr>de_topic := ''users''\<rparr>)]\<rparr>"
  let ?q = "\<lparr>sq_subscriber_id = ''s'', sq_patterns = Some ''orders.*,x'', sq_position = None\<rparr>"
  let ?req = "\<lparr>eq_subscriber_id = ''s'', eq_topic_patterns = [''orders.*'', ''x''], eq_position = 0, eq_metadata = None\<rparr>"
  have plain: "list_all plain_pattern [''orders.*'', ''x'']" by code_simp
  have agree: "map_ok (List.map_filter delivered_text) (events_stream (\<lambda>e. Ok (jde_topic e)) char_base64 tagged_serde ?svc ?q) =
      map_ok (map (\<lambda>ev. jde_topic (dto_deliver_event_from char_base64 tagged_serde ev))) (subscribe_events ?svc ?req)"
    using sse_grpc_agree [where ps = "[''orders.*'', ''x'']" and q = ?q and req = ?req and svc = ?svc
        and engine = char_base64 and sd = tagged_serde and print_event = "\<lambda>e. Ok (jde_topic e)" and text_of = jde_topic, OF plain]
    by simp
  have "map_ok (map (\<lambda>ev. jde_topic (dto_deliver_event_from char_base64 tagged_serde ev))) (subscribe_events ?svc ?req) =
      Ok [''orders.new'']" by code_simp
  then show ?thesis unfolding Let_def by (rule trans [OF agree])
qed

end
