(* ===== verification/Grpc.thy ===== *)
theory Grpc
  imports Rest_Routes
begin

text \<open>
  The gRPC trait on the service (\<open>impl RsBroker for RsBrokerService\<close> in
  \<open>rs-broker-server/src/grpc/service.rs\<close>): the unary methods, which unwrap the request and call the
  bodies of theory Service, and the service of the build without a database. The last section
  gives the gRPC request that a REST call amounts to.
\<close>

section \<open>The unary methods\<close>

datatype grpc_request =
    Req_Publish pb_publish_request
  | Req_Publish_Batch pb_publish_batch_request
  | Req_Get_Message_Status pb_get_message_status_request
  | Req_Cancel_Message pb_cancel_message_request
  | Req_Register_Subscriber pb_register_subscriber_request
  | Req_Unregister_Subscriber pb_unregister_subscriber_request
  | Req_Update_Subscriber pb_update_subscriber_request
  | Req_List_Subscribers pb_list_subscribers_request
  | Req_Get_Health pb_health_request
  | Req_Reprocess_Dlq pb_reprocess_dlq_request
  | Req_List_Dlq_Messages pb_list_dlq_messages_request

datatype grpc_reply =
    Rep_Publish pb_publish_response
  | Rep_Publish_Batch pb_publish_batch_response
  | Rep_Get_Message_Status pb_get_message_status_response
  | Rep_Cancel_Message pb_cancel_message_response
  | Rep_Register_Subscriber pb_register_subscriber_response
  | Rep_Unregister_Subscriber pb_unregister_subscriber_response
  | Rep_Update_Subscriber pb_update_subscriber_response
  | Rep_List_Subscribers pb_list_subscribers_response
  | Rep_Get_Health pb_health_response
  | Rep_Reprocess_Dlq pb_reprocess_dlq_response
  | Rep_List_Dlq_Messages pb_list_dlq_messages_response

fun grpc_serve ::
  "uuid_lib \<Rightarrow> serde \<Rightarrow> 's rs_broker_service \<Rightarrow> grpc_request \<Rightarrow> runtime \<Rightarrow> 's
     \<Rightarrow> (grpc_status + grpc_reply) \<times> runtime \<times> 's" where
  "grpc_serve ul sd svc (Req_Publish req) rt s =
     apfst (map_ok Rep_Publish) (publish_inner ul sd svc req rt s)"
| "grpc_serve ul sd svc (Req_Publish_Batch req) rt s =
     apfst (map_ok Rep_Publish_Batch) (publish_batch_inner ul sd svc req rt s)"
| "grpc_serve ul sd svc (Req_Get_Message_Status req) rt s =
     apsnd (Pair rt) (apfst (map_ok Rep_Get_Message_Status) (get_message_status_inner ul svc req s))"
| "grpc_serve ul sd svc (Req_Cancel_Message req) rt s =
     apsnd (Pair rt) (apfst (map_ok Rep_Cancel_Message) (cancel_message_inner ul svc req s))"
| "grpc_serve ul sd svc (Req_Register_Subscriber req) rt s =
     apfst (map_ok Rep_Register_Subscriber) (register_subscriber_inner ul svc req rt s)"
| "grpc_serve ul sd svc (Req_Unregister_Subscriber req) rt s =
     apsnd (Pair rt) (apfst (map_ok Rep_Unregister_Subscriber) (unregister_subscriber_inner ul svc req s))"
| "grpc_serve ul sd svc (Req_Update_Subscriber req) rt s =
     apsnd (Pair rt) (apfst (map_ok Rep_Update_Subscriber) (update_subscriber_inner ul svc req s))"
| "grpc_serve ul sd svc (Req_List_Subscribers req) rt s =
     apsnd (Pair rt) (apfst (map_ok Rep_List_Subscribers) (list_subscribers_inner ul svc req s))"
| "grpc_serve ul sd svc (Req_Get_Health req) rt s =
     apsnd (Pair rt) (apfst (map_ok Rep_Get_Health) (get_health_inner svc req s))"
| "grpc_serve ul sd svc (Req_Reprocess_Dlq req) rt s =
     apfst (map_ok Rep_Reprocess_Dlq) (reprocess_dlq_inner ul svc req rt s)"
| "grpc_serve ul sd svc (Req_List_Dlq_Messages req) rt s =
     apsnd (Pair rt) (apfst (map_ok Rep_List_Dlq_Messages) (list_dlq_messages_inner ul svc req s))"

fun rpc_of :: "grpc_request \<Rightarrow> rpc" where
  "rpc_of (Req_Publish _) = RPC_Publish"
| "rpc_of (Req_Publish_Batch _) = RPC_PublishBatch"
| "rpc_of (Req_Get_Message_Status _) = RPC_GetMessageStatus"
| "rpc_of (Req_Cancel_Message _) = RPC_CancelMessage"
| "rpc_of (Req_Register_Subscriber _) = RPC_RegisterSubscriber"
| "rpc_of (Req_Unregister_Subscriber _) = RPC_UnregisterSubscriber"
| "rpc_of (Req_Update_Subscriber _) = RPC_UpdateSubscriber"
| "rpc_of (Req_List_Subscribers _) = RPC_ListSubscribers"
| "rpc_of (Req_Get_Health _) = RPC_GetHealth"
| "rpc_of (Req_Reprocess_Dlq _) = RPC_ReprocessDlq"
| "rpc_of (Req_List_Dlq_Messages _) = RPC_ListDlqMessages"

section \<open>The build without a database\<close>

record stub_service =
  st_kafka_connected :: bool

definition stub_service_new :: stub_service where
  "stub_service_new = \<lparr>st_kafka_connected = False\<rparr>"

definition stub_unimplemented :: "grpc_status + 'a" where
  "stub_unimplemented = Err \<lparr>gs_code = Unimplemented, gs_message = ''Database features disabled''\<rparr>"

definition stub_get_health_inner :: "stub_service \<Rightarrow> pb_health_request \<Rightarrow> grpc_status + pb_health_response" where
  "stub_get_health_inner svc req =
     (let components = [\<lparr>ch_name = ''database'', ch_status = health_status_i32 HS_Unhealthy,
                         ch_message = ''Database features disabled''\<rparr>];
          metrics = \<lparr>bm_outbox_pending = 0, bm_inbox_pending = 0, bm_published_today = 0,
                     bm_processed_today = 0, bm_dlq_count = 0, bm_active_subscribers = 0,
                     bm_kafka_connected = st_kafka_connected svc, bm_database_connected = False\<rparr>
      in Ok \<lparr>hr_status = health_status_i32 HS_Healthy, hr_components = components, hr_metrics = Some metrics\<rparr>)"

fun stub_serve :: "stub_service \<Rightarrow> grpc_request \<Rightarrow> grpc_status + grpc_reply" where
  "stub_serve svc (Req_Get_Health req) = map_ok Rep_Get_Health (stub_get_health_inner svc req)"
| "stub_serve svc (Req_Publish _) = stub_unimplemented"
| "stub_serve svc (Req_Publish_Batch _) = stub_unimplemented"
| "stub_serve svc (Req_Get_Message_Status _) = stub_unimplemented"
| "stub_serve svc (Req_Cancel_Message _) = stub_unimplemented"
| "stub_serve svc (Req_Register_Subscriber _) = stub_unimplemented"
| "stub_serve svc (Req_Unregister_Subscriber _) = stub_unimplemented"
| "stub_serve svc (Req_Update_Subscriber _) = stub_unimplemented"
| "stub_serve svc (Req_List_Subscribers _) = stub_unimplemented"
| "stub_serve svc (Req_Reprocess_Dlq _) = stub_unimplemented"
| "stub_serve svc (Req_List_Dlq_Messages _) = stub_unimplemented"

definition stub_subscribe_events :: "stub_service \<Rightarrow> pb_subscribe_events_request \<Rightarrow> grpc_status + pb_deliver_event list" where
  "stub_subscribe_events svc req = stub_unimplemented"

text \<open>The publishing stream answers nothing at all, not even an error.\<close>

definition stub_stream_publish ::
  "stub_service \<Rightarrow> (grpc_status + pb_publish_request) list \<Rightarrow> grpc_status + pb_publish_response list" where
  "stub_stream_publish svc items = Ok []"

lemma stub_answers: "is_ok (stub_serve svc req) \<longleftrightarrow> rpc_of req = RPC_GetHealth"
  by (cases req) (simp_all add: stub_unimplemented_def stub_get_health_inner_def)

section \<open>REST in terms of gRPC\<close>

text \<open>The gRPC request a REST call stands for, or the text of its refusal, and the REST form of a reply.\<close>

fun to_grpc :: "base64 \<Rightarrow> serde \<Rightarrow> rest_call \<Rightarrow> string + grpc_request" where
  "to_grpc b64 sd (Call_Publish body) = map_ok Req_Publish (publish_into_proto b64 sd body)"
| "to_grpc b64 sd (Call_Publish_Batch body) =
     map_ok (\<lambda>reqs. Req_Publish_Batch
         \<lparr>bq_messages = reqs, bq_metadata = map_option dto_request_metadata_into (jbq_metadata body)\<rparr>)
       (batch_into_proto b64 sd (jbq_messages body))"
| "to_grpc b64 sd (Call_Get_Message_Status i) =
     Ok (Req_Get_Message_Status \<lparr>gq_message_id = i, gq_metadata = None\<rparr>)"
| "to_grpc b64 sd (Call_Cancel_Message i) = Ok (Req_Cancel_Message \<lparr>cq_message_id = i, cq_metadata = None\<rparr>)"
| "to_grpc b64 sd (Call_Register_Subscriber body) =
     Ok (Req_Register_Subscriber
       \<lparr>rgq_subscriber_id = [], rgq_service_name = jrq_service_name body,
        rgq_grpc_endpoint = jrq_grpc_endpoint body, rgq_topic_patterns = jrq_topic_patterns body,
        rgq_delivery_config = map_option dto_delivery_config_into (jrq_delivery_config body),
        rgq_metadata = map_option dto_request_metadata_into (jrq_metadata body)\<rparr>)"
| "to_grpc b64 sd (Call_List_Subscribers query) =
     Ok (Req_List_Subscribers
       \<lparr>lq_topic_filter = unwrap_or (jls_topic_filter query) [],
        lq_active_only = unwrap_or (jls_active_only query) False, lq_metadata = None\<rparr>)"
| "to_grpc b64 sd (Call_Update_Subscriber i body) = Ok (Req_Update_Subscriber (update_into_proto i body))"
| "to_grpc b64 sd (Call_Unregister_Subscriber i) =
     Ok (Req_Unregister_Subscriber \<lparr>uq_subscriber_id = i, uq_metadata = None\<rparr>)"
| "to_grpc b64 sd Call_Get_Health = Ok (Req_Get_Health \<lparr>hq_include_metrics = True\<rparr>)"
| "to_grpc b64 sd (Call_Reprocess_Dlq body) = Ok (Req_Reprocess_Dlq (reprocess_into_proto body))"
| "to_grpc b64 sd (Call_List_Dlq_Messages query) =
     Ok (Req_List_Dlq_Messages
       \<lparr>mq_topic = unwrap_or (jlq_topic query) [], mq_limit = unwrap_or (jlq_limit query) 50,
        mq_offset = unwrap_or (jlq_offset query) 0, mq_metadata = None\<rparr>)"

fun to_rest :: "grpc_reply \<Rightarrow> rest_body" where
  "to_rest (Rep_Publish r) = Body_Publish (dto_publish_response_from r)"
| "to_rest (Rep_Publish_Batch r) = Body_Publish_Batch (dto_publish_batch_response_from r)"
| "to_rest (Rep_Get_Message_Status r) = Body_Message_Status (dto_get_message_status_response_from r)"
| "to_rest (Rep_Cancel_Message r) = Body_Cancel (dto_cancel_message_response_from r)"
| "to_rest (Rep_Register_Subscriber r) = Body_Mutation (dto_registered_from r)"
| "to_rest (Rep_Unregister_Subscriber r) = Body_Mutation (dto_unregistered_from r)"
| "to_rest (Rep_Update_Subscriber r) = Body_Mutation (dto_updated_from r)"
| "to_rest (Rep_List_Subscribers r) = Body_Subscribers (dto_list_subscribers_response_from r)"
| "to_rest (Rep_Get_Health r) = Body_Health (dto_health_response_from r)"
| "to_rest (Rep_Reprocess_Dlq r) = Body_Reprocess (dto_reprocess_dlq_response_from r)"
| "to_rest (Rep_List_Dlq_Messages r) = Body_Dlq_Messages (dto_list_dlq_messages_response_from r)"

definition success_code :: "rest_call \<Rightarrow> nat" where
  "success_code call = (case call of Call_Register_Subscriber _ \<Rightarrow> 201 | _ \<Rightarrow> 200)"

lemma respond_map [simp]: "respond n f (map_ok g r) = respond n (f \<circ> g) r"
  by (cases r) (simp_all add: respond_def)

lemma respond_respond:
  "respond n f \<circ> map_ok g = respond n (f \<circ> g)"
  by (simp add: fun_eq_iff)

lemma rest_serve_by_grpc:
  "rest_serve b64 ul sd svc call rt s =
     (case to_grpc b64 sd call of
        Err msg \<Rightarrow> (status_response (invalid_argument msg), rt, s)
      | Ok req \<Rightarrow> apfst (respond (success_code call) to_rest) (grpc_serve ul sd svc req rt s))"
proof (cases call)
  case (Call_Publish body)
  then show ?thesis
    by (cases "publish_into_proto b64 sd body")
       (simp_all add: rest_publish_def success_code_def respond_respond prod.map_comp apfst_def o_def respond_def [of _ _ "Err _"])
next
  case (Call_Publish_Batch body)
  then show ?thesis
    by (cases "batch_into_proto b64 sd (jbq_messages body)")
       (simp_all add: rest_publish_batch_def success_code_def prod.map_comp apfst_def o_def respond_def [of _ _ "Err _"])
qed (simp_all add: success_code_def rest_get_message_status_def rest_cancel_message_def rest_register_subscriber_def
    rest_list_subscribers_def rest_update_subscriber_def rest_unregister_subscriber_def rest_get_health_def
    rest_reprocess_dlq_def rest_list_dlq_messages_def prod.map_comp apfst_def apsnd_def o_def)

end
