(* ===== verification/Kafka.thy ===== *)
theory Kafka
  imports Config Outbox_System
begin

text \<open>
  The Kafka adapters (\<open>rs-broker-kafka\<close>): the client settings, the error type, message headers, the
  producer with its mapping of driver errors, the message sink over it, and the messages the
  consumer forwards. The driver (\<open>rdkafka\<close>) is a parameter: \<open>kd_send\<close> queues a record, over its own
  state \<open>'k\<close>. The section on the full queue composes the sink with the publishing round.
\<close>

section \<open>Client settings\<close>

text \<open>A \<open>ClientConfig\<close> is the list of its settings.\<close>

type_synonym client_config = "(string \<times> string) list"

definition create_producer_config :: "kafka_config \<Rightarrow> client_config" where
  "create_producer_config config =
     [(''bootstrap.servers'', kc_bootstrap_servers config),
      (''client.id'', kc_client_id config),
      (''acks'', show_i (pc_acks (kc_producer config))),
      (''linger.ms'', show_i (pc_linger_ms (kc_producer config))),
      (''batch.size'', show_u (pc_batch_size (kc_producer config))),
      (''request.timeout.ms'', show_i (pc_request_timeout_ms (kc_producer config))),
      (''message.timeout.ms'', show_i (pc_message_timeout_ms (kc_producer config))),
      (''enable.idempotence'', show_bool (pc_enable_idempotence (kc_producer config))),
      (''compression.type'', pc_compression_type (kc_producer config))]"

definition create_consumer_config :: "kafka_config \<Rightarrow> client_config" where
  "create_consumer_config config =
     [(''bootstrap.servers'', kc_bootstrap_servers config),
      (''client.id'', kc_client_id config),
      (''group.id'', cc_group_id (kc_consumer config)),
      (''auto.offset.reset'', cc_auto_offset_reset (kc_consumer config)),
      (''enable.auto.commit'', show_bool (cc_enable_auto_commit (kc_consumer config))),
      (''session.timeout.ms'', show_i (cc_session_timeout_ms (kc_consumer config)))]"

text \<open>The security protocol and the SASL settings never reach the driver.\<close>

lemma security_settings_unused:
  "map_of (create_producer_config config) k = None \<and> map_of (create_consumer_config config) k = None"
  if "k \<in> {''security.protocol'', ''sasl.mechanism'', ''sasl.username'', ''sasl.password''}"
  using that by (elim insertE emptyE) (simp_all add: create_producer_config_def create_consumer_config_def)

section \<open>Errors\<close>

text \<open>The two kinds of \<open>rdkafka::error::KafkaError\<close> the code tells apart.\<close>

datatype rd_code = QueueFull | Other_Code string
datatype rd_error = MessageProduction rd_code | Other_Rd_Error string

datatype kafka_error =
    KE_RdKafka rd_error
  | KE_Serialization string
  | KE_Producer string
  | KE_Producer_Queue_Full string
  | KE_Consumer string
  | KE_Timeout

fun kafka_error_to_string :: "(rd_error \<Rightarrow> string) \<Rightarrow> kafka_error \<Rightarrow> string" where
  "kafka_error_to_string show_rd (KE_RdKafka e) = ''Kafka error: '' @ show_rd e"
| "kafka_error_to_string show_rd (KE_Serialization e) = ''Serialization error: '' @ e"
| "kafka_error_to_string show_rd (KE_Producer e) = ''Producer error: '' @ e"
| "kafka_error_to_string show_rd (KE_Producer_Queue_Full e) = ''Producer queue full: '' @ e"
| "kafka_error_to_string show_rd (KE_Consumer e) = ''Consumer error: '' @ e"
| "kafka_error_to_string show_rd KE_Timeout = ''Timeout''"

section \<open>Headers\<close>

text \<open>The hash map as an association list with distinct keys, in its iteration order.\<close>

record message_headers =
  mh_headers :: "(string \<times> string) list"

definition message_headers_new :: message_headers where
  "message_headers_new = \<lparr>mh_headers = []\<rparr>"

definition headers_add :: "string \<Rightarrow> string \<Rightarrow> message_headers \<Rightarrow> message_headers" where
  "headers_add key value h = h\<lparr>mh_headers := AList.update key value (mh_headers h)\<rparr>"

definition headers_get :: "string \<Rightarrow> message_headers \<Rightarrow> string option" where
  "headers_get key h = map_of (mh_headers h) key"

definition to_rdkafka :: "message_headers \<Rightarrow> (string \<times> string option) list" where
  "to_rdkafka h = map (\<lambda>(k, v). (k, Some v)) (mh_headers h)"

lemma headers_get_add: "headers_get k (headers_add k' v h) = (if k = k' then Some v else headers_get k h)"
  by (simp add: headers_get_def headers_add_def)

section \<open>The producer\<close>

record producer_message =
  pm_topic :: string
  pm_key :: "string option"
  pm_payload :: bytes
  pm_partition :: "i32 option"
  pm_headers :: "message_headers option"

text \<open>The record handed to the driver.\<close>

record base_record =
  kr_topic :: string
  kr_payload :: bytes
  kr_key :: "string option"
  kr_partition :: "i32 option"
  kr_headers :: "(string \<times> string option) list option"

record 'k kafka_driver =
  kd_send :: "base_record \<Rightarrow> 'k \<Rightarrow> (rd_error + unit) \<times> 'k"
  kd_show :: "rd_error \<Rightarrow> string"

definition producer_send :: "'k kafka_driver \<Rightarrow> producer_message \<Rightarrow> 'k \<Rightarrow> (kafka_error + unit) \<times> 'k" where
  "producer_send drv m k =
     (let rec = \<lparr>kr_topic = pm_topic m, kr_payload = pm_payload m, kr_key = pm_key m,
                 kr_partition = pm_partition m, kr_headers = map_option to_rdkafka (pm_headers m)\<rparr>
      in apfst (map_err (\<lambda>e. case e of
                   MessageProduction QueueFull \<Rightarrow> KE_Producer_Queue_Full (kd_show drv e)
                 | _ \<Rightarrow> KE_Producer (kd_show drv e)))
           (kd_send drv rec k))"

section \<open>The message sink\<close>

definition kafka_message_sink :: "'k kafka_driver \<Rightarrow> 'k message_sink" where
  "kafka_message_sink drv message k =
     (let rec = \<lparr>pm_topic = ob_topic message, pm_key = ob_key message, pm_payload = ob_payload message,
                 pm_partition = ob_partition message, pm_headers = None\<rparr>
      in case producer_send drv rec k of
           (Ok _, k1) \<Rightarrow> (Ok (), k1)
         | (Err (KE_Producer_Queue_Full t), k1) \<Rightarrow> (Err (Backpressure t), k1)
         | (Err e, k1) \<Rightarrow> (Err (Transport (kafka_error_to_string (kd_show drv) e)), k1))"

text \<open>The sink in terms of the driver's answer.\<close>

lemma kafka_message_sink_answer:
  "kafka_message_sink drv message k =
     (let rec = \<lparr>kr_topic = ob_topic message, kr_payload = ob_payload message, kr_key = ob_key message,
                 kr_partition = ob_partition message, kr_headers = None\<rparr>
      in case kd_send drv rec k of
           (Ok _, k1) \<Rightarrow> (Ok (), k1)
         | (Err e, k1) \<Rightarrow>
             (Err (if e = MessageProduction QueueFull then Backpressure (kd_show drv e)
                   else Transport (''Producer error: '' @ kd_show drv e)), k1))"
  by (auto simp: kafka_message_sink_def producer_send_def Let_def
      split: prod.split sum.split rd_error.split rd_code.split)

section \<open>Messages from the consumer\<close>

record incoming_message =
  ic_topic :: string
  ic_partition :: i32
  ic_offset :: i64
  ic_key :: "string option"
  ic_payload :: bytes
  ic_headers :: "message_headers option"
  ic_timestamp :: i64

text \<open>What the driver lends: keys and header values as bytes, the time stamp in milliseconds if any.\<close>

record borrowed_message =
  bo_topic :: string
  bo_partition :: i32
  bo_offset :: i64
  bo_key :: "bytes option"
  bo_payload :: "bytes option"
  bo_headers :: "(string \<times> bytes option) list option"
  bo_millis :: "i64 option"

fun collect_headers :: "(bytes \<Rightarrow> string) \<Rightarrow> (string \<times> bytes option) list \<Rightarrow> message_headers \<Rightarrow> message_headers" where
  "collect_headers lossy [] h = h"
| "collect_headers lossy ((k, Some v) # hs) h = collect_headers lossy hs (headers_add k (lossy v) h)"
| "collect_headers lossy ((k, None) # hs) h = collect_headers lossy hs h"

text \<open>\<open>lossy\<close> is \<open>String::from_utf8_lossy\<close>.\<close>

definition incoming_of_borrowed :: "(bytes \<Rightarrow> string) \<Rightarrow> borrowed_message \<Rightarrow> incoming_message" where
  "incoming_of_borrowed lossy msg =
     \<lparr>ic_topic = bo_topic msg, ic_partition = bo_partition msg, ic_offset = bo_offset msg,
      ic_key = map_option lossy (bo_key msg), ic_payload = unwrap_or (bo_payload msg) [],
      ic_headers = map_option (\<lambda>hs. collect_headers lossy hs message_headers_new) (bo_headers msg),
      ic_timestamp = unwrap_or (bo_millis msg) 0\<rparr>"

text \<open>The forwarding task: every item of the driver's stream, in order, until the receiver is dropped,
  which is after \<open>alive\<close> items.\<close>

definition consumer_stream ::
  "(bytes \<Rightarrow> string) \<Rightarrow> nat \<Rightarrow> (rd_error + borrowed_message) list \<Rightarrow> (kafka_error + incoming_message) list" where
  "consumer_stream lossy alive items =
     take alive (map (\<lambda>it. map_err KE_RdKafka (map_ok (incoming_of_borrowed lossy) it)) items)"

lemma collect_headers_get:
  "headers_get k (collect_headers lossy hs h) =
     (case map_of (rev (List.map_filter (\<lambda>(k, v). map_option (\<lambda>b. (k, lossy b)) v) hs)) k of
        Some v \<Rightarrow> Some v | None \<Rightarrow> headers_get k h)"
  by (induction lossy hs h rule: collect_headers.induct)
     (auto simp: map_filter_simps headers_get_add map_add_def split: option.splits)

section \<open>A full queue\<close>

text \<open>A driver whose queue is full, whatever its state.\<close>

definition queue_full :: "'k kafka_driver \<Rightarrow> bool" where
  "queue_full drv \<longleftrightarrow> (\<forall>rec k. fst (kd_send drv rec k) = Err (MessageProduction QueueFull))"

lemma queue_full_sink:
  assumes "queue_full drv"
  shows "\<exists>k1. kafka_message_sink drv m k = (Err (Backpressure (kd_show drv (MessageProduction QueueFull))), k1)"
proof -
  let ?rec = "\<lparr>kr_topic = ob_topic m, kr_payload = ob_payload m, kr_key = ob_key m, kr_partition = ob_partition m,
      kr_headers = None\<rparr>"
  from assms have "fst (kd_send drv ?rec k) = Err (MessageProduction QueueFull)" by (simp add: queue_full_def)
  then obtain k1 where "kd_send drv ?rec k = (Err (MessageProduction QueueFull), k1)" by (metis prod.collapse)
  then show ?thesis by (simp add: kafka_message_sink_answer)
qed

lemma spec_round_queue_full:
  assumes "queue_full drv" and "\<And>v. is_ok (sd_to_vec sd v)"
  shows "fst (spec_round sd fl (kafka_message_sink drv) retry ms l k) =
           on_entries (om_id ` set ms) released_if_claimed l"
proof (induction ms arbitrary: l k)
  case Nil
  then show ?case by simp
next
  case (Cons m ms)
  obtain payload where p: "sd_to_vec sd (om_payload m) = Ok payload"
    using assms(2) [of "om_payload m"] by (cases "sd_to_vec sd (om_payload m)") auto
  from queue_full_sink [OF assms(1)] obtain k1 t where
    s: "kafka_message_sink drv (outbound_to (om_topic m) m payload) k = (Err (Backpressure t), k1)" by blast
  have "fst (spec_round sd fl (kafka_message_sink drv) retry (m # ms) l k) =
      fst (spec_round sd fl (kafka_message_sink drv) retry ms (on_entry (om_id m) released_if_claimed l) k1)"
    by (simp add: p s settle_entry_def)
  also have "\<dots> = on_entries (om_id ` set ms) released_if_claimed (on_entry (om_id m) released_if_claimed l)"
    by (rule Cons.IH)
  finally have step: "fst (spec_round sd fl (kafka_message_sink drv) retry (m # ms) l k) =
      on_entries (om_id ` set ms) released_if_claimed (on_entry (om_id m) released_if_claimed l)" .
  have "map_option released_if_claimed (map_option released_if_claimed v) = map_option released_if_claimed v" for v
    by (cases v) (auto simp: released_if_claimed_def)
  then show ?case unfolding step by (intro ext) auto
qed

text \<open>C21: Kafka backpressure costs nothing. While the producer's local queue is full and the database
  is undisturbed, a round of the publisher succeeds and changes only statuses: each message of the batch it
  claimed, all of them waiting or left in flight by a lapsed claim before, is pending again, with its retry
  count and last error as they were, and no other message changes; so no message can be retried,
  dead-lettered or failed because of a full queue, and no settled one comes back.\<close>

theorem full_queue_spends_nothing:
  assumes "pg_outbox_ok d" and "undisturbed d" and "0 \<le> sint n"
    and "\<And>v. is_ok (sd_to_vec sd v)"
    and "\<And>i e. pg_ledger d i = Some e \<Longrightarrow> sint (en_retries e) < i32_max"
    and "queue_full drv"
  shows "case publish_pending sd fl pg_outbox_repository (kafka_message_sink drv) retry n d k of
           (r, d', k') \<Rightarrow> r = Ok () \<and>
             (\<exists>batch d1. pg_outbox_claim_pending n claim_lease_secs d = (Ok batch, d1) \<and>
                (\<forall>m \<in> set batch. \<exists>e. pg_ledger d (om_id m) = Some e \<and> en_status e \<in> {Pending, Retrying, Publishing}) \<and>
                (\<forall>i. pg_ledger d' i =
                   (if i \<in> om_id ` set batch then map_option (\<lambda>e. e\<lparr>en_status := Pending\<rparr>) (pg_ledger d i)
                    else pg_ledger d i)))"
proof -
  obtain r d' k' where run: "publish_pending sd fl pg_outbox_repository (kafka_message_sink drv) retry n d k = (r, d', k')"
    by (metis prod_cases3)
  have "r = Ok () \<and> pg_outbox_ok d' \<and> undisturbed d' \<and>
      (\<exists>batch d1. or_claim_pending pg_outbox_repository n claim_lease_secs d = (Ok batch, d1) \<and>
         pg_ledger d1 = on_entries (om_id ` set batch) claimed (pg_ledger d) \<and>
         (pg_ledger d', k') = spec_round sd fl (kafka_message_sink drv) retry batch (pg_ledger d1) k)"
    by (rule pg.publish_pending_refines [OF assms(1-3) assms(4) _ run]) (rule assms(5))
  then obtain batch d1 where r: "r = Ok ()" and claim: "pg_outbox_claim_pending n claim_lease_secs d = (Ok batch, d1)"
    and l1: "pg_ledger d1 = on_entries (om_id ` set batch) claimed (pg_ledger d)"
    and l2: "(pg_ledger d', k') = spec_round sd fl (kafka_message_sink drv) retry batch (pg_ledger d1) k"
    unfolding pg_outbox_repository_simps by blast
  from pg_outbox_claim_law [OF assms(1) claim]
  have held: "\<forall>m \<in> set batch. \<exists>e. pg_ledger d (om_id m) = Some e \<and> en_status e \<in> {Pending, Retrying, Publishing}"
    by (auto simp: claimable_def)
  from l2 spec_round_queue_full [OF assms(6,4)]
  have l3: "pg_ledger d' = on_entries (om_id ` set batch) released_if_claimed (pg_ledger d1)" by (metis fst_conv)
  have "pg_ledger d' i = (if i \<in> om_id ` set batch
      then map_option (\<lambda>e. e\<lparr>en_status := Pending\<rparr>) (pg_ledger d i) else pg_ledger d i)" for i
    by (simp add: l3 l1 claimed_def released_if_claimed_def option.map_comp o_def)
  with r run claim held show ?thesis by auto
qed

definition full_driver :: "nat kafka_driver" where
  "full_driver = \<lparr>kd_send = (\<lambda>rec k. (Err (MessageProduction QueueFull), Suc k)), kd_show = (\<lambda>e. ''queue full'')\<rparr>"

theorem full_queue_spends_nothing_witness:
  "let res = publish_pending null_serde exact_floats pg_outbox_repository (kafka_message_sink full_driver)
               (retry_strategy_new default_retry_config) 10 (sample_db [sample_outbox_row 7 ''retrying'' 2]) (0 :: nat)
   in fst res = Ok () \<and> snd (snd res) = 1 \<and>
      (\<exists>e. pg_ledger (fst (snd res)) 7 = Some e \<and> en_retries e = 2)"
proof -
  let ?d = "sample_db [sample_outbox_row 7 ''retrying'' 2]"
  let ?res = "publish_pending null_serde exact_floats pg_outbox_repository (kafka_message_sink full_driver)
      (retry_strategy_new default_retry_config) 10 ?d (0 :: nat)"
  have ok: "pg_outbox_ok ?d" by (simp add: sample_outbox_ok)
  have led: "pg_ledger ?d i = (if i = 7 then Some (entry_of_row (sample_outbox_row 7 ''retrying'' 2)) else None)" for i
    by (simp add: pg_ledger_def row_at_def sample_outbox_row_def)
  have retries: "en_retries (entry_of_row (sample_outbox_row 7 ''retrying'' 2)) = 2" by code_simp
  have lim: "sint (en_retries e) < i32_max" if "pg_ledger ?d i = Some e" for i e
  proof -
    from that have "en_retries e = 2" using retries by (auto simp: led split: if_splits)
    then show ?thesis by (simp add: i32_max_def)
  qed
  have ser: "is_ok (sd_to_vec null_serde v)" for v by (simp add: null_serde_def)
  have full: "queue_full full_driver" by (simp add: queue_full_def full_driver_def)
  have "case ?res of (r, d', k') \<Rightarrow> r = Ok () \<and>
      (\<exists>batch d1. pg_outbox_claim_pending 10 claim_lease_secs ?d = (Ok batch, d1) \<and>
         (\<forall>m \<in> set batch. \<exists>e. pg_ledger ?d (om_id m) = Some e \<and> en_status e \<in> {Pending, Retrying, Publishing}) \<and>
         (\<forall>i. pg_ledger d' i =
            (if i \<in> om_id ` set batch then map_option (\<lambda>e. e\<lparr>en_status := Pending\<rparr>) (pg_ledger ?d i)
             else pg_ledger ?d i)))"
    by (rule full_queue_spends_nothing [OF ok _ _ ser lim full]) (simp_all add: sample_db_def undisturbed_def)
  then have "fst ?res = Ok ()" and "\<exists>e. pg_ledger (fst (snd ?res)) 7 = Some e \<and> en_retries e = 2"
    using retries by (auto simp: led split: prod.splits)
  moreover have "snd (snd ?res) = 1" by code_simp
  ultimately show ?thesis by (simp add: Let_def)
qed

end
