(* ===== verification/Consumer_Loop.thy ===== *)
theory Consumer_Loop
  imports Proto Kafka Dispatch Db_Inbox "HOL-Library.Sublist"
begin

text \<open>
  The consumer pipeline (\<open>spawn_consumer_loop\<close> of \<open>rs-broker-server/src/app.rs\<close>): each message from
  Kafka is parsed, buffered for the inbox, dispatched to the subscribers and broadcast to the event
  streams; the buffer is stored in batches. What the channel yields, whether it is empty after an item
  and the clock of an item's deliveries come with the item. The state is what the task owns, the
  database \<open>'s\<close>, the network \<open>'n\<close> of the subscribers and the events sent so far.
\<close>

section \<open>The loop\<close>

definition max_inbox_batch :: nat where
  "max_inbox_batch = 100"

record channel_item =
  ci_result :: "kafka_error + incoming_message"
  ci_clock :: "nat \<Rightarrow> timestamp"
  ci_drained :: bool                      \<comment> \<open>\<open>rx.is_empty()\<close> after the item\<close>

record ('s, 'n) consumer_state =
  cs_pending :: "inbox_message list"
  cs_dispatcher :: "('s, 'n) message_dispatcher"
  cs_runtime :: runtime
  cs_store :: 's
  cs_network :: 'n
  cs_events :: "pb_deliver_event list"

definition decode_payload :: "serde \<Rightarrow> bytes \<Rightarrow> string + json" where
  "decode_payload sd payload = (if payload = [] then Ok json_empty_object else sd_from_slice sd payload)"

definition event_type_of :: "json \<Rightarrow> string" where
  "event_type_of payload =
     unwrap_or (case json_get payload ''event_type'' of Some v \<Rightarrow> json_as_str v | None \<Rightarrow> None) []"

text \<open>One message with its parsed payload: buffer, dispatch, broadcast.\<close>

definition consume_message ::
  "uuid_lib \<Rightarrow> (nat \<Rightarrow> timestamp) \<Rightarrow> incoming_message \<Rightarrow> json \<Rightarrow> ('s, 'n) consumer_state \<Rightarrow> ('s, 'n) consumer_state" where
  "consume_message ul clock msg payload st =
     (let (m, rt1) = inbox_message_new (ic_topic msg) (ic_partition msg) (ic_offset msg) payload (cs_runtime st);
          (_, md1, rt2, s1, n1) =
            dispatcher_dispatch ul clock (ic_topic msg) (ic_payload msg) (cs_dispatcher st) rt1
              (cs_store st) (cs_network st);
          (i, rt3) = now_v7 rt2;
          (now, rt4) = utc_now rt3;
          event = \<lparr>de_message_id = ul_show ul i, de_topic = ic_topic msg, de_partition = ic_partition msg,
                   de_offset = ic_offset msg, de_key = unwrap_or (ic_key msg) [], de_payload = ic_payload msg,
                   de_headers = [], de_timestamp = ts_seconds now, de_event_type = event_type_of payload\<rparr>
      in \<lparr>cs_pending = cs_pending st @ [m], cs_dispatcher = md1, cs_runtime = rt4, cs_store = s1,
          cs_network = n1, cs_events = cs_events st @ [event]\<rparr>)"

text \<open>The result of storing the batch is only logged; the buffer is empty afterwards either way.\<close>

definition flush :: "'s inbox_repository \<Rightarrow> ('s, 'n) consumer_state \<Rightarrow> ('s, 'n) consumer_state" where
  "flush inbox st =
     st\<lparr>cs_pending := [], cs_store := snd (store_messages inbox (cs_pending st) (cs_store st))\<rparr>"

definition flush_if_due :: "'s inbox_repository \<Rightarrow> bool \<Rightarrow> ('s, 'n) consumer_state \<Rightarrow> ('s, 'n) consumer_state" where
  "flush_if_due inbox drained st =
     (if length (cs_pending st) \<ge> max_inbox_batch \<or> drained then flush inbox st else st)"

text \<open>One round of the \<open>while let\<close>; a payload that does not parse skips the rest of the round.\<close>

definition consumer_step ::
  "uuid_lib \<Rightarrow> serde \<Rightarrow> 's inbox_repository \<Rightarrow> channel_item \<Rightarrow> ('s, 'n) consumer_state \<Rightarrow> ('s, 'n) consumer_state" where
  "consumer_step ul sd inbox item st =
     (case ci_result item of
        Ok msg \<Rightarrow>
          (case decode_payload sd (ic_payload msg) of
             Err _ \<Rightarrow> st
           | Ok payload \<Rightarrow>
               flush_if_due inbox (ci_drained item) (consume_message ul (ci_clock item) msg payload st))
      | Err _ \<Rightarrow> flush_if_due inbox (ci_drained item) st)"

fun consumer_loop ::
  "uuid_lib \<Rightarrow> serde \<Rightarrow> 's inbox_repository \<Rightarrow> channel_item list \<Rightarrow> ('s, 'n) consumer_state \<Rightarrow> ('s, 'n) consumer_state" where
  "consumer_loop ul sd inbox [] st = st"
| "consumer_loop ul sd inbox (item # items) st =
     consumer_loop ul sd inbox items (consumer_step ul sd inbox item st)"

text \<open>The task: the loop until the channel closes, then what is left.\<close>

definition consumer_task ::
  "uuid_lib \<Rightarrow> serde \<Rightarrow> 's inbox_repository \<Rightarrow> channel_item list \<Rightarrow> ('s, 'n) consumer_state \<Rightarrow> ('s, 'n) consumer_state" where
  "consumer_task ul sd inbox items st =
     (let st1 = consumer_loop ul sd inbox items (st\<lparr>cs_pending := []\<rparr>)
      in if cs_pending st1 \<noteq> [] then flush inbox st1 else st1)"

text \<open>A message that does not parse skips the flush check: when it is the last one for the moment, what is
  buffered stays buffered although the channel is empty, until another item arrives.\<close>

lemma unreadable_skips_flush:
  "ci_result item = Ok msg \<Longrightarrow> decode_payload sd (ic_payload msg) = Err e \<Longrightarrow> ci_drained item \<Longrightarrow>
     consumer_step ul sd inbox item st = st"
  by (simp add: consumer_step_def)

section \<open>The periodic refresh\<close>

text \<open>The endpoints after each tick; a failed refresh keeps them.\<close>

fun subscriber_refresh_loop ::
  "uuid_lib \<Rightarrow> nat \<Rightarrow> 's subscriber_dispatcher \<Rightarrow> 's \<Rightarrow> 's subscriber_dispatcher \<times> 's" where
  "subscriber_refresh_loop ul 0 dp s = (dp, s)"
| "subscriber_refresh_loop ul (Suc ticks) dp s =
     (case refresh_subscribers ul dp s of
        (_, dp1, s1) \<Rightarrow> subscriber_refresh_loop ul ticks dp1 s1)"

section \<open>What becomes of the messages\<close>

text \<open>The messages that parse, with their payloads.\<close>

definition readable :: "serde \<Rightarrow> channel_item \<Rightarrow> (incoming_message \<times> json) option" where
  "readable sd item =
     (case ci_result item of
        Ok msg \<Rightarrow> (case decode_payload sd (ic_payload msg) of Ok payload \<Rightarrow> Some (msg, payload) | Err _ \<Rightarrow> None)
      | Err _ \<Rightarrow> None)"

definition inbox_key :: "inbox_message \<Rightarrow> string \<times> i32 \<times> i64 \<times> json" where
  "inbox_key m = (im_topic m, im_partition m, im_offset m, im_payload m)"

definition message_key :: "incoming_message \<times> json \<Rightarrow> string \<times> i32 \<times> i64 \<times> json" where
  "message_key p = (ic_topic (fst p), ic_partition (fst p), ic_offset (fst p), snd p)"

definition event_key :: "pb_deliver_event \<Rightarrow> string \<times> i32 \<times> i64 \<times> bytes" where
  "event_key e = (de_topic e, de_partition e, de_offset e, de_payload e)"

definition broadcast_key :: "incoming_message \<times> json \<Rightarrow> string \<times> i32 \<times> i64 \<times> bytes" where
  "broadcast_key p = (ic_topic (fst p), ic_partition (fst p), ic_offset (fst p), ic_payload (fst p))"

text \<open>With the fan-out dispatcher the consumer is built with, dispatching leaves the database alone.\<close>

definition fans_out :: "('s, 'n) consumer_state \<Rightarrow> bool" where
  "fans_out st \<longleftrightarrow> md_subscriber_dispatcher (cs_dispatcher st) \<noteq> None"

lemma dispatcher_dispatch_fan_out:
  assumes "md_subscriber_dispatcher md \<noteq> None"
    and "dispatcher_dispatch ul clock topic payload md rt s n = (r, md', rt', s', n')"
  shows "md_subscriber_dispatcher md' \<noteq> None \<and> s' = s"
proof -
  from assms(1) obtain dp notify where "md_subscriber_dispatcher md = Some (dp, notify)" by auto
  with assms(2) show ?thesis by (auto simp: dispatcher_dispatch_def Let_def split: prod.splits)
qed

lemma consume_message_spec:
  assumes "fans_out st"
  shows "fans_out (consume_message ul clock msg payload st) \<and>
         cs_store (consume_message ul clock msg payload st) = cs_store st \<and>
         (\<exists>m. cs_pending (consume_message ul clock msg payload st) = cs_pending st @ [m] \<and>
              inbox_key m = message_key (msg, payload)) \<and>
         map event_key (cs_events (consume_message ul clock msg payload st)) =
           map event_key (cs_events st) @ [broadcast_key (msg, payload)]"
proof -
  obtain m rt1 where m: "inbox_message_new (ic_topic msg) (ic_partition msg) (ic_offset msg) payload (cs_runtime st) =
      (m, rt1)" by fastforce
  then have key: "inbox_key m = message_key (msg, payload)"
    by (auto simp: inbox_message_new_def inbox_key_def message_key_def split: prod.splits)
  obtain r md1 rt2 s1 n1 where d: "dispatcher_dispatch ul clock (ic_topic msg) (ic_payload msg) (cs_dispatcher st)
      rt1 (cs_store st) (cs_network st) = (r, md1, rt2, s1, n1)" by (metis prod_cases5)
  from dispatcher_dispatch_fan_out [OF assms [unfolded fans_out_def] d]
  have keep: "md_subscriber_dispatcher md1 \<noteq> None" "s1 = cs_store st" by blast+
  obtain i rt3 where i: "now_v7 rt2 = (i, rt3)" by fastforce
  obtain now rt4 where now: "utc_now rt3 = (now, rt4)" by fastforce
  show ?thesis
    using keep key by (simp add: consume_message_def m d i now fans_out_def event_key_def broadcast_key_def)
qed

text \<open>Storing a list of batches in turn.\<close>

definition store_batches :: "'s inbox_repository \<Rightarrow> inbox_message list list \<Rightarrow> 's \<Rightarrow> 's" where
  "store_batches inbox bs s = fold (\<lambda>b s. snd (store_messages inbox b s)) bs s"

lemma store_batches_simps [simp]:
  "store_batches inbox [] s = s"
  "store_batches inbox (b # bs) s = store_batches inbox bs (snd (store_messages inbox b s))"
  by (simp_all add: store_batches_def)

lemma store_batches_append [simp]:
  "store_batches inbox (bs @ cs) s = store_batches inbox cs (store_batches inbox bs s)"
  by (simp add: store_batches_def)

text \<open>A stretch of the loop that read the messages \<open>ps\<close>: they joined the buffer and were broadcast, and
  the buffer was stored in batches of bounded size, in order.\<close>

definition advanced ::
  "'s inbox_repository \<Rightarrow> (incoming_message \<times> json) list \<Rightarrow> ('s, 'n) consumer_state \<Rightarrow> ('s, 'n) consumer_state \<Rightarrow> bool" where
  "advanced inbox ps st st' \<longleftrightarrow>
     fans_out st' \<and> length (cs_pending st') < max_inbox_batch \<and>
     (\<exists>bs. (\<forall>b \<in> set bs. length b \<le> max_inbox_batch) \<and> cs_store st' = store_batches inbox bs (cs_store st) \<and>
           map inbox_key (concat bs @ cs_pending st') = map inbox_key (cs_pending st) @ map message_key ps) \<and>
     map event_key (cs_events st') = map event_key (cs_events st) @ map broadcast_key ps"

lemma advanced_refl: "fans_out st \<Longrightarrow> length (cs_pending st) < max_inbox_batch \<Longrightarrow> advanced inbox [] st st"
  unfolding advanced_def by (intro conjI exI [of _ "[]"]) simp_all

lemma advanced_trans:
  assumes "advanced inbox ps st st1" and "advanced inbox qs st1 st2"
  shows "advanced inbox (ps @ qs) st st2"
proof -
  from assms(1) obtain bs where bs: "\<forall>b \<in> set bs. length b \<le> max_inbox_batch"
    "cs_store st1 = store_batches inbox bs (cs_store st)"
    "map inbox_key (concat bs @ cs_pending st1) = map inbox_key (cs_pending st) @ map message_key ps"
    unfolding advanced_def by blast
  from assms(2) obtain cs where cs: "\<forall>b \<in> set cs. length b \<le> max_inbox_batch"
    "cs_store st2 = store_batches inbox cs (cs_store st1)"
    "map inbox_key (concat cs @ cs_pending st2) = map inbox_key (cs_pending st1) @ map message_key qs"
    unfolding advanced_def by blast
  have "\<forall>b \<in> set (bs @ cs). length b \<le> max_inbox_batch" using bs(1) cs(1) by auto
  moreover have "cs_store st2 = store_batches inbox (bs @ cs) (cs_store st)" by (simp add: cs(2) bs(2))
  moreover have "map inbox_key (concat (bs @ cs) @ cs_pending st2) =
      map inbox_key (cs_pending st) @ map message_key (ps @ qs)" using bs(3) cs(3) by simp
  moreover have "fans_out st2" "length (cs_pending st2) < max_inbox_batch"
    "map event_key (cs_events st2) = map event_key (cs_events st) @ map broadcast_key (ps @ qs)"
    using assms by (simp_all add: advanced_def)
  ultimately show ?thesis unfolding advanced_def by blast
qed

text \<open>The flush check, entered with at most a full buffer.\<close>

lemma flush_if_due_spec:
  assumes "fans_out st" and "length (cs_pending st) \<le> max_inbox_batch"
  shows "\<exists>bs. fans_out (flush_if_due inbox drained st) \<and>
           length (cs_pending (flush_if_due inbox drained st)) < max_inbox_batch \<and>
           (\<forall>b \<in> set bs. length b \<le> max_inbox_batch) \<and>
           cs_store (flush_if_due inbox drained st) = store_batches inbox bs (cs_store st) \<and>
           concat bs @ cs_pending (flush_if_due inbox drained st) = cs_pending st \<and>
           cs_events (flush_if_due inbox drained st) = cs_events st"
proof (cases "length (cs_pending st) \<ge> max_inbox_batch \<or> drained")
  case True
  with assms show ?thesis
    by (intro exI [of _ "[cs_pending st]"]) (simp add: flush_if_due_def flush_def fans_out_def max_inbox_batch_def)
next
  case False
  with assms(1) show ?thesis by (intro exI [of _ "[]"]) (simp add: flush_if_due_def)
qed

lemma consumer_step_advanced:
  assumes "fans_out st" and "length (cs_pending st) < max_inbox_batch"
  shows "advanced inbox (List.map_filter (readable sd) [item]) st (consumer_step ul sd inbox item st)"
proof (cases "ci_result item")
  case (Inl e)
  from flush_if_due_spec [OF assms(1), of inbox "ci_drained item"] assms(2) obtain bs where
    "fans_out (flush_if_due inbox (ci_drained item) st)"
    "length (cs_pending (flush_if_due inbox (ci_drained item) st)) < max_inbox_batch"
    "\<forall>b \<in> set bs. length b \<le> max_inbox_batch"
    "cs_store (flush_if_due inbox (ci_drained item) st) = store_batches inbox bs (cs_store st)"
    "concat bs @ cs_pending (flush_if_due inbox (ci_drained item) st) = cs_pending st"
    "cs_events (flush_if_due inbox (ci_drained item) st) = cs_events st" by auto
  with Inl show ?thesis
    unfolding advanced_def
    by (intro conjI exI [of _ bs]) (simp_all add: consumer_step_def readable_def map_filter_simps flip: map_append)
next
  case (Inr msg)
  show ?thesis
  proof (cases "decode_payload sd (ic_payload msg)")
    case (Inl e)
    with Inr have "consumer_step ul sd inbox item st = st" "List.map_filter (readable sd) [item] = []"
      by (simp_all add: consumer_step_def readable_def map_filter_simps)
    with assms show ?thesis by (simp add: advanced_refl)
  next
    case payload: (Inr payload)
    let ?s = "consume_message ul (ci_clock item) msg payload st"
    from consume_message_spec [OF assms(1), of ul "ci_clock item" msg payload] obtain m
      where s: "fans_out ?s" "cs_store ?s = cs_store st" "cs_pending ?s = cs_pending st @ [m]"
        "inbox_key m = message_key (msg, payload)"
        "map event_key (cs_events ?s) = map event_key (cs_events st) @ [broadcast_key (msg, payload)]" by blast
    have "length (cs_pending ?s) \<le> max_inbox_batch" using assms(2) s(3) by simp
    from flush_if_due_spec [OF s(1) this, of inbox "ci_drained item"] obtain bs where
      "fans_out (flush_if_due inbox (ci_drained item) ?s)"
      "length (cs_pending (flush_if_due inbox (ci_drained item) ?s)) < max_inbox_batch"
      "\<forall>b \<in> set bs. length b \<le> max_inbox_batch"
      "cs_store (flush_if_due inbox (ci_drained item) ?s) = store_batches inbox bs (cs_store st)"
      and joined: "concat bs @ cs_pending (flush_if_due inbox (ci_drained item) ?s) = cs_pending st @ [m]"
      and "cs_events (flush_if_due inbox (ci_drained item) ?s) = cs_events ?s" unfolding s(2,3) by blast
    moreover have "map inbox_key (concat bs @ cs_pending (flush_if_due inbox (ci_drained item) ?s)) =
        map inbox_key (cs_pending st) @ [message_key (msg, payload)]" unfolding joined by (simp add: s(4))
    ultimately show ?thesis
      using Inr payload s(5) unfolding advanced_def
      by (intro conjI exI [of _ bs]) (simp_all add: consumer_step_def readable_def map_filter_simps)
  qed
qed

lemma consumer_loop_advanced:
  assumes "fans_out st" and "length (cs_pending st) < max_inbox_batch"
  shows "advanced inbox (List.map_filter (readable sd) items) st (consumer_loop ul sd inbox items st)"
  using assms
proof (induction items arbitrary: st)
  case Nil
  then show ?case by (simp add: map_filter_simps advanced_refl)
next
  case (Cons item items)
  note one = consumer_step_advanced [OF Cons.prems, of inbox sd item ul]
  then have "advanced inbox (List.map_filter (readable sd) items) (consumer_step ul sd inbox item st)
      (consumer_loop ul sd inbox items (consumer_step ul sd inbox item st))"
    by (intro Cons.IH) (simp_all add: advanced_def)
  from advanced_trans [OF one this] show ?case by (auto simp: map_filter_simps split: option.splits)
qed

lemma consumer_task_batches:
  assumes "fans_out st"
  shows "\<exists>bs. (\<forall>b \<in> set bs. length b \<le> max_inbox_batch) \<and>
           cs_store (consumer_task ul sd inbox items st) = store_batches inbox bs (cs_store st) \<and>
           map inbox_key (concat bs) = map message_key (List.map_filter (readable sd) items) \<and>
           map event_key (cs_events (consumer_task ul sd inbox items st)) =
             map event_key (cs_events st) @ map broadcast_key (List.map_filter (readable sd) items)"
proof -
  let ?st = "st\<lparr>cs_pending := []\<rparr>" and ?st1 = "consumer_loop ul sd inbox items (st\<lparr>cs_pending := []\<rparr>)"
  have "advanced inbox (List.map_filter (readable sd) items) ?st ?st1"
    using assms by (intro consumer_loop_advanced) (simp_all add: fans_out_def max_inbox_batch_def)
  then obtain bs where len: "length (cs_pending ?st1) < max_inbox_batch"
    and bs: "\<forall>b \<in> set bs. length b \<le> max_inbox_batch" "cs_store ?st1 = store_batches inbox bs (cs_store st)"
      "map inbox_key (concat bs @ cs_pending ?st1) = map message_key (List.map_filter (readable sd) items)"
    and ev: "map event_key (cs_events ?st1) = map event_key (cs_events st) @
      map broadcast_key (List.map_filter (readable sd) items)" by (auto simp: advanced_def)
  show ?thesis
  proof (cases "cs_pending ?st1 = []")
    case True
    with bs ev show ?thesis by (intro exI [of _ bs]) (simp add: consumer_task_def)
  next
    case False
    with bs ev len show ?thesis
      by (intro exI [of _ "bs @ [cs_pending ?st1]"]) (auto simp: consumer_task_def flush_def Let_def)
  qed
qed

context inbox_port begin

text \<open>Each batch is stored whole or lost, the others regardless.\<close>

lemma store_batches_law:
  "ok s \<Longrightarrow> \<exists>ks. subseq ks bs \<and> ok (store_batches repo bs s) \<and> box (store_batches repo bs s) = fold add_inbox ks (box s)"
proof (induction bs arbitrary: s)
  case Nil
  then show ?case by (intro exI [of _ "[]"]) simp
next
  case (Cons b bs)
  let ?s1 = "snd (store_messages repo b s)"
  obtain r where "store_messages repo b s = (r, ?s1)" by (cases "store_messages repo b s") simp
  from store_messages_law [OF Cons.prems this] have ok1: "ok ?s1"
    and box1: "box ?s1 = box s \<or> box ?s1 = add_inbox b (box s)" by auto
  from Cons.IH [OF ok1] obtain ks where ks: "subseq ks bs" "ok (store_batches repo bs ?s1)"
    "box (store_batches repo bs ?s1) = fold add_inbox ks (box ?s1)" by blast
  from box1 show ?case
  proof
    assume "box ?s1 = box s"
    with ks show ?thesis by (intro exI [of _ ks]) auto
  next
    assume "box ?s1 = add_inbox b (box s)"
    with ks show ?thesis by (intro exI [of _ "b # ks"]) auto
  qed
qed

end

text \<open>C13: What the consumer does with its messages, whatever the database does. The messages that
  parse, each as often as it was delivered, are cut into consecutive batches of at most 100; each
  batch enters the inbox whole or is lost, and is not tried again; nothing else enters the inbox.
  Every one of these messages is broadcast to the event streams exactly once, in order, whether or not
  it was stored.\<close>

theorem consumer_stores_batches:
  assumes "pg_inbox_ok (cs_store st)" and "fans_out st"
  shows "let st' = consumer_task ul sd pg_inbox_repository items st
         in \<exists>bs ks. map inbox_key (concat bs) = map message_key (List.map_filter (readable sd) items) \<and>
              (\<forall>b \<in> set bs. length b \<le> 100) \<and> subseq ks bs \<and>
              pg_inbox_ok (cs_store st') \<and> pg_inbox (cs_store st') = fold add_inbox ks (pg_inbox (cs_store st)) \<and>
              map event_key (cs_events st') =
                map event_key (cs_events st) @ map broadcast_key (List.map_filter (readable sd) items)"
proof -
  from consumer_task_batches [OF assms(2), where inbox = pg_inbox_repository and ul = ul and sd = sd and items = items] obtain bs
    where bs: "\<forall>b \<in> set bs. length b \<le> max_inbox_batch"
      "cs_store (consumer_task ul sd pg_inbox_repository items st) = store_batches pg_inbox_repository bs (cs_store st)"
      "map inbox_key (concat bs) = map message_key (List.map_filter (readable sd) items)"
      "map event_key (cs_events (consumer_task ul sd pg_inbox_repository items st)) =
         map event_key (cs_events st) @ map broadcast_key (List.map_filter (readable sd) items)" by blast
  from pg_inbox.store_batches_law [OF assms(1), of bs] obtain ks where "subseq ks bs"
    "pg_inbox_ok (store_batches pg_inbox_repository bs (cs_store st))"
    "pg_inbox (store_batches pg_inbox_repository bs (cs_store st)) = fold add_inbox ks (pg_inbox (cs_store st))" by blast
  with bs show ?thesis unfolding Let_def by (intro exI [of _ bs] exI [of _ ks]) (simp add: max_inbox_batch_def)
qed

definition sample_incoming :: incoming_message where
  "sample_incoming = \<lparr>ic_topic = ''orders'', ic_partition = 0, ic_offset = 42, ic_key = None, ic_payload = [],
     ic_headers = None, ic_timestamp = 0\<rparr>"

definition sample_item :: "(kafka_error + incoming_message) \<Rightarrow> bool \<Rightarrow> channel_item" where
  "sample_item r drained = \<lparr>ci_result = r, ci_clock = (\<lambda>n. 0), ci_drained = drained\<rparr>"

definition no_subscribers :: "db subscriber_repository" where
  "no_subscribers =
     \<lparr>sr_create = (\<lambda>_ d. (Ok (), d)), sr_get_by_id = (\<lambda>i d. (Err (SE_NotFound i), d)),
      sr_get_all_active = (\<lambda>d. (Ok [], d)), sr_update = (\<lambda>_ d. (Ok (), d)), sr_delete = (\<lambda>_ d. (Ok (), d)),
      sr_deactivate = (\<lambda>_ d. (Ok (), d))\<rparr>"

definition sample_consumer :: "(db, unit) consumer_state" where
  "sample_consumer =
     \<lparr>cs_pending = [],
      cs_dispatcher = with_subscriber_dispatcher (no_subscribers)
        (subscriber_dispatcher_new (no_subscribers), silent_notifier),
      cs_runtime = counting_runtime, cs_store = empty_db, cs_network = (), cs_events = []\<rparr>"

text \<open>The same record delivered twice is stored and broadcast twice.\<close>

theorem consumer_stores_batches_witness:
  "let st' = consumer_task decimal_uuids null_serde pg_inbox_repository
               [sample_item (Ok sample_incoming) True, sample_item (Ok sample_incoming) True] sample_consumer
   in map iw_offset (db_inbox (cs_store st')) = [42, 42] \<and>
      map event_key (cs_events st') = [(''orders'', 0, 42, []), (''orders'', 0, 42, [])]"
proof -
  let ?items = "[sample_item (Ok sample_incoming) True, sample_item (Ok sample_incoming) True]"
  let ?st' = "consumer_task decimal_uuids null_serde pg_inbox_repository ?items sample_consumer"
  have ok: "pg_inbox_ok (cs_store sample_consumer)" by (simp add: sample_consumer_def empty_inbox_ok)
  have fan: "fans_out sample_consumer"
    by (simp add: fans_out_def sample_consumer_def with_subscriber_dispatcher_def)
  have "map event_key (cs_events ?st') =
      map event_key (cs_events sample_consumer) @ map broadcast_key (List.map_filter (readable null_serde) ?items)"
    using consumer_stores_batches [OF ok fan, of decimal_uuids null_serde ?items] unfolding Let_def by blast
  moreover have "map broadcast_key (List.map_filter (readable null_serde) ?items) =
      [(''orders'', 0, 42, []), (''orders'', 0, 42, [])]" by code_simp
  moreover have "map iw_offset (db_inbox (cs_store ?st')) = [42, 42]"
    by (simp add: consumer_task_def consumer_step_def sample_item_def sample_incoming_def decode_payload_def flush_if_due_def
      flush_def consume_message_def sample_consumer_def inbox_message_new_def dispatcher_dispatch_def
      with_subscriber_dispatcher_def subscriber_dispatcher_new_def dispatch_to_all_def get_matching_subscribers_def now_v7_def
      utc_now_def Let_def counting_runtime_def max_inbox_batch_def store_messages_def pg_inbox_create_batch_def inbox_stmt_def
      inbox_insert_def inbox_row_of_message_def inbox_unique_def run_statement_calm undisturbed_def empty_db_def row_eval)
  ultimately show ?thesis by (simp add: Let_def sample_consumer_def)
qed

end
