(* ===== verification/Callback.thy ===== *)
theory Callback
  imports Delivery Proto
begin

text \<open>
  The gRPC callback adapter (\<open>rs-broker-server/src/adapters/callback.rs\<close>): the pool of channels per
  endpoint and the notifier over it. A channel \<open>'c\<close>, connecting and the call itself are tonic's and
  parameters; times are microseconds. Concurrent notifications interleave the pool's operations in
  any order: \<open>pool_step\<close>.
\<close>

section \<open>The pool\<close>








definition normalize_endpoint :: "string \<Rightarrow> string" where
  "normalize_endpoint endpoint =
     (if starts_with endpoint ''http://'' \<or> starts_with endpoint ''https://'' then endpoint
      else ''http://'' @ endpoint)"





section \<open>The notifier\<close>




section \<open>What the pool keeps\<close>

lemma normalize_idem [simp]: "normalize_endpoint (normalize_endpoint e) = normalize_endpoint e"
  by (auto simp: normalize_endpoint_def starts_with_iff)













end
