(* ===== verification/Interleaving.thy ===== *)
theory Interleaving
  imports Reprocess Db_Inbox Db_Subscriber
begin

text \<open>
  The tasks of one broker, and of several, share the database: the handlers of both transports, the
  publisher's worker, the consumer and the subscriber refresh. Each touches it one repository call at
  a time, and a call is one statement or transaction. So whatever tasks run and however they
  interleave, what the database sees is a list of calls of the four repositories; outside failures
  are in the script the database carries. The property below holds for every such list.
\<close>

section \<open>Calls\<close>

datatype db_call =
    Outbox_Create outbox_message
  | Outbox_Create_Batch "outbox_message list"
  | Outbox_Get_By_Id uuid
  | Outbox_Get_Pending i64
  | Outbox_Claim_Pending i64 i32
  | Outbox_Mark_Published_Batch "uuid list"
  | Outbox_Release_Claim uuid
  | Outbox_Update_Status uuid message_status "string option"
  | Outbox_Increment_Retry uuid "string option"
  | Outbox_Mark_Published uuid
  | Outbox_Delete uuid
  | Inbox_Create inbox_message
  | Inbox_Create_Batch "inbox_message list"
  | Inbox_Get_By_Id uuid
  | Inbox_Get_By_Topic_Offset string i64
  | Inbox_Update_Status uuid inbox_status "string option"
  | Inbox_Mark_Processed uuid
  | Inbox_Delete uuid
  | Dlq_Create dlq_message
  | Dlq_Get_By_Id uuid
  | Dlq_Get_All "string option" i64 i64
  | Dlq_Count "string option"
  | Dlq_Delete uuid
  | Dlq_Delete_All
  | Subscriber_Create subscriber
  | Subscriber_Get_By_Id uuid
  | Subscriber_Get_All_Active
  | Subscriber_Update subscriber
  | Subscriber_Delete uuid
  | Subscriber_Deactivate uuid

fun execute :: "uuid_lib \<Rightarrow> db_call \<Rightarrow> db \<Rightarrow> db" where
  "execute ul (Outbox_Create m) d = snd (pg_outbox_create m d)"
| "execute ul (Outbox_Create_Batch ms) d = snd (pg_outbox_create_batch ms d)"
| "execute ul (Outbox_Get_By_Id i) d = snd (pg_outbox_get_by_id i d)"
| "execute ul (Outbox_Get_Pending n) d = snd (pg_outbox_get_pending n d)"
| "execute ul (Outbox_Claim_Pending n lease) d = snd (pg_outbox_claim_pending n lease d)"
| "execute ul (Outbox_Mark_Published_Batch is) d = snd (pg_outbox_mark_published_batch is d)"
| "execute ul (Outbox_Release_Claim i) d = snd (pg_outbox_release_claim i d)"
| "execute ul (Outbox_Update_Status i st err) d = snd (pg_outbox_update_status i st err d)"
| "execute ul (Outbox_Increment_Retry i err) d = snd (pg_outbox_increment_retry i err d)"
| "execute ul (Outbox_Mark_Published i) d = snd (pg_outbox_mark_published i d)"
| "execute ul (Outbox_Delete i) d = snd (pg_outbox_delete i d)"
| "execute ul (Inbox_Create m) d = snd (pg_inbox_create m d)"
| "execute ul (Inbox_Create_Batch ms) d = snd (pg_inbox_create_batch ms d)"
| "execute ul (Inbox_Get_By_Id i) d = snd (pg_inbox_get_by_id i d)"
| "execute ul (Inbox_Get_By_Topic_Offset t off) d = snd (pg_inbox_get_by_topic_offset t off d)"
| "execute ul (Inbox_Update_Status i st err) d = snd (pg_inbox_update_status i st err d)"
| "execute ul (Inbox_Mark_Processed i) d = snd (pg_inbox_mark_processed i d)"
| "execute ul (Inbox_Delete i) d = snd (pg_inbox_delete i d)"
| "execute ul (Dlq_Create m) d = snd (pg_dlq_create m d)"
| "execute ul (Dlq_Get_By_Id i) d = snd (pg_dlq_get_by_id i d)"
| "execute ul (Dlq_Get_All t n off) d = snd (pg_dlq_get_all t n off d)"
| "execute ul (Dlq_Count t) d = snd (pg_dlq_count t d)"
| "execute ul (Dlq_Delete i) d = snd (pg_dlq_delete i d)"
| "execute ul Dlq_Delete_All d = snd (pg_dlq_delete_all d)"
| "execute ul (Subscriber_Create u) d = snd (pg_subscriber_create ul u d)"
| "execute ul (Subscriber_Get_By_Id i) d = snd (pg_subscriber_get_by_id i d)"
| "execute ul Subscriber_Get_All_Active d = snd (pg_subscriber_get_all_active d)"
| "execute ul (Subscriber_Update u) d = snd (pg_subscriber_update u d)"
| "execute ul (Subscriber_Delete i) d = snd (pg_subscriber_delete i d)"
| "execute ul (Subscriber_Deactivate i) d = snd (pg_subscriber_deactivate i d)"

datatype tab = Outbox_Tab | Inbox_Tab | Dlq_Tab | Subscriber_Tab

fun tab_of :: "db_call \<Rightarrow> tab" where
  "tab_of (Inbox_Create _) = Inbox_Tab"
| "tab_of (Inbox_Create_Batch _) = Inbox_Tab"
| "tab_of (Inbox_Get_By_Id _) = Inbox_Tab"
| "tab_of (Inbox_Get_By_Topic_Offset _ _) = Inbox_Tab"
| "tab_of (Inbox_Update_Status _ _ _) = Inbox_Tab"
| "tab_of (Inbox_Mark_Processed _) = Inbox_Tab"
| "tab_of (Inbox_Delete _) = Inbox_Tab"
| "tab_of (Dlq_Create _) = Dlq_Tab"
| "tab_of (Dlq_Get_By_Id _) = Dlq_Tab"
| "tab_of (Dlq_Get_All _ _ _) = Dlq_Tab"
| "tab_of (Dlq_Count _) = Dlq_Tab"
| "tab_of (Dlq_Delete _) = Dlq_Tab"
| "tab_of Dlq_Delete_All = Dlq_Tab"
| "tab_of (Subscriber_Create _) = Subscriber_Tab"
| "tab_of (Subscriber_Get_By_Id _) = Subscriber_Tab"
| "tab_of Subscriber_Get_All_Active = Subscriber_Tab"
| "tab_of (Subscriber_Update _) = Subscriber_Tab"
| "tab_of (Subscriber_Delete _) = Subscriber_Tab"
| "tab_of (Subscriber_Deactivate _) = Subscriber_Tab"
| "tab_of _ = Outbox_Tab"

section \<open>Each repository keeps to its table\<close>

lemma stmt_frame:
  assumes "\<And>d env d1. next_env d = (env, d1) \<Longrightarrow> f d1 = f d"
    and "\<And>env d1 a d2. stmt env d1 = Ok (a, d2) \<Longrightarrow> f d2 = f d1"
  shows "f (snd (outbox_stmt stmt d)) = f d" "f (snd (inbox_stmt stmt d)) = f d"
    "f (snd (dlq_stmt stmt d)) = f d" "f (snd (subscriber_stmt stmt d)) = f d"
proof -
  obtain r d' where run: "run_statement stmt d = (r, d')" by fastforce
  then have "f d' = f d" by (rule run_statement_keeps) (use assms in blast)+
  with run show "f (snd (outbox_stmt stmt d)) = f d" "f (snd (inbox_stmt stmt d)) = f d"
    "f (snd (dlq_stmt stmt d)) = f d" "f (snd (subscriber_stmt stmt d)) = f d"
    by (simp_all add: outbox_stmt_def inbox_stmt_def dlq_stmt_def subscriber_stmt_def)
qed

lemma next_env_frames:
  assumes "next_env d = (env, d1)"
  shows "db_outbox d1 = db_outbox d" "db_inbox d1 = db_inbox d" "db_dlq d1 = db_dlq d"
    "db_subscribers d1 = db_subscribers d"
  using next_env_tables [OF assms] by simp_all

lemmas outbox_frames =
  stmt_frame(1) [where f = db_inbox, OF next_env_frames(2)] stmt_frame(1) [where f = db_dlq, OF next_env_frames(3)]
  stmt_frame(1) [where f = db_subscribers, OF next_env_frames(4)]

lemmas inbox_frames =
  stmt_frame(2) [where f = db_outbox, OF next_env_frames(1)] stmt_frame(2) [where f = db_dlq, OF next_env_frames(3)]
  stmt_frame(2) [where f = db_subscribers, OF next_env_frames(4)]

lemmas dlq_frames =
  stmt_frame(3) [where f = db_outbox, OF next_env_frames(1)] stmt_frame(3) [where f = db_inbox, OF next_env_frames(2)]
  stmt_frame(3) [where f = db_subscribers, OF next_env_frames(4)]

lemmas subscriber_frames =
  stmt_frame(4) [where f = db_outbox, OF next_env_frames(1)] stmt_frame(4) [where f = db_inbox, OF next_env_frames(2)]
  stmt_frame(4) [where f = db_dlq, OF next_env_frames(3)]

named_theorems call_defs

declare
  pg_outbox_create_def [call_defs] pg_outbox_create_batch_def [call_defs] pg_outbox_get_by_id_def [call_defs]
  pg_outbox_get_pending_def [call_defs] pg_outbox_claim_pending_def [call_defs]
  pg_outbox_mark_published_batch_def [call_defs] pg_outbox_release_claim_def [call_defs]
  pg_outbox_update_status_def [call_defs] pg_outbox_increment_retry_def [call_defs]
  pg_outbox_mark_published_def [call_defs] pg_outbox_delete_def [call_defs] outbox_insert_def [call_defs]
  outbox_update_def [call_defs]
  pg_inbox_create_def [call_defs] pg_inbox_create_batch_def [call_defs] pg_inbox_get_by_id_def [call_defs]
  pg_inbox_get_by_topic_offset_def [call_defs] pg_inbox_update_status_def [call_defs]
  pg_inbox_mark_processed_def [call_defs] pg_inbox_delete_def [call_defs] inbox_insert_def [call_defs]
  pg_dlq_create_def [call_defs] pg_dlq_get_by_id_def [call_defs] pg_dlq_get_all_def [call_defs]
  pg_dlq_count_def [call_defs] pg_dlq_delete_def [call_defs] pg_dlq_delete_all_def [call_defs]
  pg_subscriber_create_def [call_defs] pg_subscriber_get_by_id_def [call_defs]
  pg_subscriber_get_all_active_def [call_defs] pg_subscriber_update_def [call_defs]
  pg_subscriber_delete_def [call_defs] pg_subscriber_deactivate_def [call_defs] subscriber_update_row_def [call_defs]

lemma execute_frame:
  "tab_of c \<noteq> Outbox_Tab \<Longrightarrow> db_outbox (execute ul c d) = db_outbox d"
  "tab_of c \<noteq> Inbox_Tab \<Longrightarrow> db_inbox (execute ul c d) = db_inbox d"
  "tab_of c \<noteq> Dlq_Tab \<Longrightarrow> db_dlq (execute ul c d) = db_dlq d"
  "tab_of c \<noteq> Subscriber_Tab \<Longrightarrow> db_subscribers (execute ul c d) = db_subscribers d"
proof -
  show "tab_of c \<noteq> Outbox_Tab \<Longrightarrow> db_outbox (execute ul c d) = db_outbox d"
    by (cases c; simp add: call_defs Let_def; (rule inbox_frames dlq_frames subscriber_frames impI)+;
        auto simp: call_defs split: sum.splits option.splits if_splits)
  show "tab_of c \<noteq> Inbox_Tab \<Longrightarrow> db_inbox (execute ul c d) = db_inbox d"
    by (cases c; simp add: call_defs Let_def; (rule outbox_frames dlq_frames subscriber_frames impI)+;
        auto simp: call_defs split: sum.splits option.splits if_splits)
  show "tab_of c \<noteq> Dlq_Tab \<Longrightarrow> db_dlq (execute ul c d) = db_dlq d"
    by (cases c; simp add: call_defs Let_def; (rule outbox_frames inbox_frames subscriber_frames impI)+;
        auto simp: call_defs split: sum.splits option.splits if_splits)
  show "tab_of c \<noteq> Subscriber_Tab \<Longrightarrow> db_subscribers (execute ul c d) = db_subscribers d"
    by (cases c; simp add: call_defs Let_def; (rule outbox_frames inbox_frames dlq_frames impI)+;
        auto simp: call_defs split: sum.splits option.splits if_splits)
qed

section \<open>What a call keeps\<close>

definition tables_ok :: "db \<Rightarrow> bool" where
  "tables_ok d \<longleftrightarrow> pg_outbox_ok d \<and> pg_inbox_ok d \<and> pg_dlq_ok d \<and> pg_subscribers_ok d"

text \<open>The two calls of the outbox that change a message whatever its status.\<close>

definition reopens :: "uuid \<Rightarrow> db_call \<Rightarrow> bool" where
  "reopens i c \<longleftrightarrow> (\<exists>st err. c = Outbox_Update_Status i st err) \<or> (\<exists>err. c = Outbox_Increment_Retry i err)"

definition keeps_entry :: "db_call \<Rightarrow> ledger \<Rightarrow> ledger \<Rightarrow> bool" where
  "keeps_entry c l l' \<longleftrightarrow>
     (\<forall>i e. l i = Some e \<longrightarrow> c \<noteq> Outbox_Delete i \<longrightarrow>
        (\<exists>e'. l' i = Some e' \<and> same_content e e' \<and>
              (en_status e = Published \<longrightarrow> \<not> reopens i c \<longrightarrow> e' = e)))"

lemma keeps_entry_refl [simp]: "keeps_entry c l l"
  by (simp add: keeps_entry_def)

lemma keeps_entry_on:
  assumes "\<And>i e. i \<in> I \<Longrightarrow> l i = Some e \<Longrightarrow> same_content e (f e) \<and> (en_status e = Published \<longrightarrow> \<not> reopens i c \<longrightarrow> f e = e)"
  shows "keeps_entry c l (on_entries I f l)"
  using assms by (auto simp: keeps_entry_def)

lemma on_entry_entries: "on_entry i f l = on_entries {i} f l"
  by (auto simp: fun_eq_iff)

lemma keeps_entry_add: "om_id ` set ms \<inter> dom l = {} \<Longrightarrow> keeps_entry c l (add_entries ms l)"
proof -
  assume new: "om_id ` set ms \<inter> dom l = {}"
  have "add_entries ms l i = l i" if "l i = Some e" for i e
  proof -
    from new that have "i \<notin> om_id ` set ms" by auto
    then have "i \<notin> dom (map_of (map (\<lambda>m. (om_id m, entry_of m)) ms))"
      by (simp add: dom_map_of_conv_image_fst image_image)
    then show ?thesis unfolding add_entries_def by (rule map_add_dom_app_simps(3))
  qed
  then show ?thesis by (simp add: keeps_entry_def)
qed

lemma keeps_entry_effect: "effect r l u l' \<Longrightarrow> keeps_entry c l u \<Longrightarrow> keeps_entry c l l'"
  by (auto dest: effect_or)

lemma keeps_entry_effect_add:
  "effect r l (add_entries ms l) l' \<Longrightarrow> (l' \<noteq> l \<longrightarrow> om_id ` set ms \<inter> dom l = {}) \<Longrightarrow> keeps_entry c l l'"
  by (cases "l' = l") (auto dest: effect_or intro: keeps_entry_add)

lemma outbox_call_keeps:
  assumes ok: "pg_outbox_ok d" and "tab_of c = Outbox_Tab"
  shows "pg_outbox_ok (execute ul c d) \<and> keeps_entry c (pg_ledger d) (pg_ledger (execute ul c d))"
proof (cases c)
  case (Outbox_Create m)
  from pg.create_law [unfolded pg_outbox_repository_simps, OF ok surjective_pairing, of m] show ?thesis
    by (auto simp: Outbox_Create intro!: keeps_entry_effect_add)
next
  case (Outbox_Create_Batch ms)
  from pg.create_batch_law [unfolded pg_outbox_repository_simps, OF ok surjective_pairing, of ms] show ?thesis
    by (auto simp: Outbox_Create_Batch intro!: keeps_entry_effect_add)
next
  case (Outbox_Get_By_Id i)
  from pg.get_by_id_law [unfolded pg_outbox_repository_simps, OF ok surjective_pairing, of i] show ?thesis
    by (simp add: Outbox_Get_By_Id)
next
  case (Outbox_Get_Pending n)
  from pg.get_pending_law [unfolded pg_outbox_repository_simps, OF ok surjective_pairing, of n] show ?thesis
    by (simp add: Outbox_Get_Pending)
next
  case (Outbox_Claim_Pending n lease)
  from pg.claim_law [unfolded pg_outbox_repository_simps, OF ok surjective_pairing, of n lease] obtain I where
    ok': "pg_outbox_ok (execute ul c d)" and led: "pg_ledger (execute ul c d) = on_entries I claimed (pg_ledger d)"
    and claim: "\<forall>i \<in> I. \<exists>e. pg_ledger d i = Some e \<and> claimable e" by (auto simp: Outbox_Claim_Pending)
  have "keeps_entry c (pg_ledger d) (on_entries I claimed (pg_ledger d))"
    by (rule keeps_entry_on) (use claim in \<open>fastforce simp: claimable_def\<close>)
  with ok' led show ?thesis by simp
next
  case (Outbox_Mark_Published_Batch ids)
  have "keeps_entry c (pg_ledger d) (on_entries (set ids) published_if_claimed (pg_ledger d))"
    by (rule keeps_entry_on) (simp add: published_if_claimed_def same_content_def)
  with pg.mark_batch_law [unfolded pg_outbox_repository_simps, OF ok surjective_pairing, of ids] show ?thesis
    by (auto simp: Outbox_Mark_Published_Batch intro: keeps_entry_effect)
next
  case (Outbox_Release_Claim i)
  have "keeps_entry c (pg_ledger d) (on_entry i released_if_claimed (pg_ledger d))"
    unfolding on_entry_entries by (rule keeps_entry_on) (simp add: released_if_claimed_def same_content_def)
  with pg.release_law [unfolded pg_outbox_repository_simps, OF ok surjective_pairing, of i] show ?thesis
    by (auto simp: Outbox_Release_Claim intro: keeps_entry_effect)
next
  case (Outbox_Update_Status i st err)
  have "keeps_entry c (pg_ledger d) (on_entry i (settled st err) (pg_ledger d))"
    unfolding on_entry_entries by (rule keeps_entry_on) (simp add: Outbox_Update_Status reopens_def)
  with pg.update_status_law [unfolded pg_outbox_repository_simps, OF ok surjective_pairing, of i st err] show ?thesis
    by (auto simp: Outbox_Update_Status intro: keeps_entry_effect)
next
  case (Outbox_Increment_Retry i err)
  have "keeps_entry c (pg_ledger d) (on_entry i (retried err) (pg_ledger d))"
    unfolding on_entry_entries by (rule keeps_entry_on) (simp add: Outbox_Increment_Retry reopens_def)
  with pg.increment_law [unfolded pg_outbox_repository_simps, OF ok surjective_pairing, of i err] show ?thesis
    by (auto simp: Outbox_Increment_Retry intro: keeps_entry_effect)
next
  case (Outbox_Mark_Published i)
  have "keeps_entry c (pg_ledger d) (on_entry i (\<lambda>e. e\<lparr>en_status := Published\<rparr>) (pg_ledger d))"
    unfolding on_entry_entries by (rule keeps_entry_on) (simp add: same_content_def)
  with pg.mark_published_law [unfolded pg_outbox_repository_simps, OF ok surjective_pairing, of i] show ?thesis
    by (auto simp: Outbox_Mark_Published intro: keeps_entry_effect)
next
  case (Outbox_Delete i)
  have "keeps_entry c (pg_ledger d) ((pg_ledger d)(i := None))"
    by (auto simp: keeps_entry_def Outbox_Delete)
  with pg.delete_law [unfolded pg_outbox_repository_simps, OF ok surjective_pairing, of i] show ?thesis
    by (auto simp: Outbox_Delete simp del: fun_upd_apply intro: keeps_entry_effect)
qed (use assms(2) in simp_all)

lemma inbox_call_ok: "pg_inbox_ok d \<Longrightarrow> tab_of c = Inbox_Tab \<Longrightarrow> pg_inbox_ok (execute ul c d)"
  using pg_inbox.create_law [OF _ surjective_pairing] pg_inbox.create_batch_law [OF _ surjective_pairing]
    pg_inbox.get_by_id_law [OF _ surjective_pairing] pg_inbox.get_by_topic_offset_law [OF _ surjective_pairing]
    pg_inbox.update_status_law [OF _ surjective_pairing] pg_inbox.mark_processed_law [OF _ surjective_pairing]
    pg_inbox.delete_law [OF _ surjective_pairing]
  unfolding pg_inbox_repository_def inbox_repository.simps
  by (cases c) auto

lemma subscriber_call_ok: "pg_subscribers_ok d \<Longrightarrow> tab_of c = Subscriber_Tab \<Longrightarrow> pg_subscribers_ok (execute ul c d)"
  using pg_sub.create_law [where ul = ul, OF _ surjective_pairing] pg_sub.get_by_id_law [where ul = ul, OF _ surjective_pairing]
    pg_sub.get_all_active_law [where ul = ul, OF _ surjective_pairing] pg_sub.update_law [where ul = ul, OF _ surjective_pairing]
    pg_sub.delete_law [where ul = ul, OF _ surjective_pairing] pg_sub.deactivate_law [where ul = ul, OF _ surjective_pairing]
  unfolding pg_subscriber_repository_def subscriber_repository.simps
  by (cases c) auto

lemma dlq_call_keeps:
  assumes ok: "pg_dlq_ok d" and "tab_of c = Dlq_Tab"
  shows "pg_dlq_ok (execute ul c d) \<and>
         (\<forall>i m. pg_parked d i = Some m \<longrightarrow> c \<noteq> Dlq_Delete i \<longrightarrow> c \<noteq> Dlq_Delete_All \<longrightarrow>
            pg_parked (execute ul c d) i = Some m)"
proof (cases c)
  case (Dlq_Create m)
  from pg_dlq.dlq_create_law [unfolded pg_dlq_repository_simps, OF ok surjective_pairing, of m] show ?thesis
    by (cases "pg_parked (execute ul c d) = pg_parked d") (auto simp: Dlq_Create domIff dest!: effect_or)
next
  case (Dlq_Get_By_Id i)
  from pg_dlq.dlq_get_by_id_law [unfolded pg_dlq_repository_simps, OF ok surjective_pairing, of i] show ?thesis
    by (simp add: Dlq_Get_By_Id)
next
  case (Dlq_Get_All t n off)
  from pg_dlq.dlq_get_all_law [unfolded pg_dlq_repository_simps, OF ok surjective_pairing, of t n off] show ?thesis
    by (simp add: Dlq_Get_All)
next
  case (Dlq_Count t)
  from pg_dlq.dlq_count_law [unfolded pg_dlq_repository_simps, OF ok surjective_pairing, of t] show ?thesis
    by (simp add: Dlq_Count)
next
  case (Dlq_Delete i)
  from pg_dlq.dlq_delete_law [unfolded pg_dlq_repository_simps, OF ok surjective_pairing, of i] show ?thesis
    by (auto simp: Dlq_Delete dest!: effect_or)
next
  case Dlq_Delete_All
  from pg_dlq.dlq_delete_all_law [unfolded pg_dlq_repository_simps, OF ok surjective_pairing] show ?thesis
    by (auto simp: Dlq_Delete_All)
qed (use assms(2) in simp_all)

text \<open>One call of any repository; \<open>tab_of\<close> decides which of the four facts speaks.\<close>

lemma execute_keeps:
  assumes "tables_ok d"
  shows "tables_ok (execute ul c d) \<and> keeps_entry c (pg_ledger d) (pg_ledger (execute ul c d)) \<and>
         (\<forall>i m. pg_parked d i = Some m \<longrightarrow> c \<noteq> Dlq_Delete i \<longrightarrow> c \<noteq> Dlq_Delete_All \<longrightarrow>
            pg_parked (execute ul c d) i = Some m)"
proof -
  note frame = execute_frame [of c ul d]
  have other: "pg_outbox_ok (execute ul c d) \<and> pg_ledger (execute ul c d) = pg_ledger d" if "tab_of c \<noteq> Outbox_Tab"
    using assms frame(1) [OF that] by (simp add: tables_ok_def pg_outbox_ok_def pg_ledger_def)
  have "pg_outbox_ok (execute ul c d) \<and> keeps_entry c (pg_ledger d) (pg_ledger (execute ul c d))"
  proof (cases "tab_of c = Outbox_Tab")
    case True
    with assms outbox_call_keeps show ?thesis by (simp add: tables_ok_def)
  qed (simp add: other)
  moreover have "pg_inbox_ok (execute ul c d)"
    using assms frame(2) inbox_call_ok [of d c ul] by (cases "tab_of c = Inbox_Tab") (simp_all add: tables_ok_def pg_inbox_ok_def)
  moreover have "pg_subscribers_ok (execute ul c d)"
    using assms frame(4) subscriber_call_ok [of d c ul]
    by (cases "tab_of c = Subscriber_Tab") (simp_all add: tables_ok_def pg_subscribers_ok_def)
  moreover have "pg_dlq_ok (execute ul c d) \<and>
      (\<forall>i m. pg_parked d i = Some m \<longrightarrow> c \<noteq> Dlq_Delete i \<longrightarrow> c \<noteq> Dlq_Delete_All \<longrightarrow>
         pg_parked (execute ul c d) i = Some m)"
  proof (cases "tab_of c = Dlq_Tab")
    case True
    with assms dlq_call_keeps show ?thesis by (simp add: tables_ok_def)
  next
    case False
    from assms frame(3) [OF False] show ?thesis by (simp add: tables_ok_def pg_dlq_ok_def pg_parked_def)
  qed
  ultimately show ?thesis by (simp add: tables_ok_def)
qed

section \<open>Any interleaving\<close>

text \<open>C6: Whatever tasks share the database, and however their calls interleave with each other and with
  failures, the keys and checks of the four tables hold. A message of the outbox stays, with its topic,
  key, headers and payload, until a call deletes that message; once published it stays exactly as it
  is, unless one of the two calls that do not look at the status changes it; and a parked message
  stays until it is deleted.\<close>

theorem interleaving_keeps_messages:
  assumes "tables_ok d"
  shows "let d' = fold (execute ul) cs d
         in tables_ok d' \<and>
            (\<forall>i e. pg_ledger d i = Some e \<and> Outbox_Delete i \<notin> set cs \<longrightarrow>
               (\<exists>e'. pg_ledger d' i = Some e' \<and> same_content e e' \<and>
                     (en_status e = Published \<and> (\<forall>c \<in> set cs. \<not> reopens i c) \<longrightarrow> e' = e))) \<and>
            (\<forall>i m. pg_parked d i = Some m \<and> Dlq_Delete i \<notin> set cs \<and> Dlq_Delete_All \<notin> set cs \<longrightarrow>
               pg_parked d' i = Some m)"
  using assms
proof (induction cs arbitrary: d)
  case Nil
  then show ?case by simp
next
  case (Cons c cs)
  let ?d1 = "execute ul c d"
  let ?d' = "fold (execute ul) cs ?d1"
  from execute_keeps [OF Cons.prems, of ul c] have ok1: "tables_ok ?d1"
    and one: "keeps_entry c (pg_ledger d) (pg_ledger ?d1)"
    and park: "\<And>i m. pg_parked d i = Some m \<Longrightarrow> c \<noteq> Dlq_Delete i \<Longrightarrow> c \<noteq> Dlq_Delete_All \<Longrightarrow> pg_parked ?d1 i = Some m"
    by blast+
  note rest = Cons.IH [OF ok1, unfolded Let_def]
  have "\<exists>e'. pg_ledger ?d' i = Some e' \<and> same_content e e' \<and>
      (en_status e = Published \<and> (\<forall>c \<in> set (c # cs). \<not> reopens i c) \<longrightarrow> e' = e)"
    if e: "pg_ledger d i = Some e" "Outbox_Delete i \<notin> set (c # cs)" for i e
  proof -
    from one e obtain e1 where e1: "pg_ledger ?d1 i = Some e1" "same_content e e1"
      "en_status e = Published \<longrightarrow> \<not> reopens i c \<longrightarrow> e1 = e" by (auto simp: keeps_entry_def)
    from e(2) have "Outbox_Delete i \<notin> set cs" by simp
    with rest e1(1) obtain e' where e': "pg_ledger ?d' i = Some e'" "same_content e1 e'"
      "en_status e1 = Published \<and> (\<forall>c \<in> set cs. \<not> reopens i c) \<longrightarrow> e' = e1" by blast
    with e1 same_content_trans [OF e1(2) e'(2)] show ?thesis by auto
  qed
  moreover have "pg_parked ?d' i = Some m"
    if "pg_parked d i = Some m" "Dlq_Delete i \<notin> set (c # cs)" "Dlq_Delete_All \<notin> set (c # cs)" for i m
  proof -
    from park [OF that(1)] that(2,3) have "pg_parked ?d1 i = Some m" by auto
    with rest that(2,3) show ?thesis by auto
  qed
  moreover have "fold (execute ul) (c # cs) d = ?d'" by simp
  moreover from rest have "tables_ok ?d'" by blast
  ultimately show ?case unfolding Let_def by presburger
qed

theorem interleaving_keeps_messages_witness:
  "let d = sample_db [sample_outbox_row 1 ''published'' 0, sample_outbox_row 2 ''pending'' 0];
       d' = fold (execute decimal_uuids)
              [Outbox_Claim_Pending 10 300, Outbox_Release_Claim 1, Inbox_Delete 1, Outbox_Delete 2,
               Outbox_Mark_Published_Batch [1, 2]] d
   in tables_ok d' \<and> pg_ledger d' 1 = pg_ledger d 1"
proof -
  let ?d = "sample_db [sample_outbox_row 1 ''published'' 0, sample_outbox_row 2 ''pending'' 0]"
  let ?cs = "[Outbox_Claim_Pending 10 300, Outbox_Release_Claim 1, Inbox_Delete 1, Outbox_Delete 2,
      Outbox_Mark_Published_Batch [1, 2]]"
  have "pg_outbox_ok ?d" by (simp add: sample_outbox_ok)
  moreover have "pg_inbox_ok ?d" "pg_dlq_ok ?d" "pg_subscribers_ok ?d"
    using empty_inbox_ok empty_subscribers_ok
    by (simp_all add: pg_inbox_ok_def pg_dlq_ok_def pg_subscribers_ok_def sample_db_def empty_db_def table_ok_def dlq_unique_def)
  ultimately have ok: "tables_ok ?d" by (simp add: tables_ok_def)
  have led: "pg_ledger ?d 1 = Some (entry_of_row (sample_outbox_row 1 ''published'' 0))"
    by (simp add: pg_ledger_def row_at_def sample_outbox_row_def)
  have st: "en_status (entry_of_row (sample_outbox_row 1 ''published'' 0)) = Published"
    by (simp add: entry_of_row_status sample_outbox_row_def message_status_of_string_def)
  have calls: "Outbox_Delete 1 \<notin> set ?cs" "\<forall>c \<in> set ?cs. \<not> reopens 1 c" by (simp_all add: reopens_def)
  from interleaving_keeps_messages [OF ok, of decimal_uuids ?cs] have "tables_ok (fold (execute decimal_uuids) ?cs ?d)"
    and "\<forall>i e. pg_ledger ?d i = Some e \<and> Outbox_Delete i \<notin> set ?cs \<longrightarrow>
      (\<exists>e'. pg_ledger (fold (execute decimal_uuids) ?cs ?d) i = Some e' \<and> same_content e e' \<and>
            (en_status e = Published \<and> (\<forall>c \<in> set ?cs. \<not> reopens i c) \<longrightarrow> e' = e))"
    unfolding Let_def by blast+
  with led st calls have "pg_ledger (fold (execute decimal_uuids) ?cs ?d) 1 = pg_ledger ?d 1" by metis
  with \<open>tables_ok (fold (execute decimal_uuids) ?cs ?d)\<close> show ?thesis by (simp only: Let_def)
qed

end
