(* ===== verification/End_To_End.thy ===== *)
theory End_To_End
  imports Kafka Rest_Routes
begin

text \<open>
  The way of a message through the whole publishing side: from a REST request over the outbox on
  Postgres and one round of the publisher to the Kafka driver.
\<close>

section \<open>A driver that accepts\<close>

text \<open>The driver's state is the list of the records it was given.\<close>

definition accepts_all :: "base_record list kafka_driver \<Rightarrow> bool" where
  "accepts_all drv \<longleftrightarrow> (\<forall>rec k. kd_send drv rec k = (Ok (), k @ [rec]))"

definition kafka_record :: "serde \<Rightarrow> outbox_message \<Rightarrow> base_record" where
  "kafka_record sd m =
     \<lparr>kr_topic = om_topic m, kr_payload = (case sd_to_vec sd (om_payload m) of Ok p \<Rightarrow> p | Err _ \<Rightarrow> []),
      kr_key = om_partition_key m, kr_partition = None, kr_headers = None\<rparr>"

lemma accepting_sink:
  assumes "accepts_all drv" and "sd_to_vec sd (om_payload m) = Ok p"
  shows "kafka_message_sink drv (outbound_to (om_topic m) m p) k = (Ok (), k @ [kafka_record sd m])"
  using assms by (simp add: kafka_message_sink_answer accepts_all_def outbound_to_def kafka_record_def)

lemma published_twice [simp]: "published_if_claimed (published_if_claimed e) = published_if_claimed e"
  by (simp add: published_if_claimed_def)

text \<open>A round over such a driver publishes its whole batch, each message once and in order.\<close>

lemma spec_round_accepts:
  assumes "accepts_all drv" and "\<And>m. m \<in> set ms \<Longrightarrow> is_ok (sd_to_vec sd (om_payload m))"
  shows "spec_round sd fl (kafka_message_sink drv) retry ms l k =
           (on_entries (om_id ` set ms) published_if_claimed l, k @ map (kafka_record sd) ms)"
  using assms(2)
proof (induction ms arbitrary: l k)
  case Nil
  then show ?case by simp
next
  case (Cons m ms)
  obtain p where p: "sd_to_vec sd (om_payload m) = Ok p"
    using Cons.prems [of m] by (cases "sd_to_vec sd (om_payload m)") auto
  have step: "on_entries (om_id ` set ms) published_if_claimed (on_entry (om_id m) published_if_claimed l) =
      on_entries (om_id ` set (m # ms)) published_if_claimed l"
    by (intro ext) (auto simp: option.map_comp o_def)
  show ?case
    by (simp only: spec_round.simps p sum.case accepting_sink [OF assms(1) p] prod.case Cons.IH [OF Cons.prems] list.set_intros step list.map append_assoc
        append_Cons append_Nil)
qed

section \<open>From the request to the record\<close>

lemma pending_row:
  assumes "pg_outbox_ok d" and "pg_ledger d i = Some e" and "en_status e = Pending"
  shows "\<exists>r \<in> set (db_outbox d). ow_id r = i \<and> entry_of_row r = e \<and> claim_candidate now lease r"
proof -
  from assms(2) obtain r where r: "row_at ow_id (db_outbox d) i = Some r" "entry_of_row r = e"
    by (auto simp: pg_ledger_def)
  then have mem: "r \<in> set (db_outbox d)" "ow_id r = i" by (auto dest: row_at_key)
  with assms(1) have "outbox_row_check r" by (auto simp: pg_outbox_ok_def list_all_iff)
  then have "ow_status r = message_status_to_string (message_status_of_string (ow_status r))"
    using status.to_of by (simp add: outbox_row_check_def)
  with assms(3) r(2) have "ow_status r = ''pending''" by (auto simp: entry_of_row_status)
  with mem r(2) show ?thesis by (auto simp: claim_candidate_def)
qed

lemma claimed_printable:
  assumes "pg_outbox_ok d" and "pg_outbox_claim_pending n lease d = (Ok ms, d')"
    and "\<And>i e. pg_ledger d i = Some e \<Longrightarrow> is_ok (sd_to_vec sd (en_payload e))" and "m \<in> set ms"
  shows "is_ok (sd_to_vec sd (om_payload m))"
proof -
  from pg_outbox_claim_law [OF assms(1,2)] assms(4) have "\<exists>e. pg_ledger d (om_id m) = Some e \<and> entry_of m = claimed e"
    by (fastforce dest: sym)
  then obtain e where e: "pg_ledger d (om_id m) = Some e" "entry_of m = claimed e" by blast
  from e(2) have "om_payload m = en_payload e" by (cases e) (simp add: entry_of_def claimed_def)
  with assms(3) [OF e(1)] show ?thesis by simp
qed

text \<open>C7: From REST to Kafka. When a publish request was answered with success and, afterwards, a round
  of the publisher runs on an undisturbed database (no statement fails, no row is locked by another session,
  the clock stands still) with a batch large enough for all that is due and a driver that accepts, then the
  driver receives exactly the records of the batch, each message once, and among them one with the request's
  topic and key whose payload is the stored value printed: the value that the request's own payload, in
  either form, reads back as. The message is published under the identifier the client was given.\<close>

theorem rest_to_kafka:
  assumes ok: "pg_outbox_ok d"
    and run: "rest_publish b64 ul sd (with_kafka ul acquire events kafka) body rt d = (Ok resp, rt', d1)"
    and calm: "undisturbed d1" 
    and printable: "\<And>i e. pg_ledger d1 i = Some e \<Longrightarrow> is_ok (sd_to_vec sd (en_payload e))"
    and small: "\<And>i e. pg_ledger d1 i = Some e \<Longrightarrow> sint (en_retries e) < i32_max"
    and room: "int (length (filter (claim_candidate (db_now d1) claim_lease_secs) (db_outbox d1))) \<le> sint n"
    and drv: "accepts_all drv"
    and round: "publish_pending sd fl pg_outbox_repository (kafka_message_sink drv) retry n d1 k = (r, d2, k')"
  shows "r = Ok () \<and>
         (\<exists>batch m. k' = k @ map (kafka_record sd) batch \<and> distinct (map om_id batch) \<and> m \<in> set batch \<and>
            jpr_message_id resp = ul_show ul (om_id m) \<and>
            kr_topic (kafka_record sd m) = unwrap_or (jpq_topic body) [] \<and>
            requested_payload b64 sd body (om_payload m) \<and> Ok (kr_payload (kafka_record sd m)) = sd_to_vec sd (om_payload m) \<and>
            kr_key (kafka_record sd m) = (if unwrap_or (jpq_partition_key body) [] = [] then None else jpq_partition_key body) \<and>
            (\<exists>e. pg_ledger d2 (om_id m) = Some e \<and> en_status e = Published))"
proof -
  from rest_publish_law [OF ok run] obtain m0 where
    ok1: "pg_outbox_ok d1" and stored: "pg_ledger d1 (om_id m0) = Some (entry_of m0)" "om_status m0 = Pending"
    and ans: "jpr_message_id resp = ul_show ul (om_id m0)"
    and fields: "requested_payload b64 sd body (om_payload m0)"
      "om_topic m0 = unwrap_or (jpq_topic body) []"
      "om_partition_key m0 = (if unwrap_or (jpq_partition_key body) [] = [] then None else jpq_partition_key body)"
    by (elim conjE exE) (metis fun_upd_same)
  from stored have "en_status (entry_of m0) = Pending" by (simp add: entry_of_def)
  from pending_row [OF ok1 stored(1) this] obtain row where row: "row \<in> set (db_outbox d1)" "ow_id row = om_id m0"
    "entry_of_row row = entry_of m0" and due: "claim_candidate (db_now d1) claim_lease_secs row" by blast
  from room have n: "0 \<le> sint n" by linarith
  from claim_due_run [OF ok1 calm due row(1) room] row obtain batch dc where
    claim: "pg_outbox_claim_pending n claim_lease_secs d1 = (Ok batch, dc)" and mem: "om_id m0 \<in> om_id ` set batch"
    and entry: "pg_ledger dc (om_id m0) = Some (claimed (entry_of m0))" by auto
  from pg_outbox_claim_law [OF ok1 claim] have dist: "distinct (map om_id batch)"
    and here: "\<And>m. m \<in> set batch \<Longrightarrow> pg_ledger dc (om_id m) = Some (entry_of m)" by auto
  from mem obtain m where m: "m \<in> set batch" "om_id m = om_id m0" by auto
  with here entry have "entry_of m = claimed (entry_of m0)" by fastforce
  then have same: "om_topic m = om_topic m0" "om_payload m = om_payload m0" "om_partition_key m = om_partition_key m0"
    by (simp_all add: entry_of_def claimed_def)
  have prints: "is_ok (sd_to_vec sd (om_payload m'))" if "m' \<in> set batch" for m'
    by (rule claimed_printable [OF ok1 claim _ that]) (rule printable)
  have "r = Ok () \<and> pg_outbox_ok d2 \<and> undisturbed d2 \<and>
      (\<exists>batch s1. or_claim_pending pg_outbox_repository n claim_lease_secs d1 = (Ok batch, s1) \<and>
         pg_ledger s1 = on_entries (om_id ` set batch) claimed (pg_ledger d1) \<and>
         (pg_ledger d2, k') = spec_round sd fl (kafka_message_sink drv) retry batch (pg_ledger s1) k)"
    by (rule pg.publish_pending_refines [OF ok1 calm n _ _ round]) (rule printable, assumption, rule small)
  with claim have r: "r = Ok ()"
    and spec: "(pg_ledger d2, k') = spec_round sd fl (kafka_message_sink drv) retry batch (pg_ledger dc) k"
    by (auto simp: pg_outbox_repository_simps)
  from spec have k': "k' = k @ map (kafka_record sd) batch"
    and led: "pg_ledger d2 = on_entries (om_id ` set batch) published_if_claimed (pg_ledger dc)"
    by (simp_all add: spec_round_accepts [OF drv prints])
  have "\<exists>e. pg_ledger d2 (om_id m) = Some e \<and> en_status e = Published"
    using m mem entry by (auto simp: led published_if_claimed_def claimed_def)
  moreover have "Ok (kr_payload (kafka_record sd m)) = sd_to_vec sd (om_payload m)"
    using prints [OF m(1)] by (cases "sd_to_vec sd (om_payload m)") (auto simp: kafka_record_def)
  moreover have "kr_topic (kafka_record sd m) = om_topic m" "kr_key (kafka_record sd m) = om_partition_key m"
    by (simp_all add: kafka_record_def)
  ultimately show ?thesis
    using r k' dist m ans fields same by (intro conjI exI [of _ batch] exI [of _ m]) simp_all
qed

definition logging_driver :: "base_record list kafka_driver" where
  "logging_driver = \<lparr>kd_send = (\<lambda>rec k. (Ok (), k @ [rec])), kd_show = (\<lambda>e. ''none'')\<rparr>"

theorem rest_to_kafka_witness:
  "let d1 = snd (snd (rest_publish char_base64 decimal_uuids tagged_serde sample_service
         (sample_rest_publish (Some JNull) None) counting_runtime (sample_db [])));
       round = publish_pending tagged_serde exact_floats pg_outbox_repository (kafka_message_sink logging_driver)
         (retry_strategy_new default_retry_config) 10 d1 []
   in fst round = Ok () \<and> length (snd (snd round)) = 1 \<and>
      (\<exists>rec \<in> set (snd (snd round)). kr_topic rec = ''orders'' \<and> kr_payload rec = [1])"
proof -
  let ?body = "sample_rest_publish (Some JNull) None"
  let ?run = "rest_publish char_base64 decimal_uuids tagged_serde sample_service ?body counting_runtime (sample_db [])"
  let ?d1 = "snd (snd ?run)"
  let ?round = "publish_pending tagged_serde exact_floats pg_outbox_repository (kafka_message_sink logging_driver)
      (retry_strategy_new default_retry_config) 10 ?d1 []"
  have ok: "pg_outbox_ok (sample_db [])" by (simp add: sample_outbox_ok)
  have ev: "is_ok (fst ?run) \<and> undisturbed ?d1 \<and> length (db_outbox ?d1) = 1 \<and>
      list_all (\<lambda>r. ow_payload r = JNull \<and> ow_retry_count r = 0) (db_outbox ?d1) \<and> length (snd (snd ?round)) = 1"
    by code_simp
  then obtain resp where run: "?run = (Ok resp, fst (snd ?run), ?d1)"
    by (cases "fst ?run") (simp_all, metis prod.collapse)
  have entries: "en_payload e = JNull \<and> en_retries e = 0" if "pg_ledger ?d1 i = Some e" for i e
  proof -
    from that obtain r where "r \<in> set (db_outbox ?d1)" "entry_of_row r = e" by (auto simp: pg_ledger_def dest: row_at_key)
    with ev show ?thesis by (auto simp: list_all_iff entry_of_row_def entry_of_def outbox_message_of_row_def)
  qed
  have "int (length (filter (claim_candidate (db_now ?d1) claim_lease_secs) (db_outbox ?d1))) \<le> 1"
    using length_filter_le [of "claim_candidate (db_now ?d1) claim_lease_secs" "db_outbox ?d1"] ev by linarith
  then have room: "int (length (filter (claim_candidate (db_now ?d1) claim_lease_secs) (db_outbox ?d1))) \<le> sint (10 :: i64)"
    by simp
  have print: "is_ok (sd_to_vec tagged_serde (en_payload e))" if "pg_ledger ?d1 i = Some e" for i e
    using entries [OF that] by (simp add: tagged_serde_def)
  have small: "sint (en_retries e) < i32_max" if "pg_ledger ?d1 i = Some e" for i e
    using entries [OF that] by (simp add: i32_max_def)
  have drv: "accepts_all logging_driver" by (simp add: accepts_all_def logging_driver_def)
  obtain q d2 k' where round: "?round = (q, d2, k')" by (metis prod_cases3)
  from ev have calm: "undisturbed ?d1" by blast
  have "q = Ok () \<and>
      (\<exists>batch m. k' = [] @ map (kafka_record tagged_serde) batch \<and> distinct (map om_id batch) \<and> m \<in> set batch \<and>
         jpr_message_id resp = ul_show decimal_uuids (om_id m) \<and>
         kr_topic (kafka_record tagged_serde m) = unwrap_or (jpq_topic ?body) [] \<and>
         requested_payload char_base64 tagged_serde ?body (om_payload m) \<and>
         Ok (kr_payload (kafka_record tagged_serde m)) = sd_to_vec tagged_serde (om_payload m) \<and>
         kr_key (kafka_record tagged_serde m) =
           (if unwrap_or (jpq_partition_key ?body) [] = [] then None else jpq_partition_key ?body) \<and>
         (\<exists>e. pg_ledger d2 (om_id m) = Some e \<and> en_status e = Published))"
    using run unfolding sample_service_def
    by (rule rest_to_kafka [OF ok _ calm [unfolded sample_service_def]
          print [unfolded sample_service_def] small [unfolded sample_service_def] room [unfolded sample_service_def] drv
          round [unfolded sample_service_def]])
  then obtain batch m where q: "q = Ok ()" and k': "k' = map (kafka_record tagged_serde) batch" and m: "m \<in> set batch"
    and rec: "kr_topic (kafka_record tagged_serde m) = ''orders''"
      "Ok (kr_payload (kafka_record tagged_serde m)) = sd_to_vec tagged_serde JNull"
    by (auto simp: sample_rest_publish_def requested_payload_def tagged_serde_def parse_payload_def split: sum.splits)
  from rec(2) have "kr_payload (kafka_record tagged_serde m) = [1]" by (simp add: tagged_serde_def)
  with m rec(1) k' have "\<exists>rec \<in> set k'. kr_topic rec = ''orders'' \<and> kr_payload rec = [1]" by auto
  moreover from ev round have "length k' = 1" by simp
  ultimately show ?thesis unfolding Let_def round using q by simp
qed

end
