(* ===== verification/Outbox_Drain.thy ===== *)
theory Outbox_Drain
  imports Outbox_System
begin

text \<open>
  Progress of the background task of \<open>publisher.rs\<close> on the Postgres repository when the database
  answers: every attempt uses up part of a message's budget, so that within a bounded number of ticks
  the whole outbox is settled, and an outage of the broker that is shorter than the retry ladder costs
  no message. The batch may be smaller than the outbox.
\<close>

section \<open>One attempt at a message\<close>

text \<open>The abstract attempt: what the sink's answer makes of an entry.\<close>

definition attempted :: "retry_strategy \<Rightarrow> (sink_error + unit) \<Rightarrow> entry \<Rightarrow> entry \<Rightarrow> bool" where
  "attempted retry a e e' \<longleftrightarrow> same_content e e' \<and>
     (case a of
        Ok _ \<Rightarrow> en_status e' = Published \<and> en_retries e' = en_retries e
      | Err (Backpressure _) \<Rightarrow> en_status e' = Pending \<and> en_retries e' = en_retries e
      | Err (Transport _) \<Rightarrow>
          (if max 0 (sint (en_retries e)) < int (unat (rs_max_retries retry))
           then en_status e' = Retrying \<and> en_retries e' = en_retries e + 1
           else en_status e' = (if rs_enable_dlq retry then Dlq else Failed) \<and> en_retries e' = en_retries e))"

lemma attempted_claimed [simp]: "attempted retry a (claimed e) e' = attempted retry a e e'"
proof -
  have "same_content (claimed e) e' = same_content e e'" "en_retries (claimed e) = en_retries e"
    by (simp_all add: claimed_def same_content_def)
  then show ?thesis by (simp only: attempted_def)
qed

lemma settle_entry_attempted:
  assumes "en_status (entry_of m) = Publishing"
  shows "attempted retry (Err err) (entry_of m) (settle_entry fl retry m err (entry_of m))"
proof -
  have n: "en_retries (entry_of m) = om_retry_count m" by (simp add: entry_of_def)
  show ?thesis
    using assms should_retry_attempts [of retry m]
    by (auto simp: evaluate_publish_failure_def is_dlq_enabled_def dlq_topic_def attempted_def settle_entry_def n released_if_claimed_def retried_def settled_def same_content_def
        split: sink_error.split publish_failure_decision.splits)
qed

lemma published_attempted:
  "en_status e = Publishing \<Longrightarrow> attempted retry (Ok ()) e (published_if_claimed e)"
  by (simp add: attempted_def published_if_claimed_def same_content_def)

lemma spec_round_attempts:
  assumes "\<And>m. m \<in> set ms \<Longrightarrow> is_ok (sd_to_vec sd (om_payload m))" and "distinct (map om_id ms)"
    and "\<And>m. m \<in> set ms \<Longrightarrow> l (om_id m) = Some (entry_of m) \<and> om_status m = Publishing"
  shows "(i \<notin> om_id ` set ms \<longrightarrow> fst (spec_round sd fl sink retry ms l k) i = l i) \<and>
         (\<forall>m \<in> set ms. \<exists>ob k1 e'. fst (spec_round sd fl sink retry ms l k) (om_id m) = Some e' \<and>
            attempted retry (fst (sink ob k1)) (entry_of m) e')"
  using assms
proof (induction ms arbitrary: l k i)
  case Nil
  then show ?case by simp
next
  case (Cons m ms)
  obtain p where p: "sd_to_vec sd (om_payload m) = Ok p"
    using Cons.prems(1) [of m] by (cases "sd_to_vec sd (om_payload m)") auto
  have dist: "distinct (map om_id ms)" and new: "om_id m \<notin> om_id ` set ms" using Cons.prems(2) by auto
  have "om_status m = Publishing" "l (om_id m) = Some (entry_of m)" using Cons.prems(3) [of m] by simp_all
  then have st: "en_status (entry_of m) = Publishing" and here: "l (om_id m) = Some (entry_of m)"
    by (simp_all add: entry_of_def)
  obtain a k1 where a: "sink (outbound_to (om_topic m) m p) k = (a, k1)" by fastforce
  define f where "f = (case a of Ok _ \<Rightarrow> published_if_claimed | Err e \<Rightarrow> settle_entry fl retry m e)"
  have one: "attempted retry a (entry_of m) (f (entry_of m))"
    using settle_entry_attempted [OF st] published_attempted [OF st] by (simp add: f_def split: sum.split)
  obtain k2 where step: "spec_round sd fl sink retry (m # ms) l k = spec_round sd fl sink retry ms (on_entry (om_id m) f l) k2"
    using p a by (cases a) (auto simp: f_def)
  have rest: "on_entry (om_id m) f l (om_id x) = Some (entry_of x) \<and> om_status x = Publishing" if "x \<in> set ms" for x
  proof -
    from that new have "om_id x \<noteq> om_id m" by (metis imageI)
    with Cons.prems(3) [of x] that show ?thesis by simp
  qed
  have IH: "(j \<notin> om_id ` set ms \<longrightarrow>
            fst (spec_round sd fl sink retry ms (on_entry (om_id m) f l) k2) j = on_entry (om_id m) f l j) \<and>
         (\<forall>x \<in> set ms. \<exists>ob k1 e'. fst (spec_round sd fl sink retry ms (on_entry (om_id m) f l) k2) (om_id x) = Some e' \<and>
            attempted retry (fst (sink ob k1)) (entry_of x) e')" for j
    using Cons.prems(1) dist rest by (intro Cons.IH) auto
  have "fst (spec_round sd fl sink retry (m # ms) l k) (om_id m) = Some (f (entry_of m))"
    using IH [of "om_id m"] new here by (simp add: step del: spec_round.simps)
  moreover have "attempted retry (fst (sink (outbound_to (om_topic m) m p) k)) (entry_of m) (f (entry_of m))"
    using one a by simp
  moreover have "fst (spec_round sd fl sink retry (m # ms) l k) i = l i" if "i \<notin> om_id ` set (m # ms)"
    using IH [of i] that by (auto simp: step simp del: spec_round.simps)
  ultimately show ?case using IH by (auto simp: step simp del: spec_round.simps)
qed

section \<open>One round\<close>

text \<open>A message that waits to be sent, and the table in a state from which the database answers.\<close>

definition waiting :: "entry \<Rightarrow> bool" where
  "waiting e = (en_status e \<in> {Pending, Retrying})"

definition drainable :: "db \<Rightarrow> bool" where
  "drainable d \<longleftrightarrow> pg_outbox_ok d \<and> undisturbed d \<and> list_all (\<lambda>r. sint (ow_retry_count r) < i32_max) (db_outbox d)"

lemma drainable_small: "drainable d \<Longrightarrow> pg_ledger d i = Some e \<Longrightarrow> sint (en_retries e) < i32_max"
  unfolding drainable_def by (blast intro: few_retries [unfolded Ball_set])

lemma drainable_iff:
  "drainable d \<longleftrightarrow> pg_outbox_ok d \<and> undisturbed d \<and> (\<forall>i e. pg_ledger d i = Some e \<longrightarrow> sint (en_retries e) < i32_max)"
proof
  assume R: "pg_outbox_ok d \<and> undisturbed d \<and> (\<forall>i e. pg_ledger d i = Some e \<longrightarrow> sint (en_retries e) < i32_max)"
  have "sint (ow_retry_count r) < i32_max" if "r \<in> set (db_outbox d)" for r
  proof -
    from R pg_ledger_row that have "pg_ledger d (ow_id r) = Some (entry_of_row r)" by blast
    with R have "sint (en_retries (entry_of_row r)) < i32_max" by blast
    then show ?thesis by (simp add: entry_of_row_def entry_of_def outbox_message_of_row_def)
  qed
  with R show "drainable d" by (simp add: drainable_def list_all_iff)
qed (use drainable_small in \<open>auto simp: drainable_def\<close>)

lemma waiting_row:
  assumes "pg_outbox_ok d" and "pg_ledger d i = Some e" and "waiting e"
  shows "\<exists>r \<in> set (db_outbox d). ow_id r = i \<and> claim_candidate now lease r"
proof -
  from assms(2) obtain r where r: "row_at ow_id (db_outbox d) i = Some r" "entry_of_row r = e"
    by (auto simp: pg_ledger_def)
  then have mem: "r \<in> set (db_outbox d)" "ow_id r = i" by (auto dest: row_at_key)
  with assms(1) have "outbox_row_check r" by (auto simp: pg_outbox_ok_def list_all_iff)
  then have "ow_status r = message_status_to_string (message_status_of_string (ow_status r))"
    using status.to_of by (simp add: outbox_row_check_def)
  with assms(3) r(2) have "ow_status r \<in> {''pending'', ''retrying''}"
    by (auto simp: waiting_def entry_of_row_status)
  with mem show ?thesis by (auto simp: claim_candidate_def)
qed

text \<open>A message that the next claim may take.\<close>

definition due :: "db \<Rightarrow> bool" where
  "due d = list_ex (claim_candidate (db_now d) claim_lease_secs) (db_outbox d)"

lemma waiting_due: "pg_outbox_ok d \<Longrightarrow> pg_ledger d i = Some e \<Longrightarrow> waiting e \<Longrightarrow> due d"
  using waiting_row unfolding due_def list_ex_iff by blast

lemma calm_claim:
  assumes "pg_outbox_ok d" and "undisturbed d" and "0 < sint n"
    and claim: "pg_outbox_claim_pending n claim_lease_secs d = (Ok ms, d1)"
  shows "due d \<Longrightarrow> ms \<noteq> []" and "ms = [] \<Longrightarrow> d1 = d"
proof -
  let ?due = "filter (claim_candidate (db_now d) claim_lease_secs) (db_outbox d)"
  let ?rows = "take (nat (sint n)) (sort_key ow_created_at ?due)"
  let ?ids = "map ow_id ?rows"
  have sel: "claim_select n claim_lease_secs calm_env d = Ok ?ids"
    using assms(3) by (simp add: claim_select_def limit_rows_def calm_env_def)
  obtain d2 where upd: "outbox_update (\<lambda>x. ow_id x \<in> set ?ids) (\<lambda>r. r\<lparr>ow_status := ''publishing''\<rparr>) d = Ok d2"
    using outbox_update_succeeds [OF assms(1,2), of "\<lambda>r. r\<lparr>ow_status := ''publishing''\<rparr>" "\<lambda>x. ow_id x \<in> set ?ids"]
    by (auto simp: outbox_row_checks)
  let ?ms = "map outbox_message_of_row (filter (\<lambda>x. ow_id x \<in> set ?ids) (db_outbox d2))"
  have "pg_outbox_claim_pending n claim_lease_secs d = (Ok ?ms, d2)"
    by (simp only: pg_outbox_claim_pending_def outbox_stmt_undisturbed [OF assms(2)] sel sum.case upd map_ok_simps prod.case)
  with claim have ms: "ms = ?ms" and d1: "d1 = d2" by (metis prod.inject sum.inject(2))+
  have "map ow_id (db_outbox d2) = map ow_id (db_outbox d)"
    using upd by (auto simp: outbox_update_def update_rows_Ok)
  then have same_ids: "ow_id ` set (db_outbox d2) = ow_id ` set (db_outbox d)" by (metis list.set_map)
  have found: "ms \<noteq> []" if "?rows \<noteq> []"
  proof -
    from that obtain x where x: "x \<in> set ?rows" by (meson hd_in_set)
    then have "x \<in> set (db_outbox d)" by (auto dest: in_set_takeD)
    with same_ids obtain y where "y \<in> set (db_outbox d2)" "ow_id x = ow_id y" by blast
    moreover from x have "ow_id x \<in> set ?ids" unfolding list.set_map by (rule imageI)
    ultimately have "y \<in> set (filter (\<lambda>x. ow_id x \<in> set ?ids) (db_outbox d2))" by (auto simp: set_filter simp del: list.set_map)
    then have "outbox_message_of_row y \<in> set ms" unfolding ms by simp
    then show ?thesis by (cases ms) simp_all
  qed
  show "ms \<noteq> []" if "due d"
  proof (rule found)
    from that obtain r where "r \<in> set (sort_key ow_created_at ?due)" by (auto simp: due_def list_ex_iff)
    then have "sort_key ow_created_at ?due \<noteq> []" by force
    with assms(3) show "?rows \<noteq> []" by (metis take_eq_Nil less_nat_zero_code zless_nat_eq_int_zless of_nat_0 zero_less_nat_eq order_less_irrefl)
  qed
  show "d1 = d" if "ms = []"
  proof -
    from that found have none: "?rows = []" by blast
    have "outbox_update (\<lambda>x. False) (\<lambda>r. r\<lparr>ow_status := ''publishing''\<rparr>) d = Ok d2"
      using upd unfolding none by simp
    then show ?thesis by (auto simp: d1 outbox_update_def update_rows_Ok)
  qed
qed

text \<open>What a round does to the ledger when the database answers: a part \<open>I\<close> of the claimable entries is
  attempted, each with an answer the sink gave. It is not empty while a message is due; when it is, the round
  did nothing at all.\<close>

definition round_effect :: "'k message_sink \<Rightarrow> retry_strategy \<Rightarrow> ledger \<Rightarrow> ledger \<Rightarrow> uuid set \<Rightarrow> bool" where
  "round_effect sink retry l l' I \<longleftrightarrow>
     (\<forall>i \<in> I. \<exists>e e' ob k. l i = Some e \<and> claimable e \<and> l' i = Some e' \<and> attempted retry (fst (sink ob k)) e e') \<and>
     (\<forall>i. i \<notin> I \<longrightarrow> l' i = l i)"

lemma round_effect_entry:
  assumes "round_effect sink retry l l' I" and "l i = Some e"
  obtains "i \<notin> I" "l' i = Some e"
    | e' ob k where "i \<in> I" "claimable e" "l' i = Some e'" "attempted retry (fst (sink ob k)) e e'"
proof (cases "i \<in> I")
  case True
  with assms obtain e' ob k where "claimable e" "l' i = Some e'" "attempted retry (fst (sink ob k)) e e'"
    unfolding round_effect_def by fastforce
  with True that(2) show thesis by blast
next
  case False
  with assms that(1) show thesis by (simp add: round_effect_def)
qed

lemma round_effect_dom:
  assumes "round_effect sink retry l l' I"
  shows "dom l' = dom l"
proof (rule set_eqI)
  fix i show "i \<in> dom l' \<longleftrightarrow> i \<in> dom l"
    using assms by (cases "i \<in> I") (fastforce simp: round_effect_def dom_def)+
qed

lemma calm_round:
  assumes "drainable d" and "0 < sint n" and to_vec: "\<And>v. is_ok (sd_to_vec sd v)"
    and run: "publish_pending sd fl pg_outbox_repository sink retry n d k = (r, d', k')"
  obtains I where "pg_outbox_ok d'" "undisturbed d'" "round_effect sink retry (pg_ledger d) (pg_ledger d') I"
    and "due d \<longrightarrow> I \<noteq> {}" and "I = {} \<longrightarrow> d' = d \<and> k' = k"
proof -
  from assms(1) have ok: "pg_outbox_ok d" and calm: "undisturbed d" by (simp_all add: drainable_def)
  from assms(2) have n: "0 \<le> sint n" by simp
  have "r = Ok () \<and> pg_outbox_ok d' \<and> undisturbed d' \<and>
      (\<exists>batch s1. or_claim_pending pg_outbox_repository n claim_lease_secs d = (Ok batch, s1) \<and>
         pg_ledger s1 = on_entries (om_id ` set batch) claimed (pg_ledger d) \<and>
         (pg_ledger d', k') = spec_round sd fl sink retry batch (pg_ledger s1) k)"
    by (rule pg.publish_pending_refines [OF ok calm n _ _ run])
       (rule to_vec, rule drainable_small [OF assms(1)])
  then obtain batch s1 where ok': "pg_outbox_ok d'" "undisturbed d'"
    and claim: "pg_outbox_claim_pending n claim_lease_secs d = (Ok batch, s1)"
    and l1: "pg_ledger s1 = on_entries (om_id ` set batch) claimed (pg_ledger d)"
    and sround: "(pg_ledger d', k') = spec_round sd fl sink retry batch (pg_ledger s1) k"
    by (auto simp: pg_outbox_repository_simps)
  from pg_outbox_claim_law [OF ok claim] obtain J where "pg_ledger s1 = on_entries J claimed (pg_ledger d)"
    and J3: "\<forall>i \<in> J. \<exists>e. pg_ledger d i = Some e \<and> claimable e"
    and all: "\<forall>ms. Ok batch = (Ok ms :: outbox_error + outbox_message list) \<longrightarrow> distinct (map om_id ms) \<and> J = om_id ` set ms \<and>
        int (length ms) \<le> sint n \<and> (\<forall>m \<in> set ms. pg_ledger s1 (om_id m) = Some (entry_of m))"
    by (elim conjE exE)
  note J = this(1) this(3) [THEN spec, THEN mp [OF _ refl], THEN conjunct2, THEN conjunct1] J3
  from all have dist: "distinct (map om_id batch)"
    and here: "\<forall>m \<in> set batch. pg_ledger s1 (om_id m) = Some (entry_of m)" by simp_all
  have taken: "\<exists>e. pg_ledger d (om_id m) = Some e \<and> claimable e \<and> entry_of m = claimed e" if "m \<in> set batch" for m
  proof -
    from that J(2,3) obtain e where e: "pg_ledger d (om_id m) = Some e" "claimable e" by blast
    with that J(1,2) have "pg_ledger s1 (om_id m) = Some (claimed e)" by simp
    with here that e show ?thesis by simp
  qed
  have entry: "pg_ledger s1 (om_id m) = Some (entry_of m) \<and> om_status m = Publishing" if "m \<in> set batch" for m
  proof -
    from taken [OF that] have "en_status (entry_of m) = Publishing" by (auto simp: claimed_def)
    with here that show ?thesis by (simp add: entry_of_def)
  qed
  have fin: "fst (spec_round sd fl sink retry batch (pg_ledger s1) k) = pg_ledger d'" using sround by (metis fst_conv)
  have attempts: "(i \<notin> om_id ` set batch \<longrightarrow> pg_ledger d' i = pg_ledger s1 i) \<and>
      (\<forall>m \<in> set batch. \<exists>ob k1 e'. pg_ledger d' (om_id m) = Some e' \<and>
         attempted retry (fst (sink ob k1)) (entry_of m) e')" for i
    unfolding fin [symmetric] by (rule spec_round_attempts [OF to_vec dist entry])
  have "round_effect sink retry (pg_ledger d) (pg_ledger d') J"
    unfolding round_effect_def
  proof (intro conjI ballI allI impI)
    fix i assume "i \<in> J"
    with J(2) obtain m where m: "m \<in> set batch" "i = om_id m" by blast
    from attempts m(1) obtain ob k1 e' where "pg_ledger d' (om_id m) = Some e'"
      "attempted retry (fst (sink ob k1)) (entry_of m) e'" by blast
    moreover from taken [OF m(1)] obtain e where "pg_ledger d (om_id m) = Some e" "claimable e"
      "entry_of m = claimed e" by blast
    ultimately have "pg_ledger d i = Some e \<and> claimable e \<and> pg_ledger d' i = Some e' \<and>
        attempted retry (fst (sink ob k1)) e e'" using m(2) by simp
    then show "\<exists>e e' ob k. pg_ledger d i = Some e \<and> claimable e \<and> pg_ledger d' i = Some e' \<and>
        attempted retry (fst (sink ob k)) e e'" by blast
  next
    fix i assume "i \<notin> J"
    with attempts J show "pg_ledger d' i = pg_ledger d i" by simp
  qed
  moreover have "J \<noteq> {}" if "due d" using calm_claim(1) [OF ok calm assms(2) claim that] J(2) by simp
  moreover have "d' = d \<and> k' = k" if "J = {}"
  proof -
    from that J(2) have none: "batch = []" by simp
    with calm_claim(2) [OF ok calm assms(2) claim] have "s1 = d" by simp
    with run claim none show ?thesis by (simp add: publish_pending_def pg_outbox_repository_simps)
  qed
  ultimately show thesis using ok' that by blast
qed

section \<open>The budget\<close>

text \<open>A rank of entries, and its sum over the table: the attempts that can still be made.\<close>

definition budget :: "(entry \<Rightarrow> nat) \<Rightarrow> db \<Rightarrow> nat" where
  "budget rk d = sum_list (map (\<lambda>r. rk (entry_of_row r)) (db_outbox d))"

definition tries_left :: "retry_strategy \<Rightarrow> entry \<Rightarrow> nat" where
  "tries_left retry e =
     (if claimable e then Suc (nat (int (unat (rs_max_retries retry)) - sint (en_retries e))) else 0)"

lemma budget_ledger:
  assumes "pg_outbox_ok d"
  shows "budget rk d = (\<Sum>i \<in> dom (pg_ledger d). rk (the (pg_ledger d i)))"
    and "finite (dom (pg_ledger d))"
proof -
  let ?rows = "db_outbox d"
  have dist: "distinct (map ow_id ?rows)" using assms by (simp add: pg_outbox_ok_def outbox_unique_def)
  have dom: "dom (pg_ledger d) = ow_id ` set ?rows" by (auto simp: pg_ledger_def dom_def row_at_None)
  have "budget rk d = (\<Sum>r \<in> set ?rows. rk (entry_of_row r))"
    unfolding budget_def using dist by (intro sum_list_distinct_conv_sum_set) (simp add: distinct_map)
  also have "\<dots> = (\<Sum>r \<in> set ?rows. rk (the (pg_ledger d (ow_id r))))"
    using pg_ledger_row [OF assms] by simp
  also have "\<dots> = (\<Sum>i \<in> ow_id ` set ?rows. rk (the (pg_ledger d i)))"
    using dist by (simp add: sum.reindex distinct_map)
  finally show "budget rk d = (\<Sum>i \<in> dom (pg_ledger d). rk (the (pg_ledger d i)))" unfolding dom .
  show "finite (dom (pg_ledger d))" unfolding dom by simp
qed

text \<open>Attempts use up the rank, whatever the sink answers.\<close>

definition uses_up :: "'k message_sink \<Rightarrow> retry_strategy \<Rightarrow> (entry \<Rightarrow> nat) \<Rightarrow> bool" where
  "uses_up sink retry rk \<longleftrightarrow>
     (\<forall>e e' ob k. claimable e \<longrightarrow> sint (en_retries e) < i32_max \<longrightarrow>
        attempted retry (fst (sink ob k)) e e' \<longrightarrow> rk e' < rk e)"

lemma round_budget:
  assumes "drainable d" "pg_outbox_ok d'" and eff: "round_effect sink retry (pg_ledger d) (pg_ledger d') I"
    and up: "uses_up sink retry rk" and "I \<noteq> {}"
  shows "budget rk d' < budget rk d"
proof -
  have ok: "pg_outbox_ok d" using assms(1) by (simp add: drainable_def)
  have less: "rk (the (pg_ledger d' i)) < rk (the (pg_ledger d i)) \<and> i \<in> dom (pg_ledger d)" if "i \<in> I" for i
  proof -
    from eff that obtain e e' ob k where "pg_ledger d i = Some e" "claimable e" "pg_ledger d' i = Some e'"
      "attempted retry (fst (sink ob k)) e e'" unfolding round_effect_def by blast
    with up drainable_small [OF assms(1)] show ?thesis unfolding uses_up_def by auto
  qed
  have keep: "pg_ledger d' i = pg_ledger d i" if "i \<notin> I" for i using eff that by (simp add: round_effect_def)
  obtain i where i: "i \<in> I" using assms(5) by blast
  have "(\<Sum>i \<in> dom (pg_ledger d). rk (the (pg_ledger d' i))) < (\<Sum>i \<in> dom (pg_ledger d). rk (the (pg_ledger d i)))"
  proof (rule sum_strict_mono_ex1 [OF budget_ledger(2) [OF ok]])
    show "\<forall>i \<in> dom (pg_ledger d). rk (the (pg_ledger d' i)) \<le> rk (the (pg_ledger d i))"
      using less keep by (metis nat_less_le order_refl)
    show "\<exists>i \<in> dom (pg_ledger d). rk (the (pg_ledger d' i)) < rk (the (pg_ledger d i))"
      using less [OF i] by blast
  qed
  then show ?thesis
    by (simp only: budget_ledger(1) [OF ok] budget_ledger(1) [OF assms(2)] round_effect_dom [OF eff])
qed

text \<open>A retry is made only below the maximum, so that the counter stays small.\<close>

lemma attempted_small:
  assumes "attempted retry a e e'" and "sint (en_retries e) < i32_max" and "int (unat (rs_max_retries retry)) < i32_max"
  shows "sint (en_retries e') < i32_max \<and>
         (en_status e' = Retrying \<longrightarrow> sint (en_retries e') = sint (en_retries e) + 1 \<and>
            max 0 (sint (en_retries e)) < int (unat (rs_max_retries retry)))"
proof -
  have inc: "sint (en_retries e + 1) = sint (en_retries e) + 1"
    using assms(2) sint_ge [of "en_retries e"]
    by (simp add: sint_word_ariths signed_take_bit_int_eq_self_iff i32_max_def)
  show ?thesis
    using assms by (auto simp: attempted_def inc split: sum.splits sink_error.splits if_splits)
qed

section \<open>Runs of the worker\<close>

text \<open>What the properties assume of the publisher: it works on Postgres with a batch size above zero, every
  payload can be printed, and the configured maximum is below the counter's range.\<close>

definition calm_publisher :: "serde \<Rightarrow> (db, 'k) outbox_publisher \<Rightarrow> i64 \<Rightarrow> bool" where
  "calm_publisher sd pb n \<longleftrightarrow>
     pb_repository pb = pg_outbox_repository \<and> 0 < sint n \<and> (\<forall>v. is_ok (sd_to_vec sd v)) \<and>
     int (unat (rs_max_retries (pb_retry_strategy pb))) < i32_max"

lemma calm_tick:
  assumes "calm_publisher sd pb n" and "drainable d"
  obtains d1 k1 I where
    "\<forall>evs. worker sd fl pb n (Tick # evs) d k = worker sd fl pb n evs d1 k1" "drainable d1"
    "round_effect (pb_sink pb) (pb_retry_strategy pb) (pg_ledger d) (pg_ledger d1) I"
    "due d \<longrightarrow> I \<noteq> {}" "I = {} \<longrightarrow> d1 = d \<and> k1 = k"
proof -
  obtain r d1 k1 where run:
    "publish_pending sd fl pg_outbox_repository (pb_sink pb) (pb_retry_strategy pb) n d k = (r, d1, k1)"
    by (metis prod_cases3)
  from assms(1) have pb: "pb_repository pb = pg_outbox_repository" "0 < sint n" "\<And>v. is_ok (sd_to_vec sd v)"
    and mx: "int (unat (rs_max_retries (pb_retry_strategy pb))) < i32_max" by (simp_all add: calm_publisher_def)
  obtain I where I: "pg_outbox_ok d1" "undisturbed d1"
    "round_effect (pb_sink pb) (pb_retry_strategy pb) (pg_ledger d) (pg_ledger d1) I"
    "due d \<longrightarrow> I \<noteq> {}" "I = {} \<longrightarrow> d1 = d \<and> k1 = k"
    by (rule calm_round [OF assms(2) pb(2,3) run], rule that)
  have "sint (en_retries e) < i32_max" if e: "pg_ledger d1 i = Some e" for i e
  proof -
    from e round_effect_dom [OF I(3)] obtain e0 where e0: "pg_ledger d i = Some e0" by blast
    from I(3) e0 show ?thesis
    proof (cases rule: round_effect_entry)
      case 1
      with e drainable_small [OF assms(2) e0] show ?thesis by simp
    next
      case (2 e' ob k)
      with e attempted_small [OF 2(4) drainable_small [OF assms(2) e0] mx] show ?thesis by simp
    qed
  qed
  with I(1,2) have "drainable d1" by (simp add: drainable_iff)
  moreover have "worker sd fl pb n (Tick # evs) d k = worker sd fl pb n evs d1 k1" for evs
    by (simp add: pb(1) run)
  ultimately show thesis using I(3-5) that by blast
qed

lemma ticks_keep:
  assumes "calm_publisher sd pb n" and "drainable d" and "worker sd fl pb n (replicate T Tick) d k = (d', k')"
  shows "drainable d' \<and> dom (pg_ledger d') = dom (pg_ledger d)"
  using assms(2,3)
proof (induction T arbitrary: d k)
  case 0
  then show ?case by simp
next
  case (Suc T)
  obtain d1 k1 I where
    w: "\<forall>evs. worker sd fl pb n (Tick # evs) d k = worker sd fl pb n evs d1 k1" and d1: "drainable d1"
    and eff: "round_effect (pb_sink pb) (pb_retry_strategy pb) (pg_ledger d) (pg_ledger d1) I"
    and due: "due d \<longrightarrow> I \<noteq> {}" and idle: "I = {} \<longrightarrow> d1 = d \<and> k1 = k"
    by (rule calm_tick [OF assms(1) Suc.prems(1)], rule that)
  have run: "worker sd fl pb n (replicate T Tick) d1 k1 = (d', k')" using Suc.prems(2) w by simp
  from Suc.IH [OF d1 run] round_effect_dom [OF eff] show ?case by simp
qed

lemma ticks_idle:
  assumes "worker sd fl pb n [Tick] d k = (d, k)"
  shows "worker sd fl pb n (replicate T Tick) d k = (d, k)"
proof (induction T)
  case (Suc T)
  with assms show ?case by (simp split: prod.splits)
qed simp

text \<open>What every attempt preserves holds of an entry after any number of ticks.\<close>

lemma ticks_entry:
  assumes "calm_publisher sd pb n"
    and keep: "\<And>j e. P j e \<Longrightarrow> P (Suc j) e"
    and step: "\<And>j e e' ob k. P j e \<Longrightarrow> claimable e \<Longrightarrow> sint (en_retries e) < i32_max \<Longrightarrow>
                 attempted (pb_retry_strategy pb) (fst (pb_sink pb ob k)) e e' \<Longrightarrow> P (Suc j) e'"
    and "drainable d" and "worker sd fl pb n (replicate T Tick) d k = (d', k')"
    and "pg_ledger d i = Some e" and "P j e"
  shows "\<exists>e'. pg_ledger d' i = Some e' \<and> P (j + T) e'"
  using assms(4-7)
proof (induction T arbitrary: d k e j)
  case 0
  then show ?case by simp
next
  case (Suc T)
  obtain d1 k1 I where
    w: "\<forall>evs. worker sd fl pb n (Tick # evs) d k = worker sd fl pb n evs d1 k1" and d1: "drainable d1"
    and eff: "round_effect (pb_sink pb) (pb_retry_strategy pb) (pg_ledger d) (pg_ledger d1) I"
    by (rule calm_tick [OF assms(1) Suc.prems(1)], rule that)
  have run: "worker sd fl pb n (replicate T Tick) d1 k1 = (d', k')" using Suc.prems(2) w by simp
  have "\<exists>e1. pg_ledger d1 i = Some e1 \<and> P (Suc j) e1"
    using eff Suc.prems(3)
  proof (cases rule: round_effect_entry)
    case 1
    with keep [OF Suc.prems(4)] show ?thesis by simp
  next
    case (2 e1 ob k)
    with step [OF Suc.prems(4) 2(2) drainable_small [OF Suc.prems(1,3)] 2(4)] show ?thesis by simp
  qed
  then obtain e1 where "pg_ledger d1 i = Some e1" "P (Suc j) e1" by blast
  from Suc.IH [OF d1 run this] show ?case by simp
qed

text \<open>Every tick uses up budget or finds nothing due.\<close>

lemma ticks_budget:
  assumes "calm_publisher sd pb n" and "uses_up (pb_sink pb) (pb_retry_strategy pb) rk"
    and "drainable d" and "worker sd fl pb n (replicate T Tick) d k = (d', k')"
  shows "budget rk d' + T \<le> budget rk d \<or> \<not> due d'"
  using assms(3,4)
proof (induction T arbitrary: d k)
  case 0
  then show ?case by simp
next
  case (Suc T)
  obtain d1 k1 I where
    w: "\<forall>evs. worker sd fl pb n (Tick # evs) d k = worker sd fl pb n evs d1 k1" and d1: "drainable d1"
    and eff: "round_effect (pb_sink pb) (pb_retry_strategy pb) (pg_ledger d) (pg_ledger d1) I"
    and due: "due d \<longrightarrow> I \<noteq> {}" and idle: "I = {} \<longrightarrow> d1 = d \<and> k1 = k"
    by (rule calm_tick [OF assms(1) Suc.prems(1)], rule that)
  have run: "worker sd fl pb n (replicate T Tick) d1 k1 = (d', k')" using Suc.prems(2) w by simp
  show ?case
  proof (cases "I = {}")
    case True
    with w [THEN spec, of "[]"] idle have "worker sd fl pb n [Tick] d k = (d, k)" by simp
    from ticks_idle [OF this] run idle True have "d' = d" by simp
    with due True Suc.prems(1) show ?thesis by blast
  next
    case False
    have "pg_outbox_ok d1" using d1 by (simp add: drainable_def)
    from round_budget [OF Suc.prems(1) this eff assms(2) False] Suc.IH [OF d1 run] show ?thesis by linarith
  qed
qed

lemma due_budget:
  assumes "pg_outbox_ok d" and "due d" and "\<And>e. claimable e \<Longrightarrow> 0 < rk e"
  shows "0 < budget rk d"
proof -
  from assms(2) obtain r where r: "r \<in> set (db_outbox d)" "claim_candidate (db_now d) claim_lease_secs r"
    by (auto simp: due_def list_ex_iff)
  then have "0 < rk (entry_of_row r)" by (intro assms(3) claim_candidate_claimable)
  with r(1) show ?thesis unfolding budget_def by (metis image_eqI list.set_map member_le_sum_list order_less_le_trans zero_le)
qed

text \<open>With as many ticks as the budget, nothing is due any more.\<close>

lemma ticks_settle:
  assumes "calm_publisher sd pb n" and "uses_up (pb_sink pb) (pb_retry_strategy pb) rk"
    and "\<And>e. claimable e \<Longrightarrow> 0 < rk e" and "drainable d" and "budget rk d \<le> T"
    and run: "worker sd fl pb n (replicate T Tick) d k = (d', k')"
  shows "\<not> due d'"
proof
  assume "due d'"
  moreover have "pg_outbox_ok d'" using ticks_keep [OF assms(1,4) run] by (simp add: drainable_def)
  ultimately have "0 < budget rk d'" using due_budget assms(3) by blast
  with ticks_budget [OF assms(1,2,4) run] assms(5) \<open>due d'\<close> show False by simp
qed

section \<open>The outbox drains\<close>

definition never_pushes_back :: "'k message_sink \<Rightarrow> bool" where
  "never_pushes_back sink \<longleftrightarrow> (\<forall>ob k t. fst (sink ob k) \<noteq> Err (Backpressure t))"

lemma tries_left_used:
  assumes "never_pushes_back sink" and "int (unat (rs_max_retries retry)) < i32_max"
  shows "uses_up sink retry (tries_left retry)"
  unfolding uses_up_def
proof (intro allI impI)
  fix e e' ob k
  assume cl: "claimable e" and small: "sint (en_retries e) < i32_max" and att: "attempted retry (fst (sink ob k)) e e'"
  note less = attempted_small [OF att small assms(2)]
  from att assms(1) consider "en_status e' = Retrying" | "\<not> claimable e'"
    by (auto simp: attempted_def never_pushes_back_def claimable_def split: sum.splits sink_error.splits if_splits)
  then show "tries_left retry e' < tries_left retry e"
  proof cases
    case 1
    with less cl show ?thesis by (simp add: tries_left_def claimable_def)
  next
    case 2
    with cl show ?thesis by (simp add: tries_left_def)
  qed
qed

text \<open>C3: The outbox drains. When the database is undisturbed (theory Sql: no statement fails, no row is locked
  by others, the clock stands still) and the sink, whatever else it does, never reports a
  full queue, then after as many ticks as there are attempts left in the table no message is due any
  more, however small the batch: every message that was pending or retrying keeps its content and is
  published, or else dead-lettered or failed according to the configuration. An attempt is left for each
  retry below the configured maximum and one more for each message that may be claimed.\<close>

theorem outbox_drains:
  assumes "calm_publisher sd pb n" and "never_pushes_back (pb_sink pb)" and "drainable d"
    and enough: "budget (tries_left (pb_retry_strategy pb)) d \<le> T"
  shows "case worker sd fl pb n (replicate T Tick) d k of
           (d', k') \<Rightarrow> \<not> due d' \<and>
             (\<forall>i e. pg_ledger d i = Some e \<longrightarrow> waiting e \<longrightarrow>
                (\<exists>e'. pg_ledger d' i = Some e' \<and> same_content e e' \<and>
                   en_status e' \<in> {Published, if rs_enable_dlq (pb_retry_strategy pb) then Dlq else Failed}))"
proof -
  let ?final = "if rs_enable_dlq (pb_retry_strategy pb) then Dlq else Failed"
  obtain d' k' where run: "worker sd fl pb n (replicate T Tick) d k = (d', k')" by fastforce
  have "int (unat (rs_max_retries (pb_retry_strategy pb))) < i32_max" using assms(1) by (simp add: calm_publisher_def)
  from ticks_settle [OF assms(1) tries_left_used [OF assms(2) this] _ assms(3) enough run]
  have idle: "\<not> due d'" by (simp add: tries_left_def)
  have ok: "pg_outbox_ok d'" using ticks_keep [OF assms(1,3) run] by (simp add: drainable_def)
  have "\<exists>e'. pg_ledger d' i = Some e' \<and> same_content e e' \<and> en_status e' \<in> {Published, ?final}"
    if e: "pg_ledger d i = Some e" "waiting e" for i e
  proof -
    let ?P = "\<lambda>(j :: nat) e'. same_content e e' \<and> (waiting e' \<or> en_status e' \<in> {Published, ?final})"
    have "\<exists>e'. pg_ledger d' i = Some e' \<and> ?P (0 + T) e'"
    proof (rule ticks_entry [OF assms(1) _ _ assms(3) run e(1)])
      fix j e1 e2 ob k
      assume "?P j e1" and att: "attempted (pb_retry_strategy pb) (fst (pb_sink pb ob k)) e1 e2"
      then have "same_content e e2" using same_content_trans by (auto simp: attempted_def)
      moreover from att have "waiting e2 \<or> en_status e2 \<in> {Published, ?final}"
        by (auto simp: attempted_def waiting_def split: sum.splits sink_error.splits if_splits)
      ultimately show "?P (Suc j) e2" by blast
    qed (use e(2) in simp_all)
    then show ?thesis using waiting_due [OF ok] idle by blast
  qed
  with idle run show ?thesis by simp
qed

definition refused_publisher :: "(db, unit) outbox_publisher" where
  "refused_publisher =
     \<lparr>pb_repository = pg_outbox_repository, pb_sink = refusing,
      pb_retry_strategy = retry_strategy_new default_retry_config, pb_running = True\<rparr>"

lemma refused_publisher_calm: "calm_publisher null_serde refused_publisher 1"
  by (simp add: calm_publisher_def refused_publisher_def null_serde_def retry_strategy_new_def
      default_retry_config_def i32_max_def)

theorem outbox_drains_witness:
  "case worker null_serde exact_floats refused_publisher 1 (replicate 7 Tick)
          (sample_db [sample_outbox_row 1 ''pending'' 0, sample_outbox_row 2 ''retrying'' 1]) () of
     (d', k') \<Rightarrow> \<not> due d' \<and> (\<exists>e'. pg_ledger d' 1 = Some e' \<and> en_status e' \<in> {Published, Dlq})"
proof -
  let ?d = "sample_db [sample_outbox_row 1 ''pending'' 0, sample_outbox_row 2 ''retrying'' 1]"
  let ?e = "entry_of_row (sample_outbox_row 1 ''pending'' 0)"
  have "never_pushes_back (pb_sink refused_publisher)"
    by (simp add: never_pushes_back_def refused_publisher_def refusing_def)
  moreover have "drainable ?d" by code_simp
  moreover have "budget (tries_left (pb_retry_strategy refused_publisher)) ?d \<le> 7" by code_simp
  moreover have "pg_ledger ?d 1 = Some ?e" by (simp add: pg_ledger_def sample_outbox_row_def)
  moreover have "waiting ?e" by code_simp
  moreover have "rs_enable_dlq (pb_retry_strategy refused_publisher)" by code_simp
  ultimately show ?thesis
    using outbox_drains [OF refused_publisher_calm, where d = ?d and T = 7 and fl = exact_floats and k = "()"]
    by (fastforce simp del: worker.simps split: prod.splits)
qed

section \<open>An outage\<close>

definition always_accepts :: "'k message_sink \<Rightarrow> bool" where
  "always_accepts sink \<longleftrightarrow> (\<forall>ob k. fst (sink ob k) = Ok ())"

definition unreachable :: "'k message_sink \<Rightarrow> bool" where
  "unreachable sink \<longleftrightarrow> (\<forall>ob k. case fst (sink ob k) of Err (Transport _) \<Rightarrow> True | _ \<Rightarrow> False)"

lemma unreachable_answer: "unreachable sink \<Longrightarrow> \<exists>t. fst (sink ob k) = Err (Transport t)"
  unfolding unreachable_def
  by (elim allE [of _ ob] allE [of _ k]) (auto split: sum.splits sink_error.splits)

definition still_claimable :: "entry \<Rightarrow> nat" where
  "still_claimable e = (if claimable e then 1 else 0)"

lemma still_claimable_used: "always_accepts sink \<Longrightarrow> uses_up sink retry still_claimable"
  by (auto simp: uses_up_def always_accepts_def attempted_def still_claimable_def claimable_def)

text \<open>While the broker is away, a message spends one retry per round at most.\<close>

lemma outage_phase:
  assumes "calm_publisher sd pb n" and "unreachable (pb_sink pb)" and "drainable d"
    and e: "pg_ledger d i = Some e" "waiting e"
    and short: "max 0 (sint (en_retries e)) + int f \<le> int (unat (rs_max_retries (pb_retry_strategy pb)))"
    and run: "worker sd fl pb n (replicate f Tick) d k = (d', k')"
  shows "\<exists>e'. pg_ledger d' i = Some e' \<and> same_content e e' \<and> waiting e'"
proof -
  let ?mx = "int (unat (rs_max_retries (pb_retry_strategy pb)))"
  let ?P = "\<lambda>(j :: nat) e'. same_content e e' \<and>
      (j \<le> f \<longrightarrow> waiting e' \<and> max 0 (sint (en_retries e')) \<le> max 0 (sint (en_retries e)) + int j)"
  have "\<exists>e'. pg_ledger d' i = Some e' \<and> ?P (0 + f) e'"
  proof (rule ticks_entry [OF assms(1) _ _ assms(3) run e(1)])
    fix j e1 e2 ob k
    assume P: "?P j e1" and small: "sint (en_retries e1) < i32_max"
      and att: "attempted (pb_retry_strategy pb) (fst (pb_sink pb ob k)) e1 e2"
    from unreachable_answer [OF assms(2)] obtain t where t: "fst (pb_sink pb ob k) = Err (Transport t)" by blast
    have content: "same_content e e2" using same_content_trans P att by (auto simp: attempted_def)
    have "?mx < i32_max" using assms(1) by (simp add: calm_publisher_def)
    note less = attempted_small [OF att small this]
    have "waiting e2 \<and> max 0 (sint (en_retries e2)) \<le> max 0 (sint (en_retries e)) + int (Suc j)" if "Suc j \<le> f"
    proof -
      from P that have n: "max 0 (sint (en_retries e1)) \<le> max 0 (sint (en_retries e)) + int j" by simp
      with that short have "max 0 (sint (en_retries e1)) < ?mx" by linarith
      with att t have "en_status e2 = Retrying" by (simp add: attempted_def)
      with less n show ?thesis by (simp add: waiting_def)
    qed
    with content show "?P (Suc j) e2" by blast
  next
    fix j e1 assume "?P j e1"
    then show "?P (Suc j) e1" by auto
  qed (use e(2) in simp_all)
  then show ?thesis by auto
qed

text \<open>C4: An outage shorter than the ladder costs nothing. If, on an undisturbed database, the broker is unreachable for \<open>f\<close> ticks and
  accepts from then on, a message that had at least \<open>f\<close> retries left is published with its content after
  as many further ticks as the table has rows, however small the batch; the dead-letter topic and
  permanent failure are for longer outages only.\<close>

theorem outage_survived:
  assumes "calm_publisher sd pb n" and "drainable d" and "unreachable down" and "always_accepts up"
    and "pg_ledger d i = Some e" and "waiting e"
    and "max 0 (sint (en_retries e)) + int f \<le> int (unat (rs_max_retries (pb_retry_strategy pb)))"
    and "length (db_outbox d) \<le> T"
  shows "case worker sd fl (pb\<lparr>pb_sink := down\<rparr>) n (replicate f Tick) d k of
           (d1, k1) \<Rightarrow>
             (case worker sd fl (pb\<lparr>pb_sink := up\<rparr>) n (replicate T Tick) d1 k1 of
                (d2, k2) \<Rightarrow> \<exists>e'. pg_ledger d2 i = Some e' \<and> same_content e e' \<and> en_status e' = Published)"
proof -
  let ?down = "pb\<lparr>pb_sink := down\<rparr>" and ?up = "pb\<lparr>pb_sink := up\<rparr>"
  have pd: "calm_publisher sd ?down n" and pu: "calm_publisher sd ?up n"
    using assms(1) by (simp_all add: calm_publisher_def)
  obtain d1 k1 where r1: "worker sd fl ?down n (replicate f Tick) d k = (d1, k1)" by fastforce
  obtain d2 k2 where r2: "worker sd fl ?up n (replicate T Tick) d1 k1 = (d2, k2)" by fastforce
  have "\<exists>e'. pg_ledger d1 i = Some e' \<and> same_content e e' \<and> waiting e'"
    using assms(3,7) by (intro outage_phase [OF pd _ assms(2,5,6) _ r1]) simp_all
  then obtain e1 where e1: "pg_ledger d1 i = Some e1" "same_content e e1" "waiting e1" by blast
  from ticks_keep [OF pd assms(2) r1] have d1: "drainable d1" and dom1: "dom (pg_ledger d1) = dom (pg_ledger d)"
    by simp_all
  have ok: "pg_outbox_ok d" "pg_outbox_ok d1" using assms(2) d1 by (simp_all add: drainable_def)
  have "budget still_claimable d1 \<le> (\<Sum>j \<in> dom (pg_ledger d1). 1)"
    unfolding budget_ledger(1) [OF ok(2)] by (rule sum_mono) (simp add: still_claimable_def)
  also have "\<dots> = budget (\<lambda>_. 1) d" unfolding budget_ledger(1) [OF ok(1)] dom1 by simp
  also have "\<dots> \<le> T" using assms(8) by (simp add: budget_def sum_list_triv)
  finally have "budget still_claimable d1 \<le> T" .
  moreover have "uses_up (pb_sink ?up) (pb_retry_strategy ?up) still_claimable"
    using still_claimable_used [OF assms(4)] by simp
  ultimately have idle: "\<not> due d2"
    by (intro ticks_settle [OF pu _ _ d1 _ r2]) (simp_all add: still_claimable_def)
  let ?P = "\<lambda>(j :: nat) e'. same_content e e' \<and> (waiting e' \<or> en_status e' = Published)"
  have "\<exists>e'. pg_ledger d2 i = Some e' \<and> ?P (0 + T) e'"
  proof (rule ticks_entry [OF pu _ _ d1 r2 e1(1)])
    fix j e1 e2 ob k
    assume P: "?P j e1" and att: "attempted (pb_retry_strategy ?up) (fst (pb_sink ?up ob k)) e1 e2"
    have "fst (pb_sink ?up ob k) = Ok ()" using assms(4) by (simp add: always_accepts_def)
    with P att show "?P (Suc j) e2" using same_content_trans by (auto simp: attempted_def)
  qed (use e1 in simp_all)
  moreover have "pg_outbox_ok d2" using ticks_keep [OF pu d1 r2] by (simp add: drainable_def)
  ultimately have "\<exists>e'. pg_ledger d2 i = Some e' \<and> same_content e e' \<and> en_status e' = Published"
    using waiting_due idle by blast
  then show ?thesis by (simp add: r1 r2)
qed

theorem outage_survived_witness:
  "case worker null_serde exact_floats (refused_publisher\<lparr>pb_sink := refusing\<rparr>) 1 (replicate 3 Tick)
          (sample_db [sample_outbox_row 1 ''pending'' 0]) () of
     (d1, k1) \<Rightarrow>
       (case worker null_serde exact_floats (refused_publisher\<lparr>pb_sink := accepting\<rparr>) 1 (replicate 1 Tick) d1 k1 of
          (d2, k2) \<Rightarrow> \<exists>e'. pg_ledger d2 1 = Some e' \<and>
             same_content (entry_of_row (sample_outbox_row 1 ''pending'' 0)) e' \<and> en_status e' = Published)"
proof (rule outage_survived [OF refused_publisher_calm])
  show "unreachable refusing" by (simp add: unreachable_def refusing_def)
  show "always_accepts accepting" by (simp add: always_accepts_def accepting_def)
  show "pg_ledger (sample_db [sample_outbox_row 1 ''pending'' 0]) 1 = Some (entry_of_row (sample_outbox_row 1 ''pending'' 0))"
    by (simp add: pg_ledger_def sample_outbox_row_def)
qed code_simp+

end
