(* ===== verification/Inbound_System.thy ===== *)
theory Inbound_System
  imports Consumer_Loop Db_Subscriber
begin

text \<open>
  The consuming side as a whole: from the subscribers stored on Postgres over the refresh of the
  endpoints, the consumer loop of theory Consumer_Loop and the dispatcher with its breakers (theories
  Dispatch and Delivery) to the calls a subscriber receives. The fan-out is the sequential one of
  \<open>dispatch_to_all\<close>; theory Fan_Out shows that the concurrent ones end like it.
\<close>

section \<open>The roster\<close>

text \<open>The endpoints without their breakers; deliveries leave them alone.\<close>

definition roster :: "endpoints \<Rightarrow> (string \<times> subscriber) list" where
  "roster eps = map (\<lambda>(i, ep). (i, ep_subscriber ep)) eps"

lemma roster_lookup: "map_of (roster eps) i = map_option ep_subscriber (map_of eps i)"
  by (induction eps) (auto simp: roster_def)

lemma roster_update:
  "map_of (roster eps) i = Some (ep_subscriber ep) \<Longrightarrow> roster (AList.update i ep eps) = roster eps"
proof (induction eps)
  case (Cons p eps)
  then show ?case by (cases p) (auto simp: roster_def split: if_splits)
qed (simp add: roster_def)

lemma matching_roster:
  "get_matching_subscribers eps topic = filter (\<lambda>s. subscriber_matches_topic s topic) (map snd (roster eps))"
  by (simp add: get_matching_subscribers_def roster_def filter_map o_def case_prod_beta)

text \<open>Each endpoint stands under its subscriber's identifier, once.\<close>

definition roster_ok :: "uuid_lib \<Rightarrow> (string \<times> subscriber) list \<Rightarrow> bool" where
  "roster_ok ul ro \<longleftrightarrow> distinct (map fst ro) \<and> (\<forall>(i, s) \<in> set ro. i = ul_show ul (su_id s))"

lemma roster_ok_lookup: "roster_ok ul ro \<Longrightarrow> s \<in> snd ` set ro \<Longrightarrow> map_of ro (ul_show ul (su_id s)) = Some s"
  by (auto simp: roster_ok_def)

lemma roster_ok_distinct: "roster_ok ul ro \<Longrightarrow> distinct (map snd ro)"
proof -
  assume ok: "roster_ok ul ro"
  then have "map fst ro = map (\<lambda>s. ul_show ul (su_id s)) (map snd ro)" by (auto simp: roster_ok_def)
  with ok show ?thesis unfolding roster_ok_def by (metis distinct_map)
qed

section \<open>One subscriber that answers\<close>

text \<open>A notifier with a memory of its calls, and the messages it delivered to an address.\<close>

type_synonym call_log = "(string \<times> deliver_notification) list"

definition recorded :: "'n subscriber_notifier \<Rightarrow> ('n \<times> call_log) subscriber_notifier" where
  "recorded notifier addr request st =
     (case notifier addr request (fst st) of (answer, n1) \<Rightarrow> (answer, n1, snd st @ [(addr, request)]))"

definition served_at :: "string \<Rightarrow> 'n \<times> call_log \<Rightarrow> (string \<times> bytes) list" where
  "served_at addr st =
     map (\<lambda>(_, request). (dn_topic request, dn_payload request)) (filter (\<lambda>(a, _). a = addr) (snd st))"

text \<open>The subscriber answers each call in time; what it says in its answer does not matter.\<close>

definition answers_in_time :: "nat \<Rightarrow> 'n subscriber_notifier \<Rightarrow> string \<Rightarrow> bool" where
  "answers_in_time limit notifier addr \<longleftrightarrow>
     (\<forall>request n. case notifier addr request n of ((r, took), n1) \<Rightarrow> is_ok r \<and> took \<le> limit)"

text \<open>The endpoint of \<open>s\<close> is closed without failures, and no other endpoint has its address.\<close>

definition closed_for :: "uuid_lib \<Rightarrow> subscriber \<Rightarrow> endpoints \<Rightarrow> bool" where
  "closed_for ul s eps \<longleftrightarrow>
     (case map_of eps (ul_show ul (su_id s)) of
        Some ep \<Rightarrow> cb_state (ep_breaker ep) = Closed \<and> cb_failures (ep_breaker ep) = 0 | None \<Rightarrow> False)"

definition sole_address :: "subscriber \<Rightarrow> (string \<times> subscriber) list \<Rightarrow> bool" where
  "sole_address s ro \<longleftrightarrow>
     s \<in> snd ` set ro \<and> (\<forall>(i, t) \<in> set ro. su_grpc_endpoint t = su_grpc_endpoint s \<longrightarrow> t = s)"

lemma recorded_timeout:
  "deliver_with_timeout limit (recorded notifier) addr request st = (r, st') \<Longrightarrow>
     served_at a st' = served_at a st @ (if addr = a then [(dn_topic request, dn_payload request)] else []) \<and>
     (answers_in_time limit notifier addr \<longrightarrow> is_ok r)"
proof -
  assume d: "deliver_with_timeout limit (recorded notifier) addr request st = (r, st')"
  obtain q took n1 where n: "notifier addr request (fst st) = ((q, took), n1)" by (metis prod.exhaust)
  with d have "r = (if took > limit then Err NE_Timeout else q)" "st' = (n1, snd st @ [(addr, request)])"
    by (auto simp: deliver_with_timeout_def recorded_def)
  moreover have "is_ok q \<and> took \<le> limit" if "answers_in_time limit notifier addr"
    using that [unfolded answers_in_time_def, rule_format, of request "fst st"] n by simp
  ultimately show ?thesis by (auto simp: served_at_def)
qed

text \<open>One delivery, to \<open>s\<close> or to another of the roster.\<close>

lemma dispatch_served:
  assumes ok: "roster_ok ul (roster (dp_endpoints dp))" and t: "t \<in> snd ` set (roster (dp_endpoints dp))"
    and sole: "sole_address s (roster (dp_endpoints dp))" and cl: "closed_for ul s (dp_endpoints dp)"
    and healthy: "answers_in_time (dp_request_timeout dp) notifier (su_grpc_endpoint s)"
    and run: "dispatch ul (recorded notifier) t1 t2 dp t request st = (r, dp', st')"
  shows "roster (dp_endpoints dp') = roster (dp_endpoints dp) \<and> closed_for ul s (dp_endpoints dp') \<and>
         dp_request_timeout dp' = dp_request_timeout dp \<and>
         served_at (su_grpc_endpoint s) st' = served_at (su_grpc_endpoint s) st @
           (if t = s then [(dn_topic request, dn_payload request)] else [])"
proof -
  let ?i = "ul_show ul (su_id t)" and ?a = "su_grpc_endpoint s"
  from roster_ok_lookup [OF ok t] obtain ep where ep: "map_of (dp_endpoints dp) ?i = Some ep" "ep_subscriber ep = t"
    by (auto simp: roster_lookup)
  obtain b cb where c: "can_execute t1 (ep_breaker ep) = (b, cb)" by fastforce
  let ?eps = "AList.update ?i (ep\<lparr>ep_breaker := cb\<rparr>) (dp_endpoints dp)"
  have bg: "dispatch_begin ul t1 t (dp_endpoints dp) =
      (if b then Ok (su_grpc_endpoint t) else Err (breaker_open_result ?i), ?eps)"
    by (simp add: dispatch_begin_eq endpoint_for_def ep c Let_def)
  have ro1: "roster ?eps = roster (dp_endpoints dp)"
    by (rule roster_update) (simp add: roster_lookup ep)
  have mine: "?i = ul_show ul (su_id s) \<longleftrightarrow> t = s"
    using roster_ok_lookup [OF ok t] roster_ok_lookup [OF ok, of s] sole by (auto simp: sole_address_def)
  have addr: "su_grpc_endpoint t = ?a \<longleftrightarrow> t = s" using sole t by (auto simp: sole_address_def)
  have self: "b \<and> cb = ep_breaker ep \<and> cb_state cb = Closed \<and> cb_failures cb = 0" if "t = s"
    using cl c ep(1) that by (auto simp: closed_for_def can_execute_def)
  show ?thesis
  proof (cases b)
    case False
    with self have ne: "t \<noteq> s" by blast
    with mine cl have "closed_for ul s ?eps" by (simp add: closed_for_def)
    with run bg False ro1 ne show ?thesis by (auto simp: dispatch_def Let_def)
  next
    case True
    obtain res st1 where d: "deliver_with_timeout (dp_request_timeout dp) (recorded notifier) (su_grpc_endpoint t)
        request st = (res, st1)" by (metis surj_pair)
    with run bg True have dp': "dp' = dp\<lparr>dp_endpoints := record_outcome t2 ?i res ?eps\<rparr>" and st': "st' = st1"
      by (simp_all add: dispatch_def Let_def)
    let ?ep' = "ep\<lparr>ep_breaker := (case res of Ok _ \<Rightarrow> record_success cb | Err _ \<Rightarrow> record_failure t2 cb)\<rparr>"
    have out: "record_outcome t2 ?i res ?eps = AList.update ?i ?ep' ?eps"
      by (simp add: record_outcome_def split: sum.split)
    have "roster (AList.update ?i ?ep' ?eps) = roster ?eps"
      by (rule roster_update) (simp add: ro1 roster_lookup ep)
    moreover have "closed_for ul s (AList.update ?i ?ep' ?eps)"
    proof (cases "t = s")
      case True
      with recorded_timeout [OF d] healthy have "is_ok res" by simp
      moreover from self [OF True] have "cb_state (record_success cb) = Closed \<and> cb_failures (record_success cb) = 0"
        unfolding record_success_def by (elim conjE) simp
      ultimately show ?thesis using True by (cases res) (simp_all add: closed_for_def)
    next
      case False
      with mine cl show ?thesis by (simp add: closed_for_def)
    qed
    ultimately show ?thesis using recorded_timeout [OF d, of ?a] addr ro1 by (simp add: dp' st' out)
  qed
qed

lemma dispatch_each_served:
  assumes "roster_ok ul (roster (dp_endpoints dp))" and "set ts \<subseteq> snd ` set (roster (dp_endpoints dp))"
    and "sole_address s (roster (dp_endpoints dp))" and "closed_for ul s (dp_endpoints dp)"
    and "answers_in_time (dp_request_timeout dp) notifier (su_grpc_endpoint s)" and "distinct ts"
    and "dispatch_each ul (recorded notifier) clock c request ts dp st = (rs, dp', st')"
  shows "roster (dp_endpoints dp') = roster (dp_endpoints dp) \<and> closed_for ul s (dp_endpoints dp') \<and>
         dp_request_timeout dp' = dp_request_timeout dp \<and>
         served_at (su_grpc_endpoint s) st' = served_at (su_grpc_endpoint s) st @
           (if s \<in> set ts then [(dn_topic request, dn_payload request)] else [])"
  using assms
proof (induction ts arbitrary: dp st c rs)
  case Nil
  then show ?case by simp
next
  case (Cons t ts)
  obtain r dp1 st1 where d: "dispatch ul (recorded notifier) (clock c) (clock (Suc c)) dp t request st = (r, dp1, st1)"
    by (metis prod_cases3)
  obtain rs1 dp2 st2 where rest: "dispatch_each ul (recorded notifier) clock (c + 2) request ts dp1 st1 = (rs1, dp2, st2)"
    by (metis prod_cases3)
  with Cons.prems(7) d have fin: "dp' = dp2" "st' = st2" by simp_all
  have "t \<in> snd ` set (roster (dp_endpoints dp))" using Cons.prems(2) by simp
  note one = dispatch_served [OF Cons.prems(1) this Cons.prems(3-5) d]
  from rest fin have rest': "dispatch_each ul (recorded notifier) clock (c + 2) request ts dp1 st1 = (rs1, dp', st')" by simp
  have "roster (dp_endpoints dp') = roster (dp_endpoints dp1) \<and> closed_for ul s (dp_endpoints dp') \<and>
         dp_request_timeout dp' = dp_request_timeout dp1 \<and>
         served_at (su_grpc_endpoint s) st' = served_at (su_grpc_endpoint s) st1 @
           (if s \<in> set ts then [(dn_topic request, dn_payload request)] else [])"
    using Cons.prems one by (intro Cons.IH [OF _ _ _ _ _ _ rest']) simp_all
  with one Cons.prems(6) show ?case by auto
qed

section \<open>The consumer with such a subscriber\<close>

text \<open>The consumer's dispatcher fans out through the recorded notifier over sound endpoints; that of \<open>s\<close> is
  closed, alone at its address, and answers.\<close>

definition serves ::
  "uuid_lib \<Rightarrow> 'n subscriber_notifier \<Rightarrow> subscriber \<Rightarrow> ('s, 'n \<times> call_log) consumer_state \<Rightarrow> bool" where
  "serves ul notifier s st \<longleftrightarrow>
     (\<exists>dp. md_subscriber_dispatcher (cs_dispatcher st) = Some (dp, recorded notifier) \<and>
        roster_ok ul (roster (dp_endpoints dp)) \<and> sole_address s (roster (dp_endpoints dp)) \<and>
        closed_for ul s (dp_endpoints dp) \<and> answers_in_time (dp_request_timeout dp) notifier (su_grpc_endpoint s))"

text \<open>The messages that such a subscriber is due, of those the consumer could read.\<close>

definition wanted :: "subscriber \<Rightarrow> (incoming_message \<times> json) list \<Rightarrow> (string \<times> bytes) list" where
  "wanted s ps =
     map (\<lambda>(msg, _). (ic_topic msg, ic_payload msg)) (filter (\<lambda>(msg, _). subscriber_matches_topic s (ic_topic msg)) ps)"

lemma wanted_append [simp]: "wanted s (ps @ qs) = wanted s ps @ wanted s qs"
  by (simp add: wanted_def)

lemma dispatcher_dispatch_served:
  assumes md: "md_subscriber_dispatcher md = Some (dp, recorded notifier)"
    and ok: "roster_ok ul (roster (dp_endpoints dp))" and sole: "sole_address s (roster (dp_endpoints dp))"
    and cl: "closed_for ul s (dp_endpoints dp)"
    and healthy: "answers_in_time (dp_request_timeout dp) notifier (su_grpc_endpoint s)"
    and run: "dispatcher_dispatch ul clock topic payload md rt store st = (r, md', rt', store', st')"
  shows "\<exists>dp'. md_subscriber_dispatcher md' = Some (dp', recorded notifier) \<and>
           roster (dp_endpoints dp') = roster (dp_endpoints dp) \<and> closed_for ul s (dp_endpoints dp') \<and>
           dp_request_timeout dp' = dp_request_timeout dp \<and>
           served_at (su_grpc_endpoint s) st' = served_at (su_grpc_endpoint s) st @
             (if subscriber_matches_topic s topic then [(topic, payload)] else [])"
proof -
  obtain i rt1 where i: "now_v7 rt = (i, rt1)" by fastforce
  obtain now rt2 where now: "utc_now rt1 = (now, rt2)" by fastforce
  define request where "request = \<lparr>dn_message_id = ul_show ul i, dn_topic = topic, dn_payload = payload, dn_headers = [],
      dn_timestamp = ts_seconds now, dn_event_type = [], dn_retry_count = 0\<rparr>"
  obtain rs dp1 n1 where d: "dispatch_to_all ul (recorded notifier) clock dp topic request st = (rs, dp1, n1)"
    by (metis prod_cases3)
  from run md have fin: "md_subscriber_dispatcher md' = Some (dp1, recorded notifier)" "st' = n1"
    by (simp_all add: dispatcher_dispatch_def i now d request_def [symmetric]) auto
  let ?ts = "get_matching_subscribers (dp_endpoints dp) topic"
  have ts: "set ?ts = {t \<in> snd ` set (roster (dp_endpoints dp)). subscriber_matches_topic t topic}"
    by (auto simp: matching_roster)
  have "distinct ?ts" using roster_ok_distinct [OF ok] by (simp add: matching_roster)
  moreover have "dispatch_each ul (recorded notifier) clock 0 request ?ts dp st = (rs, dp1, n1)"
    using d by (simp add: dispatch_to_all_def Let_def split: if_splits)
  ultimately have "roster (dp_endpoints dp1) = roster (dp_endpoints dp) \<and> closed_for ul s (dp_endpoints dp1) \<and>
         dp_request_timeout dp1 = dp_request_timeout dp \<and>
         served_at (su_grpc_endpoint s) n1 = served_at (su_grpc_endpoint s) st @
           (if s \<in> set ?ts then [(dn_topic request, dn_payload request)] else [])"
    using ts by (intro dispatch_each_served [OF ok _ sole cl healthy]) auto
  moreover have "s \<in> set ?ts \<longleftrightarrow> subscriber_matches_topic s topic" using ts sole by (auto simp: sole_address_def)
  moreover have "dn_topic request = topic" "dn_payload request = payload" by (simp_all add: request_def)
  ultimately show ?thesis using fin by simp
qed

lemma consume_message_served:
  assumes "serves ul notifier s st"
  shows "serves ul notifier s (consume_message ul clock msg payload st) \<and>
         served_at (su_grpc_endpoint s) (cs_network (consume_message ul clock msg payload st)) =
           served_at (su_grpc_endpoint s) (cs_network st) @ wanted s [(msg, payload)]"
proof -
  obtain m rt1 where m: "inbox_message_new (ic_topic msg) (ic_partition msg) (ic_offset msg) payload (cs_runtime st) =
      (m, rt1)" by fastforce
  obtain r md1 rt2 s1 n1 where d: "dispatcher_dispatch ul clock (ic_topic msg) (ic_payload msg) (cs_dispatcher st)
      rt1 (cs_store st) (cs_network st) = (r, md1, rt2, s1, n1)" by (metis prod_cases5)
  obtain i rt3 where i: "now_v7 rt2 = (i, rt3)" by fastforce
  obtain now rt4 where now: "utc_now rt3 = (now, rt4)" by fastforce
  have st': "cs_dispatcher (consume_message ul clock msg payload st) = md1"
    "cs_network (consume_message ul clock msg payload st) = n1"
    by (simp_all add: consume_message_def m d i now)
  from assms obtain dp where dp: "md_subscriber_dispatcher (cs_dispatcher st) = Some (dp, recorded notifier)"
    "roster_ok ul (roster (dp_endpoints dp))" "sole_address s (roster (dp_endpoints dp))"
    "closed_for ul s (dp_endpoints dp)" "answers_in_time (dp_request_timeout dp) notifier (su_grpc_endpoint s)"
    unfolding serves_def by blast
  from dispatcher_dispatch_served [OF dp d] dp obtain dp' where
    "md_subscriber_dispatcher md1 = Some (dp', recorded notifier)"
    "roster (dp_endpoints dp') = roster (dp_endpoints dp)" "closed_for ul s (dp_endpoints dp')"
    "dp_request_timeout dp' = dp_request_timeout dp"
    and served: "served_at (su_grpc_endpoint s) n1 = served_at (su_grpc_endpoint s) (cs_network st) @
      (if subscriber_matches_topic s (ic_topic msg) then [(ic_topic msg, ic_payload msg)] else [])" by blast
  with dp have "serves ul notifier s (consume_message ul clock msg payload st)"
    unfolding serves_def st' by metis
  with served show ?thesis by (simp add: st' wanted_def)
qed

lemma flush_if_due_serves [simp]:
  "serves ul notifier s (flush_if_due inbox drained st) = serves ul notifier s st"
  "cs_network (flush_if_due inbox drained st) = cs_network st"
  by (simp_all add: serves_def flush_if_due_def flush_def)

lemma consumer_loop_served:
  assumes "serves ul notifier s st"
  shows "serves ul notifier s (consumer_loop ul sd inbox items st) \<and>
         served_at (su_grpc_endpoint s) (cs_network (consumer_loop ul sd inbox items st)) =
           served_at (su_grpc_endpoint s) (cs_network st) @ wanted s (List.map_filter (readable sd) items)"
  using assms
proof (induction items arbitrary: st)
  case Nil
  then show ?case by (simp add: map_filter_simps wanted_def)
next
  case (Cons item items)
  have one: "serves ul notifier s (consumer_step ul sd inbox item st) \<and>
      served_at (su_grpc_endpoint s) (cs_network (consumer_step ul sd inbox item st)) =
        served_at (su_grpc_endpoint s) (cs_network st) @ wanted s (List.map_filter (readable sd) [item])"
  proof (cases "readable sd item")
    case None
    then show ?thesis using Cons.prems
      by (auto simp: readable_def consumer_step_def map_filter_simps wanted_def split: sum.splits)
  next
    case (Some p)
    then obtain msg payload where p: "ci_result item = Ok msg" "decode_payload sd (ic_payload msg) = Ok payload"
      "p = (msg, payload)" by (auto simp: readable_def split: sum.splits)
    show ?thesis
      using consume_message_served [OF Cons.prems, of "ci_clock item" msg payload] Some p
      by (simp add: consumer_step_def map_filter_simps)
  qed
  with Cons.IH [of "consumer_step ul sd inbox item st"] show ?case
    by (simp add: map_filter_simps wanted_def split: option.splits)
qed

lemma consumer_task_served:
  assumes "serves ul notifier s st"
  shows "served_at (su_grpc_endpoint s) (cs_network (consumer_task ul sd inbox items st)) =
           served_at (su_grpc_endpoint s) (cs_network st) @ wanted s (List.map_filter (readable sd) items)"
proof -
  have "serves ul notifier s (st\<lparr>cs_pending := []\<rparr>)" using assms by (simp add: serves_def)
  from consumer_loop_served [OF this, of sd inbox items] show ?thesis
    by (simp add: consumer_task_def flush_def Let_def)
qed

section \<open>From the stored subscribers\<close>

lemma merged_subscribers:
  assumes "uuid_lib_ok ul" and "endpoints_ok eps" and "distinct (map su_id ss)"
  shows "set (map ep_subscriber (map snd (merge_subscribers ul ss eps))) = set ss"
proof -
  let ?eps = "merge_subscribers ul ss eps"
  note spec = merge_subscribers_spec [OF assms]
  have dist: "distinct (map fst ?eps)" using spec by (simp add: endpoints_ok_def)
  show ?thesis
  proof (intro equalityI subsetI)
    fix s assume "s \<in> set (map ep_subscriber (map snd ?eps))"
    then obtain i ep where ep: "(i, ep) \<in> set ?eps" "s = ep_subscriber ep" by auto
    then have i: "map_of ?eps i = Some ep" using dist by simp
    then have "i \<in> dom (map_of ?eps)" by blast
    then obtain t where t: "t \<in> set ss" "i = ul_show ul (su_id t)" using spec by auto
    with spec i have "ep_subscriber ep = t" by auto
    with t ep show "s \<in> set ss" by simp
  next
    fix s assume "s \<in> set ss"
    with spec obtain b where "map_of ?eps (ul_show ul (su_id s)) = Some \<lparr>ep_subscriber = s, ep_breaker = b\<rparr>" by blast
    from map_of_SomeD [OF this] show "s \<in> set (map ep_subscriber (map snd ?eps))" by force
  qed
qed

text \<open>What a topic matches after merging what the table holds.\<close>

lemma merged_matching:
  assumes ul: "uuid_lib_ok ul" and eps: "endpoints_ok eps" and ok: "pg_subscribers_ok d"
    and q: "pg_subscriber_get_all_active d = (Ok us, d')"
  shows "su_id ` set (get_matching_subscribers (merge_subscribers ul us eps) topic) =
           {i. \<exists>n. pg_subscriptions d i = Some n \<and> sn_active n \<and> matches_any topic (sn_patterns n)}"
proof -
  from pg_subscriber_get_all_active_law [OF ok q] have dist: "distinct (map su_id us)"
    and rows: "\<And>u. u \<in> set us \<Longrightarrow> pg_subscriptions d (su_id u) = Some (subscription_of u)"
    and ids: "su_id ` set us = {i. \<exists>n. pg_subscriptions d i = Some n \<and> sn_active n}" by auto
  have "set (get_matching_subscribers (merge_subscribers ul us eps) topic) =
      {u \<in> set us. matches_any topic (su_topic_patterns u)}"
    using merged_subscribers [OF ul eps dist] by (force simp: get_matching_subscribers_def subscriber_matches_topic_def)
  moreover have "su_id ` {u \<in> set us. matches_any topic (su_topic_patterns u)} =
      {i. \<exists>n. pg_subscriptions d i = Some n \<and> sn_active n \<and> matches_any topic (sn_patterns n)}" (is "_ = ?R")
  proof (intro equalityI subsetI)
    fix i assume "i \<in> su_id ` {u \<in> set us. matches_any topic (su_topic_patterns u)}"
    then obtain u where u: "u \<in> set us" "matches_any topic (su_topic_patterns u)" "i = su_id u" by blast
    then have "i \<in> su_id ` set us" by blast
    with rows [OF u(1)] u show "i \<in> ?R" unfolding ids by (auto simp: subscription_of_def)
  next
    fix i assume "i \<in> ?R"
    then obtain n where n: "pg_subscriptions d i = Some n" "sn_active n" "matches_any topic (sn_patterns n)" by blast
    then have "i \<in> su_id ` set us" unfolding ids by blast
    then obtain u where "u \<in> set us" "su_id u = i" by blast
    with rows n show "i \<in> su_id ` {u \<in> set us. matches_any topic (su_topic_patterns u)}"
      by (force simp: subscription_of_def)
  qed
  ultimately show ?thesis by simp
qed

lemma merged_roster:
  assumes "uuid_lib_ok ul" and "distinct (map su_id ss)"
  shows "roster_ok ul (roster (merge_subscribers ul ss []))" and "snd ` set (roster (merge_subscribers ul ss [])) = set ss"
    and "s \<in> set ss \<Longrightarrow> closed_for ul s (merge_subscribers ul ss [])"
proof -
  let ?eps = "merge_subscribers ul ss []"
  have "endpoints_ok []" by (simp add: endpoints_ok_def)
  note spec = merge_subscribers_spec [OF assms(1) this assms(2)]
  have dist: "distinct (map fst ?eps)" using spec by (simp add: endpoints_ok_def)
  have "i = ul_show ul (su_id (ep_subscriber ep))" if "(i, ep) \<in> set ?eps" for i ep
  proof -
    from that dist have i: "map_of ?eps i = Some ep" by simp
    then have "i \<in> dom (map_of ?eps)" by blast
    with spec obtain t where "t \<in> set ss" "i = ul_show ul (su_id t)" by auto
    with spec i show ?thesis by auto
  qed
  moreover have "map fst (roster ?eps) = map fst ?eps" by (simp add: roster_def case_prod_beta)
  ultimately show "roster_ok ul (roster ?eps)" using dist by (auto simp: roster_ok_def) (auto simp: roster_def)
  show "snd ` set (roster ?eps) = set ss"
    using merged_subscribers [OF assms(1) \<open>endpoints_ok []\<close> assms(2)] by (force simp: roster_def)
  show "closed_for ul s ?eps" if "s \<in> set ss"
    using spec that by (simp add: closed_for_def circuit_breaker_new_def)
qed

section \<open>Refreshing from the stored subscribers\<close>

text \<open>C29: The dispatcher follows the stored subscribers. A refresh that succeeds, on any database and from any
  sound endpoints, leaves endpoints for exactly the active subscribers of the table, each with the name,
  address, patterns and configuration stored for it; one that was known keeps its circuit breaker, a new
  one starts with a closed one, and those that are gone or inactive are dropped. From then on a topic is
  delivered to exactly the active subscribers of the table one of whose patterns matches. A refresh that
  fails leaves the dispatcher as it was. The table is only read.\<close>

theorem refresh_follows_registry:
  assumes ul: "uuid_lib_ok ul" and ok: "pg_subscribers_ok d" and eps: "endpoints_ok (dp_endpoints dp)"
    and repo: "dp_repo dp = pg_subscriber_repository ul" and run: "refresh_subscribers ul dp d = (r, dp', d')"
  shows "pg_subscriptions d' = pg_subscriptions d \<and> endpoints_ok (dp_endpoints dp') \<and>
         (if is_ok r
          then dom (map_of (dp_endpoints dp')) = ul_show ul ` {i. \<exists>n. pg_subscriptions d i = Some n \<and> sn_active n} \<and>
               (\<forall>i n. pg_subscriptions d i = Some n \<longrightarrow> sn_active n \<longrightarrow>
                  (\<exists>ep. map_of (dp_endpoints dp') (ul_show ul i) = Some ep \<and> su_id (ep_subscriber ep) = i \<and>
                     subscription_of (ep_subscriber ep) = n \<and>
                     ep_breaker ep = (case map_of (dp_endpoints dp) (ul_show ul i) of
                                        Some old \<Rightarrow> ep_breaker old
                                      | None \<Rightarrow> circuit_breaker_new default_circuit_breaker_config))) \<and>
               (\<forall>topic. su_id ` set (get_matching_subscribers (dp_endpoints dp') topic) =
                  {i. \<exists>n. pg_subscriptions d i = Some n \<and> sn_active n \<and> matches_any topic (sn_patterns n)})
          else dp' = dp)"
proof -
  obtain q d2 where q: "pg_subscriber_get_all_active d = (q, d2)" by fastforce
  note active = pg_subscriber_get_all_active_law [OF ok q]
  have load: "load_subscribers dp d = (map_err CE_Subscriber q, d2)"
    by (simp add: load_subscribers_def repo pg_subscriber_repository_def q)
  show ?thesis
  proof (cases q)
    case (Inl e)
    with run load active eps show ?thesis by (auto simp: refresh_subscribers_def)
  next
    case (Inr us)
    let ?eps = "merge_subscribers ul us (dp_endpoints dp)"
    from run load Inr have res: "r = Ok ()" "dp_endpoints dp' = ?eps" "d' = d2" by (auto simp: refresh_subscribers_def)
    from active Inr have dist: "distinct (map su_id us)" and led: "pg_subscriptions d2 = pg_subscriptions d"
      and rows: "\<And>u. u \<in> set us \<Longrightarrow> pg_subscriptions d (su_id u) = Some (subscription_of u)"
      and ids: "su_id ` set us = {i. \<exists>n. pg_subscriptions d i = Some n \<and> sn_active n}" by auto
    note spec = merge_subscribers_spec [OF ul eps dist]
    have dom: "dom (map_of ?eps) = ul_show ul ` {i. \<exists>n. pg_subscriptions d i = Some n \<and> sn_active n}"
      using spec unfolding ids [symmetric] by (simp add: image_image)
    have here: "\<exists>u \<in> set us. su_id u = i \<and> subscription_of u = n" if "pg_subscriptions d i = Some n" "sn_active n" for i n
      using that ids rows by (auto simp: image_iff set_eq_iff) (metis option.inject)
    have each: "\<exists>ep. map_of ?eps (ul_show ul i) = Some ep \<and> su_id (ep_subscriber ep) = i \<and> subscription_of (ep_subscriber ep) = n \<and>
        ep_breaker ep = (case map_of (dp_endpoints dp) (ul_show ul i) of Some old \<Rightarrow> ep_breaker old
                         | None \<Rightarrow> circuit_breaker_new default_circuit_breaker_config)"
      if "pg_subscriptions d i = Some n" "sn_active n" for i n
      using here [OF that] spec by fastforce
    note matching = merged_matching [OF ul eps ok q [unfolded Inr]]
    show ?thesis using spec dom each matching by (simp add: res led)
  qed
qed

text \<open>Two stored subscribers.\<close>

definition two_subscribers :: db where
  "two_subscribers = empty_db\<lparr>db_subscribers :=
     [subscriber_row_of decimal_uuids (sample_subscriber 1 ''b''), subscriber_row_of decimal_uuids (sample_subscriber 2 ''a'')]\<rparr>"

definition refreshed_two :: "(core_error + unit) \<times> db subscriber_dispatcher \<times> db" where
  "refreshed_two =
     refresh_subscribers decimal_uuids (subscriber_dispatcher_new (pg_subscriber_repository decimal_uuids)) two_subscribers"

lemmas refreshed_eval = refreshed_two_def refresh_subscribers_def load_subscribers_def subscriber_dispatcher_new_def
  pg_subscriber_repository_def pg_subscriber_get_all_active_def subscriber_stmt_def run_statement_calm undisturbed_def
  two_subscribers_def empty_db_def

lemma two_subscribers_ok: "pg_subscribers_ok two_subscribers"
  by (simp add: pg_subscribers_ok_def table_ok_def two_subscribers_def subscriber_row_of_def sample_subscriber_def
    subscribers_unique_def subscriber_row_check_def row_eval decimal_eval)

lemma two_subscriptions:
  "pg_subscriptions two_subscribers =
     [1 \<mapsto> subscription_of (sample_subscriber 1 ''b''), 2 \<mapsto> subscription_of (sample_subscriber 2 ''a'')]"
  by (auto simp: pg_subscriptions_def two_subscribers_def table_map_def sample_subscriber_def fun_eq_iff)

text \<open>A refresh with one known subscriber, whose breaker has counted a failure, and one that is gone.\<close>

definition stale_dispatcher :: "db subscriber_dispatcher" where
  "stale_dispatcher = (subscriber_dispatcher_new (pg_subscriber_repository decimal_uuids))
     \<lparr>dp_endpoints :=
        [(''2'', (subscriber_endpoint_new (sample_subscriber 2 ''old''))
                   \<lparr>ep_breaker := record_failure 5 (circuit_breaker_new default_circuit_breaker_config)\<rparr>),
         (''3'', subscriber_endpoint_new (sample_subscriber 3 ''c''))]\<rparr>"

theorem refresh_follows_registry_witness:
  "case refresh_subscribers decimal_uuids stale_dispatcher two_subscribers of
     (r, dp', d') \<Rightarrow> r = Ok () \<and> dom (map_of (dp_endpoints dp')) = {''1'', ''2''} \<and>
       (\<exists>ep. map_of (dp_endpoints dp') ''2'' = Some ep \<and> sn_endpoint (subscription_of (ep_subscriber ep)) = ''a'' \<and>
          ep_breaker ep = record_failure 5 (circuit_breaker_new default_circuit_breaker_config))"
proof -
  obtain r dp' d' where run: "refresh_subscribers decimal_uuids stale_dispatcher two_subscribers = (r, dp', d')"
    by (metis prod_cases3)
  have "endpoints_ok (dp_endpoints stale_dispatcher)"
    by (simp add: endpoints_ok_def stale_dispatcher_def subscriber_endpoint_new_def record_failure_sim)
  note law = refresh_follows_registry [OF decimal_uuids_ok two_subscribers_ok this _ run]
  have repo: "dp_repo stale_dispatcher = pg_subscriber_repository decimal_uuids"
    by (simp add: stale_dispatcher_def subscriber_dispatcher_new_def)
  have "fst (refresh_subscribers decimal_uuids stale_dispatcher two_subscribers) = Ok ()"
    by (simp add: stale_dispatcher_def refreshed_eval)
  with run have r: "r = Ok ()" by simp
  have ids: "{i. \<exists>n. pg_subscriptions two_subscribers i = Some n \<and> sn_active n} = {1, 2}"
    by (auto simp: two_subscriptions subscription_of_def sample_subscriber_def)
  have shown: "ul_show decimal_uuids 1 = ''1''" "ul_show decimal_uuids 2 = ''2''" by (simp_all add: decimal_eval)
  from law [OF repo] r have dom: "dom (map_of (dp_endpoints dp')) = ul_show decimal_uuids ` {1, 2}" unfolding ids by simp
  from law [OF repo] r have each: "\<forall>i n. pg_subscriptions two_subscribers i = Some n \<longrightarrow> sn_active n \<longrightarrow>
      (\<exists>ep. map_of (dp_endpoints dp') (ul_show decimal_uuids i) = Some ep \<and> su_id (ep_subscriber ep) = i \<and>
         subscription_of (ep_subscriber ep) = n \<and>
         ep_breaker ep = (case map_of (dp_endpoints stale_dispatcher) (ul_show decimal_uuids i) of
            Some old \<Rightarrow> ep_breaker old | None \<Rightarrow> circuit_breaker_new default_circuit_breaker_config))" by simp
  have old: "map_of (dp_endpoints stale_dispatcher) ''2'' =
      Some ((subscriber_endpoint_new (sample_subscriber 2 ''old''))
        \<lparr>ep_breaker := record_failure 5 (circuit_breaker_new default_circuit_breaker_config)\<rparr>)"
    by (simp add: shown stale_dispatcher_def)
  have u: "pg_subscriptions two_subscribers 2 = Some (subscription_of (sample_subscriber 2 ''a''))"
    by (simp add: two_subscriptions)
  have "sn_active (subscription_of (sample_subscriber 2 ''a''))" by (simp add: subscription_of_def sample_subscriber_def)
  from each [rule_format, OF u this] obtain ep where
    "map_of (dp_endpoints dp') ''2'' = Some ep" "subscription_of (ep_subscriber ep) = subscription_of (sample_subscriber 2 ''a'')"
    "ep_breaker ep = record_failure 5 (circuit_breaker_new default_circuit_breaker_config)"
    unfolding shown(2) old by auto
  moreover have "sn_endpoint (subscription_of (sample_subscriber 2 ''a'')) = ''a''"
    by (simp add: subscription_of_def sample_subscriber_def)
  ultimately show ?thesis using run r dom by (auto simp: shown)
qed

section \<open>Serving the subscribers that answer\<close>

text \<open>C8: A subscriber that answers is served, whatever the others do. Let the endpoints be refreshed from the
  database and the consumer work through any sequence of items, the deliveries of a message running one
  after the other. Then an active subscriber that answers every call in time, favourably or not, and
  shares its address with no other active one, is called exactly once for each message that could be
  read and whose topic one of its patterns matches, in the order of the items, with the message's topic
  and raw payload: the failures, delays and open breakers of the other subscribers cost it nothing, and
  neither does the inbox.\<close>

theorem healthy_subscriber_served:
  assumes ul: "uuid_lib_ok ul" and ok: "pg_subscribers_ok d"
    and refresh: "refresh_subscribers ul (subscriber_dispatcher_new (pg_subscriber_repository ul)) d = (Ok (), dp, d1)"
    and u: "pg_subscriptions d i = Some u" "sn_active u"
    and alone: "\<And>j v. pg_subscriptions d j = Some v \<Longrightarrow> sn_active v \<Longrightarrow> sn_endpoint v = sn_endpoint u \<Longrightarrow> j = i"
    and healthy: "answers_in_time (dp_request_timeout dp) notifier (sn_endpoint u)"
    and md: "md_subscriber_dispatcher (cs_dispatcher st) = Some (dp, recorded notifier)"
    and start: "served_at (sn_endpoint u) (cs_network st) = []"
  shows "served_at (sn_endpoint u) (cs_network (consumer_task ul sd inbox items st)) =
           map (\<lambda>(msg, _). (ic_topic msg, ic_payload msg))
             (filter (\<lambda>(msg, _). matches_any (ic_topic msg) (sn_patterns u)) (List.map_filter (readable sd) items))"
proof -
  let ?sd = "subscriber_dispatcher_new (pg_subscriber_repository ul)"
  obtain q0 d2 where q0: "pg_subscriber_get_all_active d = (q0, d2)" by fastforce
  have load: "load_subscribers ?sd d = (map_err CE_Subscriber q0, d2)"
    by (simp add: load_subscribers_def subscriber_dispatcher_new_def pg_subscriber_repository_def q0)
  obtain us where us: "q0 = Ok us"
    using refresh load by (cases q0) (simp_all add: refresh_subscribers_def)
  with load have "refresh_subscribers ul ?sd d = (Ok (), ?sd\<lparr>dp_endpoints := merge_subscribers ul us []\<rparr>, d2)"
    by (simp add: refresh_subscribers_def subscriber_dispatcher_new_def)
  with refresh have dp: "dp_endpoints dp = merge_subscribers ul us []" by auto
  from q0 us have q: "pg_subscriber_get_all_active d = (Ok us, d2)" by simp
  from pg_subscriber_get_all_active_law [OF ok q] have dist: "distinct (map su_id us)"
    and rows: "\<And>t. t \<in> set us \<Longrightarrow> pg_subscriptions d (su_id t) = Some (subscription_of t)"
    and ids: "su_id ` set us = {i. \<exists>n. pg_subscriptions d i = Some n \<and> sn_active n}" by auto
  have "i \<in> su_id ` set us" using u unfolding ids by blast
  then obtain s where s: "s \<in> set us" "su_id s = i" by blast
  with rows u have view: "subscription_of s = u" by force
  then have addr: "su_grpc_endpoint s = sn_endpoint u" and pats: "su_topic_patterns s = sn_patterns u"
    by (auto simp: subscription_of_def)
  have "t = s" if "t \<in> set us" "su_grpc_endpoint t = su_grpc_endpoint s" for t
  proof -
    have "su_id t \<in> su_id ` set us" using that(1) by (rule imageI)
    then obtain v where v: "pg_subscriptions d (su_id t) = Some v" "sn_active v" unfolding ids by blast
    with rows [OF that(1)] that(2) addr have "sn_endpoint v = sn_endpoint u" by (simp add: subscription_of_def)
    from alone [OF v this] s(2) dist that(1) s(1) show ?thesis by (auto simp: distinct_map inj_on_def)
  qed
  note roster = merged_roster [OF ul dist]
  have "sole_address s (roster (dp_endpoints dp))"
    unfolding sole_address_def dp
  proof (intro conjI ballI)
    show "s \<in> snd ` set (roster (merge_subscribers ul us []))" using s(1) roster(2) by simp
    fix x assume "x \<in> set (roster (merge_subscribers ul us []))"
    then have "snd x \<in> set us" using roster(2) by blast
    with \<open>\<And>t. t \<in> set us \<Longrightarrow> su_grpc_endpoint t = su_grpc_endpoint s \<Longrightarrow> t = s\<close>
    show "case x of (i, t) \<Rightarrow> su_grpc_endpoint t = su_grpc_endpoint s \<longrightarrow> t = s" by (auto split: prod.split)
  qed
  with md roster(1,3) s(1) healthy addr have "serves ul notifier s st"
    unfolding serves_def by (intro exI [of _ dp]) (simp add: dp)
  from consumer_task_served [OF this, of sd inbox items] start addr pats show ?thesis
    by (simp add: wanted_def subscriber_matches_topic_def)
qed

text \<open>Two subscribers of the same topics: one answers, the other one is never reachable.\<close>

definition half_reachable :: "unit subscriber_notifier" where
  "half_reachable addr request n =
     (if addr = ''a''
      then ((Ok \<lparr>no_success = False, no_error = ''busy'', no_retry = True, no_retry_delay_ms = 5\<rparr>, 20), n)
      else ((Err (NE_Transport ''unreachable''), 20), n))"

definition fanning_consumer :: "db subscriber_dispatcher \<Rightarrow> 'n subscriber_notifier \<Rightarrow> (db, 'n \<times> call_log) consumer_state \<Rightarrow> (db, 'n \<times> call_log) consumer_state" where
  "fanning_consumer dp notifier st =
     st\<lparr>cs_dispatcher := with_subscriber_dispatcher (pg_subscriber_repository decimal_uuids) (dp, recorded notifier)\<rparr>"

definition sample_network :: "(db, unit \<times> call_log) consumer_state" where
  "sample_network =
     \<lparr>cs_pending = [], cs_dispatcher = message_dispatcher_new (pg_subscriber_repository decimal_uuids),
      cs_runtime = counting_runtime, cs_store = empty_db, cs_network = ((), []), cs_events = []\<rparr>"

theorem healthy_subscriber_served_witness:
  "let st = fanning_consumer (fst (snd refreshed_two)) half_reachable sample_network;
       item = sample_item (Ok (sample_incoming\<lparr>ic_topic := ''orders.eu''\<rparr>)) True
   in served_at ''a'' (cs_network (consumer_task decimal_uuids null_serde pg_inbox_repository [item, item, item] st)) =
        [(''orders.eu'', []), (''orders.eu'', []), (''orders.eu'', [])]"
proof -
  let ?dp = "fst (snd refreshed_two)"
  let ?st = "fanning_consumer ?dp half_reachable sample_network"
  let ?item = "sample_item (Ok (sample_incoming\<lparr>ic_topic := ''orders.eu''\<rparr>)) True"
  let ?u = "subscription_of (sample_subscriber 2 ''a'')"
  have refresh: "refresh_subscribers decimal_uuids (subscriber_dispatcher_new (pg_subscriber_repository decimal_uuids))
      two_subscribers = (Ok (), ?dp, snd (snd refreshed_two))"
  proof -
    have "fst refreshed_two = Ok ()" by (simp add: refreshed_eval)
    then show ?thesis unfolding refreshed_two_def by (metis prod.collapse)
  qed
  have u: "pg_subscriptions two_subscribers 2 = Some ?u" "sn_active ?u" "sn_endpoint ?u = ''a''"
    "sn_patterns ?u = [''orders.*'']"
    by (simp_all add: two_subscriptions subscription_of_def sample_subscriber_def)
  have alone: "j = 2" if "pg_subscriptions two_subscribers j = Some v" "sn_active v" "sn_endpoint v = sn_endpoint ?u" for j v
    using that by (auto simp: two_subscriptions subscription_of_def sample_subscriber_def split: if_splits)
  have limit: "dp_request_timeout ?dp = 10000" by (simp add: refreshed_eval)
  have healthy: "answers_in_time (dp_request_timeout ?dp) half_reachable (sn_endpoint ?u)"
    by (simp add: answers_in_time_def half_reachable_def u(3) limit)
  have md: "md_subscriber_dispatcher (cs_dispatcher ?st) = Some (?dp, recorded half_reachable)"
    by (simp add: fanning_consumer_def with_subscriber_dispatcher_def)
  have start: "served_at (sn_endpoint ?u) (cs_network ?st) = []"
    by (simp add: fanning_consumer_def sample_network_def served_at_def)
  have "served_at (sn_endpoint ?u) (cs_network (consumer_task decimal_uuids null_serde pg_inbox_repository [?item, ?item, ?item] ?st)) =
      map (\<lambda>(msg, _). (ic_topic msg, ic_payload msg))
        (filter (\<lambda>(msg, _). matches_any (ic_topic msg) (sn_patterns ?u))
          (List.map_filter (readable null_serde) [?item, ?item, ?item]))"
    by (rule healthy_subscriber_served [OF decimal_uuids_ok two_subscribers_ok refresh u(1,2) _ healthy md start]) (rule alone)
  also have "\<dots> = [(''orders.eu'', []), (''orders.eu'', []), (''orders.eu'', [])]"
    unfolding u(4) by code_simp
  finally show ?thesis unfolding Let_def u(3) .
qed

end
