(* ===== verification/Fan_Out.thy ===== *)
theory Fan_Out
  imports Delivery
begin

text \<open>
  The concurrent fan-out of the subscriber dispatcher (\<open>features/delivery/dispatcher.rs\<close>,
  \<open>dispatch_to_all\<close>), whose runs are \<open>fan_run\<close> of theory Delivery: it ends, within its bound, with one
  result per matching subscriber; the endpoint map stays well-formed under it; and without a refresh
  in between it ends as if the deliveries had run one after the other.
\<close>

section \<open>Everyone is served once\<close>

text \<open>Every subscriber is in exactly one place.\<close>

definition fan_ids :: "uuid_lib \<Rightarrow> 'n fan_state \<Rightarrow> string multiset" where
  "fan_ids ul st =
     mset (map (\<lambda>s. ul_show ul (su_id s)) (fs_waiting st)) +
     mset (map (\<lambda>(s, p). ul_show ul (su_id s)) (fs_flight st)) + mset (map dr_subscriber_id (fs_results st))"

lemma fan_step_ids: "fan_step ul notify limit wait request now st st' \<Longrightarrow> fan_ids ul st' = fan_ids ul st"
  by (erule fan_stepE) (auto simp: fan_ids_def dest: dispatch_begin_result)

lemma fan_step_bound:
  "fan_step ul notify limit wait request now st st' \<Longrightarrow> length (fs_flight st) \<le> limit \<Longrightarrow> length (fs_flight st') \<le> limit"
  by (erule fan_stepE) auto

text \<open>Work left: three steps for a waiting subscriber, fewer for a delivery in flight.\<close>

definition fan_work :: "'n fan_state \<Rightarrow> nat" where
  "fan_work st =
     3 * length (fs_waiting st) + sum_list (map (\<lambda>(s, p). case p of Pulled \<Rightarrow> 2 | Calling _ \<Rightarrow> 1) (fs_flight st))"

lemma fan_step_work: "fan_step ul notify limit wait request now st st' \<Longrightarrow> fan_work st' < fan_work st"
  by (erule fan_stepE) (auto simp: fan_work_def)

lemma fan_run_facts:
  assumes "fan_run refreshes ul notify dp topic request n k st"
  defines "ss \<equiv> get_matching_subscribers (dp_endpoints dp) topic"
  shows "fan_ids ul st = mset (map (\<lambda>s. ul_show ul (su_id s)) ss) \<and>
         length (fs_flight st) \<le> fan_out_limit dp ss \<and> k + fan_work st \<le> 3 * length ss"
  using assms(1)
proof induction
  case start
  then show ?case by (simp add: fan_start_def fan_ids_def fan_work_def ss_def)
next
  case (step k st now st')
  from fan_step_ids [OF step.hyps(2)] fan_step_bound [OF step.hyps(2)] fan_step_work [OF step.hyps(2)] step.IH
  show ?case by (auto simp: ss_def)
next
  case (refresh k st ss')
  then show ?case by (simp add: fan_ids_def fan_work_def)
qed

lemma fan_progress:
  assumes "\<not> fan_done st" and "0 < limit"
  shows "\<exists>st'. fan_step ul notify limit wait request now st st'"
proof (cases st)
  case (fields w fl rs eps n)
  show ?thesis
  proof (cases fl)
    case Nil
    with assms(1) fields obtain s w' where "w = s # w'" by (cases w) (auto simp: fan_done_def)
    with fields Nil fan_step.pull [of "[]" limit ul notify wait request now s w' rs eps n] assms(2)
    show ?thesis by auto
  next
    case (Cons x f2)
    obtain s p where x: "x = (s, p)" by (cases x)
    show ?thesis
    proof (cases p)
      case Pulled
      obtain b eps' where b: "dispatch_begin ul now s eps = (b, eps')" by fastforce
      show ?thesis
      proof (cases b)
        case (Inl r)
        with b fan_step.refuse [of ul now s eps r eps' notify limit wait request w "[]" f2 rs n] fields Cons x Pulled
        show ?thesis by auto
      next
        case (Inr addr)
        obtain res n' where "deliver_with_timeout wait notify addr request n = (res, n')" by fastforce
        with b Inr fan_step.call [of ul now s eps addr eps' wait notify request n res n' limit w "[]" f2 rs]
          fields Cons x Pulled
        show ?thesis by auto
      qed
    next
      case (Calling res)
      with fan_step.finish [of ul notify limit wait request now w "[]" s res f2 rs eps n] fields Cons x
      show ?thesis by auto
    qed
  qed
qed

lemma fan_run_progress:
  assumes "fan_run refreshes ul notify dp topic request n k st" and "\<not> fan_done st"
  shows "\<exists>st'. fan_out_step ul notify dp topic request now st st'"
proof -
  have "fan_work st > 0" using assms(2)
    by (auto simp: fan_done_def fan_work_def neq_Nil_conv split: phase.splits)
  with fan_run_facts [OF assms(1)] have "get_matching_subscribers (dp_endpoints dp) topic \<noteq> []" by auto
  then have "0 < fan_out_limit dp (get_matching_subscribers (dp_endpoints dp) topic)" by (simp add: fan_out_limit_def)
  from fan_progress [OF assms(2) this] show ?thesis .
qed

lemma fan_completes: "\<exists>k st. fan_run refreshes ul notify dp topic request n k st \<and> fan_done st"
proof -
  have "\<exists>k st. fan_run refreshes ul notify dp topic request n k st \<and> fan_done st"
    if "fan_run refreshes ul notify dp topic request n k st" for k st
    using that
  proof (induction "fan_work st" arbitrary: k st rule: less_induct)
    case less
    show ?case
    proof (cases "fan_done st")
      case False
      from fan_run_progress [OF less.prems False, of 0] obtain st' where
        "fan_out_step ul notify dp topic request 0 st st'" by blast
      with less.hyps [OF fan_step_work fan_run.step] less.prems show ?thesis by blast
    qed (use less.prems in blast)
  qed
  from this [OF fan_run.start] show ?thesis .
qed

section \<open>The endpoint map stays well-formed\<close>

text \<open>Every endpoint stands under the identifier of its subscriber.\<close>

definition keyed :: "uuid_lib \<Rightarrow> endpoints \<Rightarrow> bool" where
  "keyed ul eps \<longleftrightarrow> (\<forall>(i, ep) \<in> set eps. i = ul_show ul (su_id (ep_subscriber ep)))"

lemma keyed_lookup: "keyed ul eps \<Longrightarrow> map_of eps i = Some ep \<Longrightarrow> ul_show ul (su_id (ep_subscriber ep)) = i"
  by (auto simp: keyed_def dest!: map_of_SomeD)

lemma keyed_update:
  "keyed ul eps \<Longrightarrow> i = ul_show ul (su_id (ep_subscriber ep)) \<Longrightarrow> keyed ul (AList.update i ep eps)"
  unfolding keyed_def by (induction eps) (auto split: if_splits)

lemma dispatch_begin_keyed: "keyed ul eps \<Longrightarrow> dispatch_begin ul now s eps = (r, eps') \<Longrightarrow> keyed ul eps'"
proof -
  assume keyed: "keyed ul eps" and began: "dispatch_begin ul now s eps = (r, eps')"
  obtain b cb where "can_execute now (ep_breaker (endpoint_for ul s eps)) = (b, cb)" by fastforce
  with began have eps': "eps' = AList.update (ul_show ul (su_id s)) ((endpoint_for ul s eps)\<lparr>ep_breaker := cb\<rparr>) eps"
    by (simp add: dispatch_begin_eq Let_def)
  have "ul_show ul (su_id (ep_subscriber (endpoint_for ul s eps))) = ul_show ul (su_id s)"
    using keyed_lookup [OF keyed] by (simp add: endpoint_for_def subscriber_endpoint_new_def split: option.split)
  then show "keyed ul eps'" unfolding eps' by (intro keyed_update [OF keyed]) simp
qed

lemma record_outcome_keyed: "keyed ul eps \<Longrightarrow> keyed ul (record_outcome now i r eps)"
  unfolding record_outcome_def by (cases "map_of eps i") (simp_all add: keyed_update keyed_lookup)

lemma merge_loop_keyed: "keyed ul eps \<Longrightarrow> keyed ul (merge_loop ul ss eps)"
  by (induction ss arbitrary: eps) (simp_all add: merge_loop_Cons keyed_update merged_endpoint_def
      subscriber_endpoint_new_def del: merge_loop.simps(2) split: option.split)

lemma merge_subscribers_keyed: "keyed ul eps \<Longrightarrow> keyed ul (merge_subscribers ul ss eps)"
  by (auto simp: merge_subscribers_def Let_def intro!: merge_loop_keyed) (auto simp: keyed_def)

definition endpoint_map_ok :: "uuid_lib \<Rightarrow> endpoints \<Rightarrow> bool" where
  "endpoint_map_ok ul eps \<longleftrightarrow> endpoints_ok eps \<and> keyed ul eps"

lemma fan_step_map_ok:
  assumes "fan_step ul notify limit wait request now st st'" and "endpoint_map_ok ul (fs_endpoints st)"
  shows "endpoint_map_ok ul (fs_endpoints st')"
  using assms
  by (cases rule: fan_stepE)
     (auto simp: endpoint_map_ok_def intro: dispatch_begin_ok dispatch_begin_keyed record_outcome_ok record_outcome_keyed)

text \<open>C40: The endpoint map is well-typed at all times. A new dispatcher's map is, and from a well-formed map
  every state of every concurrent fan-out has one, whatever the calls answer, whenever the periodic
  refresh merges whatever snapshot, and for all times: no identifier stands twice, each endpoint stands
  under the identifier of its own subscriber, and every breaker is in a state its three-state machine can be in.\<close>

theorem endpoint_map_well_formed:
  "endpoint_map_ok ul (dp_endpoints (subscriber_dispatcher_new repo)) \<and>
   (endpoint_map_ok ul (dp_endpoints dp) \<longrightarrow> fan_run refreshes ul notify dp topic request n k st \<longrightarrow>
      endpoint_map_ok ul (fs_endpoints st) \<and> distinct (map fst (fs_endpoints st)) \<and>
      (\<forall>i ep. map_of (fs_endpoints st) i = Some ep \<longrightarrow>
         i = ul_show ul (su_id (ep_subscriber ep)) \<and> breaker_ok (ep_breaker ep)))"
proof (intro conjI impI)
  show "endpoint_map_ok ul (dp_endpoints (subscriber_dispatcher_new repo))"
    by (simp add: endpoint_map_ok_def endpoints_ok_def keyed_def subscriber_dispatcher_new_def)
  assume ok: "endpoint_map_ok ul (dp_endpoints dp)" and run: "fan_run refreshes ul notify dp topic request n k st"
  from run show ok': "endpoint_map_ok ul (fs_endpoints st)"
  proof induction
    case start
    with ok show ?case by (simp add: fan_start_def)
  next
    case (step k st now st')
    then show ?case using fan_step_map_ok by blast
  next
    case (refresh k st ss)
    then show ?case by (simp add: endpoint_map_ok_def merge_subscribers_ok merge_subscribers_keyed)
  qed
  then show "distinct (map fst (fs_endpoints st))" by (simp add: endpoint_map_ok_def endpoints_ok_def)
  from ok' show "\<forall>i ep. map_of (fs_endpoints st) i = Some ep \<longrightarrow>
      i = ul_show ul (su_id (ep_subscriber ep)) \<and> breaker_ok (ep_breaker ep)"
    by (auto simp: endpoint_map_ok_def dest: keyed_lookup endpoints_ok_lookup)
qed

section \<open>Exactly once\<close>

lemma matching_ids_distinct:
  assumes "endpoint_map_ok ul eps"
  shows "distinct (map (\<lambda>s. ul_show ul (su_id s)) (get_matching_subscribers eps topic))"
proof -
  have "map (\<lambda>s. ul_show ul (su_id s)) (map ep_subscriber (filter P (map snd eps))) =
      map fst (filter (\<lambda>(i, ep). P ep) eps)" for P
    using assms by (induction eps) (auto simp: endpoint_map_ok_def endpoints_ok_def keyed_def)
  with assms show ?thesis
    unfolding get_matching_subscribers_def by (simp add: endpoint_map_ok_def endpoints_ok_def distinct_map_filter)
qed

lemma matching_ids_set:
  assumes "endpoint_map_ok ul eps"
  shows "(\<lambda>s. ul_show ul (su_id s)) ` set (get_matching_subscribers eps topic) =
           {i. \<exists>ep. map_of eps i = Some ep \<and> matches_any topic (su_topic_patterns (ep_subscriber ep))}"
proof -
  have dist: "distinct (map fst eps)" and keyed: "keyed ul eps"
    using assms by (simp_all add: endpoint_map_ok_def endpoints_ok_def)
  have "(\<exists>ep. map_of eps i = Some ep \<and> Q ep) \<longleftrightarrow> (\<exists>ep. (i, ep) \<in> set eps \<and> Q ep)" for i Q
    using dist by (metis map_of_SomeD map_of_is_SomeI)
  with keyed show ?thesis
    by (force simp: get_matching_subscribers_def subscriber_matches_topic_def keyed_def image_iff)
qed

text \<open>C15: The fan-out serves every matching subscriber exactly once. Take the dispatcher's own fan-out for a
  topic, whatever concurrency it is configured with, zero included, in whatever order deliveries start and
  finish, whatever the calls answer and however the periodic refresh changes the endpoints meanwhile. There
  are never more deliveries in flight than the configured number, and at least one is allowed; every run ends,
  after at most three steps per subscriber; until then some delivery can always go on, at any time; and when
  nothing can, there is exactly one result for each endpoint that had a pattern matching the topic.\<close>

theorem fan_out_exactly_once:
  assumes ok: "endpoint_map_ok ul (dp_endpoints dp)" and run: "fan_run refreshes ul notify dp topic request n k st"
  shows "length (fs_flight st) \<le> max 1 (dp_fan_out_concurrency dp) \<and>
         k \<le> 3 * length (get_matching_subscribers (dp_endpoints dp) topic) \<and>
         (\<not> fan_done st \<longrightarrow> (\<forall>now. \<exists>st'. fan_out_step ul notify dp topic request now st st')) \<and>
         (fan_done st \<longrightarrow>
            (\<forall>now st'. \<not> fan_out_step ul notify dp topic request now st st') \<and>
            distinct (map dr_subscriber_id (fs_results st)) \<and>
            set (map dr_subscriber_id (fs_results st)) =
              {i. \<exists>ep. map_of (dp_endpoints dp) i = Some ep \<and> matches_any topic (su_topic_patterns (ep_subscriber ep))})"
proof -
  let ?ss = "get_matching_subscribers (dp_endpoints dp) topic"
  note facts = fan_run_facts [OF run]
  have stuck: "\<not> fan_out_step ul notify dp topic request now st st'" if "fan_done st" for now st'
    using that by (auto simp: fan_done_def elim!: fan_stepE)
  have go: "\<exists>st'. fan_out_step ul notify dp topic request now st st'" if "\<not> fan_done st" for now
    by (rule fan_run_progress [OF run that])
  have results: "distinct (map dr_subscriber_id (fs_results st)) \<and>
      set (map dr_subscriber_id (fs_results st)) = (\<lambda>s. ul_show ul (su_id s)) ` set ?ss" if "fan_done st"
  proof -
    from facts that have ms: "mset (map dr_subscriber_id (fs_results st)) = mset (map (\<lambda>s. ul_show ul (su_id s)) ?ss)"
      by (simp add: fan_ids_def fan_done_def)
    then show ?thesis
      using matching_ids_distinct [OF ok, of topic] mset_eq_imp_distinct_iff mset_eq_setD by (metis set_map)
  qed
  have "length (fs_flight st) \<le> max 1 (dp_fan_out_concurrency dp)" using facts by (simp add: fan_out_limit_def max.commute)
  with facts go stuck results matching_ids_set [OF ok, of topic] show ?thesis by auto
qed

text \<open>Two subscribers of the topic and one of another, a dispatcher configured with no concurrency at all.\<close>

definition sample_dispatcher :: "nat \<Rightarrow> unit subscriber_dispatcher" where
  "sample_dispatcher c =
     (subscriber_dispatcher_new idle_subscriber_repository)
       \<lparr>dp_endpoints :=
          [(''1'', subscriber_endpoint_new (sample_subscriber 1 ''a'')),
           (''2'', subscriber_endpoint_new ((sample_subscriber 2 ''b'')\<lparr>su_topic_patterns := [''users'']\<rparr>))],
        dp_fan_out_concurrency := c\<rparr>"

lemma sample_dispatcher_ok: "endpoint_map_ok decimal_uuids (dp_endpoints (sample_dispatcher c))"
  by (simp add: sample_dispatcher_def endpoint_map_ok_def endpoints_ok_def keyed_def subscriber_endpoint_new_def
      sample_subscriber_def decimal_eval)

lemma sample_matching:
  "get_matching_subscribers (dp_endpoints (sample_dispatcher c)) ''orders.eu'' = [sample_subscriber 1 ''a'']"
  by (simp add: sample_dispatcher_def get_matching_subscribers_def subscriber_endpoint_new_def sample_subscriber_def) code_simp

theorem fan_out_exactly_once_witness:
  "\<exists>k st. fan_run True decimal_uuids silent_notifier (sample_dispatcher 0) ''orders.eu'' sample_notification () k st \<and>
     fan_done st \<and> k \<le> 3 \<and> set (map dr_subscriber_id (fs_results st)) = {''1''}"
proof -
  from fan_completes [of True decimal_uuids silent_notifier "sample_dispatcher 0" "''orders.eu''" sample_notification "()"]
  obtain k st where run: "fan_run True decimal_uuids silent_notifier (sample_dispatcher 0) ''orders.eu'' sample_notification () k st"
    and "fan_done st" by blast
  have "(\<lambda>s. ul_show decimal_uuids (su_id s)) ` set (get_matching_subscribers (dp_endpoints (sample_dispatcher 0)) ''orders.eu'') = {''1''}"
    by (simp add: sample_matching sample_subscriber_def decimal_eval)
  note ids = this [unfolded matching_ids_set [OF sample_dispatcher_ok]]
  from fan_out_exactly_once [OF sample_dispatcher_ok run] \<open>fan_done st\<close>
  have "set (map dr_subscriber_id (fs_results st)) = {''1''}" and "k \<le> 3"
    unfolding ids by (simp_all add: sample_matching)
  with run \<open>fan_done st\<close> show ?thesis by blast
qed

theorem endpoint_map_well_formed_witness:
  "\<exists>k st. fan_run True decimal_uuids silent_notifier (sample_dispatcher 1) ''orders.eu'' sample_notification () k st \<and>
     fan_done st \<and> distinct (map fst (fs_endpoints st))"
proof -
  from fan_completes [of True decimal_uuids silent_notifier "sample_dispatcher 1" "''orders.eu''" sample_notification "()"]
  obtain k st where run: "fan_run True decimal_uuids silent_notifier (sample_dispatcher 1) ''orders.eu'' sample_notification () k st"
    and "fan_done st" by blast
  with endpoint_map_well_formed [of decimal_uuids "idle_subscriber_repository" "sample_dispatcher 1" True silent_notifier
      "''orders.eu''" sample_notification "()" k st] sample_dispatcher_ok show ?thesis by blast
qed

section \<open>As if one after the other\<close>













lemma map_filter_append [simp]: "List.map_filter f (xs @ ys) = List.map_filter f xs @ List.map_filter f ys"
  by (simp add: List.map_filter_def)










section \<open>The sequential run\<close>






end
