(* ===== verification/Startup.thy ===== *)
theory Startup
  imports Kafka
begin

text \<open>
  What the server opens before it runs: loading the settings (\<open>rs-broker-config/src/settings.rs\<close>), the
  connection pool and the migrations (\<open>rs-broker-db/src/pool.rs\<close>, \<open>migration.rs\<close>) and the Kafka
  clients (\<open>producer/client.rs\<close>, \<open>consumer/client.rs\<close>). The crates behind them (\<open>config\<close>, \<open>sqlx\<close>,
  \<open>rdkafka\<close>) are parameters; what is modelled is what the code asks of them and how it passes their
  errors on.
\<close>

section \<open>Settings\<close>

text \<open>The sources of the configuration, later ones winning; \<open>'v\<close> is a built configuration.\<close>

datatype config_source =
    Source_File string bool              \<comment> \<open>\<open>File::with_name(..).required(..)\<close>\<close>
  | Source_Environment string string string \<comment> \<open>prefix, separator after it, separator of the path\<close>

datatype config_error = CFE_Config string | CFE_Io string

fun config_error_to_string :: "config_error \<Rightarrow> string" where
  "config_error_to_string (CFE_Config e) = ''Configuration error: '' @ e"
| "config_error_to_string (CFE_Io e) = ''IO error: '' @ e"

record 'v config_lib =
  cl_var :: "string \<Rightarrow> string option"                          \<comment> \<open>\<open>std::env::var\<close>, unset or not Unicode\<close>
  cl_build :: "config_source list \<Rightarrow> string + 'v"
  cl_deserialize :: "'v \<Rightarrow> string + settings"

definition settings_sources :: "string \<Rightarrow> string \<Rightarrow> config_source list" where
  "settings_sources path environment =
     [Source_File (path @ ''/default'') True,
      Source_File (path @ ''/'' @ environment) False,
      Source_Environment ''RS_BROKER'' ''_'' ''__'']"

definition load_from_file :: "'v config_lib \<Rightarrow> string \<Rightarrow> config_error + settings" where
  "load_from_file cl path =
     (let environment = unwrap_or (cl_var cl ''RS_BROKER_ENV'') ''development''
      in case cl_build cl (settings_sources path environment) of
           Err e \<Rightarrow> Err (CFE_Config e)
         | Ok config \<Rightarrow> map_err CFE_Config (cl_deserialize cl config))"

section \<open>The connection pool\<close>

datatype pool_error = PE_Database string | PE_Config string

fun pool_error_to_string :: "pool_error \<Rightarrow> string" where
  "pool_error_to_string (PE_Database e) = ''Database error: '' @ e"
| "pool_error_to_string (PE_Config e) = ''Configuration error: '' @ e"

text \<open>The options set on \<open>PgPoolOptions\<close>, and on \<open>MySqlPoolOptions\<close> alike; times in seconds.\<close>

record pool_options =
  po_max_connections :: u32
  po_acquire_timeout :: u64
  po_max_lifetime :: u64
  po_min_connections :: "u32 option"     \<comment> \<open>left at the crate's default when \<open>None\<close>\<close>

definition pool_options_of :: "database_config \<Rightarrow> pool_options" where
  "pool_options_of config =
     (let options = \<lparr>po_max_connections = dc_max_connections config,
                     po_acquire_timeout = dc_connection_timeout config,
                     po_max_lifetime = dc_max_lifetime config, po_min_connections = None\<rparr>
      in case dc_min_idle_connections config of
           Some min_idle \<Rightarrow> options\<lparr>po_min_connections := Some min_idle\<rparr>
         | None \<Rightarrow> options)"

text \<open>\<open>connect\<close> is the pool's \<open>connect\<close>, with its error as text, on the database behind the URL.\<close>

definition create_pool ::
  "(pool_options \<Rightarrow> string \<Rightarrow> 's \<Rightarrow> (string + unit) \<times> 's) \<Rightarrow> database_config \<Rightarrow> 's \<Rightarrow> (pool_error + unit) \<times> 's" where
  "create_pool connect config s =
     (let url = connection_url config;
          options = pool_options_of config
      in apfst (map_err PE_Database) (connect options url s))"

section \<open>Migrations\<close>

datatype migration_error = ME_Database string | ME_Migration string

fun migration_error_to_string :: "migration_error \<Rightarrow> string" where
  "migration_error_to_string (ME_Database e) = ''Database error: '' @ e"
| "migration_error_to_string (ME_Migration e) = ''Migration error: '' @ e"

text \<open>\<open>migrate\<close> runs the files of \<open>migrations/\<close>, with its error as text.\<close>

definition run_migrations :: "('s \<Rightarrow> (string + unit) \<times> 's) \<Rightarrow> 's \<Rightarrow> (migration_error + unit) \<times> 's" where
  "run_migrations migrate s = apfst (map_err ME_Migration) (migrate s)"

section \<open>Kafka clients\<close>

text \<open>\<open>create\<close> is \<open>ClientConfig::create\<close>: a producer's driver, a consumer's handle.\<close>

definition kafka_producer_new_with_config ::
  "(client_config \<Rightarrow> rd_error + 'k kafka_driver) \<Rightarrow> client_config \<Rightarrow> kafka_error + 'k kafka_driver" where
  "kafka_producer_new_with_config create config = map_err KE_RdKafka (create config)"

definition kafka_producer_new ::
  "(client_config \<Rightarrow> rd_error + 'k kafka_driver) \<Rightarrow> kafka_config \<Rightarrow> kafka_error + 'k kafka_driver" where
  "kafka_producer_new create config = kafka_producer_new_with_config create (create_producer_config config)"

definition kafka_consumer_new_with_config ::
  "(client_config \<Rightarrow> rd_error + 'c) \<Rightarrow> client_config \<Rightarrow> kafka_error + 'c" where
  "kafka_consumer_new_with_config create config = map_err KE_RdKafka (create config)"

definition kafka_consumer_new :: "(client_config \<Rightarrow> rd_error + 'c) \<Rightarrow> kafka_config \<Rightarrow> kafka_error + 'c" where
  "kafka_consumer_new create config = kafka_consumer_new_with_config create (create_consumer_config config)"

text \<open>Subscribing leaves its mark on the handle.\<close>

definition kafka_consumer_subscribe ::
  "('c \<Rightarrow> string list \<Rightarrow> rd_error + 'c) \<Rightarrow> 'c \<Rightarrow> string list \<Rightarrow> kafka_error + 'c" where
  "kafka_consumer_subscribe subscribe c topics = map_err KE_RdKafka (subscribe c topics)"

section \<open>Lemmas\<close>

text \<open>The pool starts with the configured idle connections. \<open>min_connections\<close>, the other setting of
  \<open>DatabaseConfig\<close> that sounds like it, and \<open>auto_migrate\<close> are read nowhere.\<close>

lemma pool_options_of_simps [simp]:
  "po_max_connections (pool_options_of c) = dc_max_connections c"
  "po_acquire_timeout (pool_options_of c) = dc_connection_timeout c"
  "po_max_lifetime (pool_options_of c) = dc_max_lifetime c"
  "po_min_connections (pool_options_of c) = dc_min_idle_connections c"
  by (simp_all add: pool_options_of_def Let_def split: option.splits)

lemma create_pool_cong:
  assumes "connection_url c = connection_url c'"
    and "dc_max_connections c = dc_max_connections c'" and "dc_connection_timeout c = dc_connection_timeout c'"
    and "dc_max_lifetime c = dc_max_lifetime c'" and "dc_min_idle_connections c = dc_min_idle_connections c'"
  shows "create_pool connect c = create_pool connect c'"
proof -
  have "pool_options_of c = pool_options_of c'" using assms by simp
  with assms(1) show ?thesis by (simp add: create_pool_def fun_eq_iff)
qed

lemma load_from_file_error: "load_from_file cl path = Err e \<Longrightarrow> \<exists>t. e = CFE_Config t"
  by (auto simp: load_from_file_def Let_def split: sum.splits)

end
