(* ===== verification/Metrics.thy ===== *)
theory Metrics
  imports Runtime
begin

text \<open>
  \<open>rs-broker-server/src/metrics.rs\<close>: the broker's Prometheus metrics. The \<open>prometheus\<close> crate is a
  parameter (\<open>prometheus\<close>), over its own state \<open>'m\<close> of all registered metrics with their values;
  nothing is assumed of it.
\<close>

section \<open>The crate\<close>

text \<open>A metric is known by its options: name and help text, and label names or bucket bounds.\<close>

datatype metric_desc =
    Counter_Vec string string "string list"
  | Histogram_Of string string "f64 list"
  | Gauge string string

record 'm prometheus =
  pr_registry :: 'm                                                  \<comment> \<open>\<open>Registry::new\<close>\<close>
  pr_new :: "metric_desc \<Rightarrow> string + unit"                             \<comment> \<open>the metric's constructor\<close>
  pr_register :: "metric_desc \<Rightarrow> 'm \<Rightarrow> string + 'm"
  pr_counter_inc :: "metric_desc \<Rightarrow> string list \<Rightarrow> 'm \<Rightarrow> 'm"           \<comment> \<open>\<open>with_label_values(..).inc()\<close>\<close>
  pr_observe :: "metric_desc \<Rightarrow> f64 \<Rightarrow> 'm \<Rightarrow> 'm"
  pr_gauge_set :: "metric_desc \<Rightarrow> i64 \<Rightarrow> 'm \<Rightarrow> 'm"
  pr_gauge_inc :: "metric_desc \<Rightarrow> 'm \<Rightarrow> 'm"
  pr_gauge_dec :: "metric_desc \<Rightarrow> 'm \<Rightarrow> 'm"
  pr_encode :: "'m \<Rightarrow> string + bytes"                                  \<comment> \<open>gather, then \<open>TextEncoder\<close>\<close>

section \<open>Construction\<close>

record 'm metrics =
  mt_registry :: 'm
  mt_outbox_messages_total :: metric_desc
  mt_outbox_publish_duration_seconds :: metric_desc
  mt_inbox_messages_total :: metric_desc
  mt_subscribers_active :: metric_desc

definition outbox_messages_total :: metric_desc where
  "outbox_messages_total =
     Counter_Vec ''rs_broker_outbox_messages_total''
       ''Total number of outbox messages processed, labeled by terminal status.'' [''status'']"

definition outbox_publish_duration_seconds :: metric_desc where
  "outbox_publish_duration_seconds =
     Histogram_Of ''rs_broker_outbox_publish_duration_seconds''
       ''Duration in seconds of an outbox publish attempt to Kafka.''
       (map F_Fin [1 / 1000, 5 / 1000, 1 / 100, 25 / 1000, 5 / 100, 1 / 10, 25 / 100, 5 / 10, 1, 25 / 10, 5, 10])"

definition inbox_messages_total :: metric_desc where
  "inbox_messages_total =
     Counter_Vec ''rs_broker_inbox_messages_total''
       ''Total number of inbox messages received from Kafka.'' [''status'']"

definition subscribers_active :: metric_desc where
  "subscribers_active =
     Gauge ''rs_broker_subscribers_active'' ''Number of currently active gRPC subscribers.''"

fun create_metrics :: "'m prometheus \<Rightarrow> metric_desc list \<Rightarrow> string + unit" where
  "create_metrics pr [] = Ok ()"
| "create_metrics pr (d # ds) = (case pr_new pr d of Err e \<Rightarrow> Err e | Ok _ \<Rightarrow> create_metrics pr ds)"

fun register_metrics :: "'m prometheus \<Rightarrow> metric_desc list \<Rightarrow> 'm \<Rightarrow> string + 'm" where
  "register_metrics pr [] m = Ok m"
| "register_metrics pr (d # ds) m =
     (case pr_register pr d m of Err e \<Rightarrow> Err e | Ok m1 \<Rightarrow> register_metrics pr ds m1)"

definition metrics_new :: "'m prometheus \<Rightarrow> string + 'm metrics" where
  "metrics_new pr =
     (let ds = [outbox_messages_total, outbox_publish_duration_seconds, inbox_messages_total, subscribers_active]
      in case create_metrics pr ds of
           Err e \<Rightarrow> Err e
         | Ok _ \<Rightarrow>
             map_ok (\<lambda>m. \<lparr>mt_registry = m, mt_outbox_messages_total = outbox_messages_total,
                          mt_outbox_publish_duration_seconds = outbox_publish_duration_seconds,
                          mt_inbox_messages_total = inbox_messages_total,
                          mt_subscribers_active = subscribers_active\<rparr>)
               (register_metrics pr ds (pr_registry pr)))"

section \<open>Rendering\<close>

text \<open>\<open>String::from_utf8\<close>: the number of continuation bytes a lead byte announces and the range of
  the first of them; an over-long form, a surrogate and a value above \<open>10FFFF\<close> are refused.\<close>

definition utf8_width :: "nat \<Rightarrow> nat option" where
  "utf8_width a =
     (if a < 128 then Some 0
      else if 194 \<le> a \<and> a \<le> 223 then Some 1
      else if 224 \<le> a \<and> a \<le> 239 then Some 2
      else if 240 \<le> a \<and> a \<le> 244 then Some 3
      else None)"

definition utf8_second :: "nat \<Rightarrow> nat \<Rightarrow> bool" where
  "utf8_second a b =
     (if a = 224 then 160 \<le> b \<and> b \<le> 191
      else if a = 237 then 128 \<le> b \<and> b \<le> 159
      else if a = 240 then 144 \<le> b \<and> b \<le> 191
      else if a = 244 then 128 \<le> b \<and> b \<le> 143
      else 128 \<le> b \<and> b \<le> 191)"

fun utf8_valid :: "nat list \<Rightarrow> bool" where
  "utf8_valid [] = True"
| "utf8_valid (a # bs) =
     (case utf8_width a of
        None \<Rightarrow> False
      | Some n \<Rightarrow>
          n \<le> length bs \<and> (n > 0 \<longrightarrow> utf8_second a (hd bs)) \<and>
          list_all (\<lambda>b. 128 \<le> b \<and> b \<le> 191) (take n bs) \<and> utf8_valid (drop n bs))"

definition string_from_utf8 :: "bytes \<Rightarrow> string + string" where
  "string_from_utf8 bs =
     (if utf8_valid (map unat bs) then Ok (map (\<lambda>b. char_of (unat b)) bs) else Err ''invalid utf-8 sequence'')"

definition render :: "'m prometheus \<Rightarrow> 'm metrics \<Rightarrow> string + string" where
  "render pr mt = (case pr_encode pr (mt_registry mt) of Err e \<Rightarrow> Err e | Ok buffer \<Rightarrow> string_from_utf8 buffer)"

section \<open>Recording\<close>

definition record_published :: "'m prometheus \<Rightarrow> 'm metrics \<Rightarrow> 'm metrics" where
  "record_published pr mt =
     mt\<lparr>mt_registry := pr_counter_inc pr (mt_outbox_messages_total mt) [''published''] (mt_registry mt)\<rparr>"

definition record_failed :: "'m prometheus \<Rightarrow> 'm metrics \<Rightarrow> 'm metrics" where
  "record_failed pr mt =
     mt\<lparr>mt_registry := pr_counter_inc pr (mt_outbox_messages_total mt) [''failed''] (mt_registry mt)\<rparr>"

definition record_dlq :: "'m prometheus \<Rightarrow> 'm metrics \<Rightarrow> 'm metrics" where
  "record_dlq pr mt =
     mt\<lparr>mt_registry := pr_counter_inc pr (mt_outbox_messages_total mt) [''dlq''] (mt_registry mt)\<rparr>"

definition observe_publish_duration :: "'m prometheus \<Rightarrow> f64 \<Rightarrow> 'm metrics \<Rightarrow> 'm metrics" where
  "observe_publish_duration pr seconds mt =
     mt\<lparr>mt_registry := pr_observe pr (mt_outbox_publish_duration_seconds mt) seconds (mt_registry mt)\<rparr>"

definition record_inbox_stored :: "'m prometheus \<Rightarrow> 'm metrics \<Rightarrow> 'm metrics" where
  "record_inbox_stored pr mt =
     mt\<lparr>mt_registry := pr_counter_inc pr (mt_inbox_messages_total mt) [''stored''] (mt_registry mt)\<rparr>"

definition record_inbox_failed :: "'m prometheus \<Rightarrow> 'm metrics \<Rightarrow> 'm metrics" where
  "record_inbox_failed pr mt =
     mt\<lparr>mt_registry := pr_counter_inc pr (mt_inbox_messages_total mt) [''failed''] (mt_registry mt)\<rparr>"

definition set_subscribers_active :: "'m prometheus \<Rightarrow> i64 \<Rightarrow> 'm metrics \<Rightarrow> 'm metrics" where
  "set_subscribers_active pr n mt =
     mt\<lparr>mt_registry := pr_gauge_set pr (mt_subscribers_active mt) n (mt_registry mt)\<rparr>"

definition inc_subscribers_active :: "'m prometheus \<Rightarrow> 'm metrics \<Rightarrow> 'm metrics" where
  "inc_subscribers_active pr mt =
     mt\<lparr>mt_registry := pr_gauge_inc pr (mt_subscribers_active mt) (mt_registry mt)\<rparr>"

definition dec_subscribers_active :: "'m prometheus \<Rightarrow> 'm metrics \<Rightarrow> 'm metrics" where
  "dec_subscribers_active pr mt =
     mt\<lparr>mt_registry := pr_gauge_dec pr (mt_subscribers_active mt) (mt_registry mt)\<rparr>"

section \<open>A sample\<close>

text \<open>An instance of the crate: the values as functions of the metric.\<close>

definition value_table :: "((metric_desc \<Rightarrow> string list \<Rightarrow> u64) \<times> (metric_desc \<Rightarrow> i64) \<times> (metric_desc \<Rightarrow> f64 list)) prometheus" where
  "value_table =
     \<lparr>pr_registry = ((\<lambda>_ _. 0), (\<lambda>_. 0), (\<lambda>_. [])), pr_new = (\<lambda>_. Ok ()), pr_register = (\<lambda>_ m. Ok m),
      pr_counter_inc = (\<lambda>d l (c, g, h). (\<lambda>d' l'. if d = d' \<and> l = l' then c d' l' + 1 else c d' l', g, h)),
      pr_observe = (\<lambda>d x (c, g, h). (c, g, \<lambda>d'. if d = d' then h d' @ [x] else h d')),
      pr_gauge_set = (\<lambda>d v (c, g, h). (c, \<lambda>d'. if d = d' then v else g d', h)),
      pr_gauge_inc = (\<lambda>d (c, g, h). (c, \<lambda>d'. if d = d' then g d' + 1 else g d', h)),
      pr_gauge_dec = (\<lambda>d (c, g, h). (c, \<lambda>d'. if d = d' then g d' - 1 else g d', h)),
      pr_encode = (\<lambda>_. Ok [])\<rparr>"

definition sample_metrics :: "((metric_desc \<Rightarrow> string list \<Rightarrow> u64) \<times> (metric_desc \<Rightarrow> i64) \<times> (metric_desc \<Rightarrow> f64 list)) metrics" where
  "sample_metrics =
     \<lparr>mt_registry = pr_registry value_table, mt_outbox_messages_total = outbox_messages_total,
      mt_outbox_publish_duration_seconds = outbox_publish_duration_seconds,
      mt_inbox_messages_total = inbox_messages_total, mt_subscribers_active = subscribers_active\<rparr>"

lemma sample_metrics_new: "metrics_new value_table = Ok sample_metrics"
  by (simp add: metrics_new_def sample_metrics_def value_table_def Let_def)

text \<open>Rendering refuses a buffer that is not UTF-8 and otherwise returns it unchanged.\<close>

lemma utf8_valid_ascii: "(\<forall>b \<in> set bs. b < 128) \<Longrightarrow> utf8_valid bs"
  by (induction bs) (simp_all add: utf8_width_def)

end
