(* ===== verification/App.thy ===== *)
theory App
  imports Startup Metrics Consumer_Loop Callback Grpc Db_Subscriber
begin

text \<open>
  The composition root (\<open>rs-broker-server/src/app.rs\<close> and \<open>main.rs\<close>): the builder, which opens the
  database and the Kafka clients and puts the components together, the HTTP router, and the run from
  the start of the background tasks to the shutdown. The database is the state \<open>db\<close>; what the crates
  and the operating system contribute are the parameters \<open>platform\<close> (building) and \<open>host\<close> (running).
  A run is reported with the steps it took, in order. Log output is left out.
\<close>

section \<open>The application\<close>

record socket_addr =
  sa_ip :: "nat list"
  sa_port :: u16

datatype app_error =
    AE_Settings string
  | AE_Config config_error
  | AE_Pool pool_error
  | AE_Migration migration_error
  | AE_Kafka kafka_error
  | AE_Core core_error
  | AE_Metrics string
  | AE_Io string

record ('v, 'k, 'c, 'm) platform =
  pf_config :: "'v config_lib"
  pf_connect :: "pool_options \<Rightarrow> string \<Rightarrow> db \<Rightarrow> (string + unit) \<times> db"
  pf_migrate :: "db \<Rightarrow> (string + unit) \<times> db"
  pf_acquire :: "db \<Rightarrow> bool \<times> db"
  pf_producer :: "client_config \<Rightarrow> rd_error + 'k kafka_driver"
  pf_consumer :: "client_config \<Rightarrow> rd_error + 'c"
  pf_subscribe :: "'c \<Rightarrow> string list \<Rightarrow> rd_error + 'c"
  pf_prometheus :: "'m prometheus"
  pf_uuids :: uuid_lib
  pf_events :: "broadcast_item list"     \<comment> \<open>what a receiver of the event channel will yield\<close>

record ('k, 'c, 'm) app =
  ap_settings :: settings
  ap_http_addr :: socket_addr
  ap_grpc_addr :: socket_addr
  ap_grpc_service_inner :: "db rs_broker_service"
  ap_publisher :: "(db, 'k) outbox_publisher option"
  ap_consumer :: "'c option"
  ap_metrics :: "'m metrics"

record app_builder =
  ab_settings :: "settings option"

definition app_builder_new :: app_builder where
  "app_builder_new = \<lparr>ab_settings = None\<rparr>"

definition with_config :: "'v config_lib \<Rightarrow> app_builder \<Rightarrow> app_error + app_builder" where
  "with_config cl b =
     (case load_from_file cl ''config'' of
        Err e \<Rightarrow> Err (AE_Config e)
      | Ok settings \<Rightarrow> Ok (b\<lparr>ab_settings := Some settings\<rparr>))"

definition with_settings :: "settings \<Rightarrow> app_builder \<Rightarrow> app_builder" where
  "with_settings settings b = b\<lparr>ab_settings := Some settings\<rparr>"

section \<open>Building\<close>

text \<open>Without topics there is no consumer; one that cannot be created or subscribed is only logged.\<close>

definition build_consumer :: "('v, 'k, 'c, 'm) platform \<Rightarrow> settings \<Rightarrow> 'c option" where
  "build_consumer pf settings =
     (let topics = cc_topics (kc_consumer (st_kafka settings))
      in if topics = [] then None
         else case kafka_consumer_new (pf_consumer pf) (st_kafka settings) of
                Ok c \<Rightarrow>
                  (case kafka_consumer_subscribe (pf_subscribe pf) c topics of
                     Err _ \<Rightarrow> None
                   | Ok c' \<Rightarrow> Some c')
              | Err _ \<Rightarrow> None)"

text \<open>The components over the open database.\<close>

definition assemble :: "('v, 'k, 'c, 'm) platform \<Rightarrow> settings \<Rightarrow> app_error + ('k, 'c, 'm) app" where
  "assemble pf settings =
     (case kafka_producer_new (pf_producer pf) (st_kafka settings) of
        Err e \<Rightarrow> Err (AE_Kafka e)
      | Ok producer \<Rightarrow>
          (let grpc_service_inner = with_kafka (pf_uuids pf) (pf_acquire pf) (pf_events pf) False
           in case outbox_publisher_new pg_outbox_repository (kafka_message_sink producer) (st_retry settings) of
                Err e \<Rightarrow> Err (AE_Core e)
              | Ok publisher \<Rightarrow>
                  (let consumer = build_consumer pf settings;
                       http_addr = \<lparr>sa_ip = [0, 0, 0, 0], sa_port = sc_http_port (st_server settings)\<rparr>;
                       grpc_addr = \<lparr>sa_ip = [0, 0, 0, 0], sa_port = gc_port (st_grpc settings)\<rparr>
                   in case metrics_new (pf_prometheus pf) of
                        Err e \<Rightarrow> Err (AE_Metrics e)
                      | Ok metrics \<Rightarrow>
                          Ok \<lparr>ap_settings = settings, ap_http_addr = http_addr, ap_grpc_addr = grpc_addr,
                              ap_grpc_service_inner = grpc_service_inner, ap_publisher = Some publisher,
                              ap_consumer = consumer, ap_metrics = metrics\<rparr>)))"

definition build ::
  "('v, 'k, 'c, 'm) platform \<Rightarrow> app_builder \<Rightarrow> db \<Rightarrow> (app_error + ('k, 'c, 'm) app) \<times> db" where
  "build pf b d =
     (case ab_settings b of
        None \<Rightarrow> (Err (AE_Settings ''Settings not configured''), d)
      | Some settings \<Rightarrow>
          (case create_pool (pf_connect pf) (st_database settings) d of
             (Err e, d1) \<Rightarrow> (Err (AE_Pool e), d1)
           | (Ok _, d1) \<Rightarrow>
               (case run_migrations (pf_migrate pf) d1 of
                  (Err e, d2) \<Rightarrow> (Err (AE_Migration e), d2)
                | (Ok _, d2) \<Rightarrow> (assemble pf settings, d2))))"

section \<open>The HTTP router and its own handlers\<close>

datatype app_handler = H_Health | H_Api rest_handler | H_Metrics

type_synonym app_routes = "(string \<times> (http_method \<times> app_handler) list) list"

definition nest_api :: "(string \<times> (http_method \<times> rest_handler) list) list \<Rightarrow> app_routes" where
  "nest_api routes = map (\<lambda>(path, methods). (''/api/v1'' @ path, map (\<lambda>(m, h). (m, H_Api h)) methods)) routes"

text \<open>\<open>accepts\<close> is axum's \<open>Router::route\<close> for a \<open>GET\<close> on top of the given routes: where it does not
  accept the path, the call panics (\<open>None\<close>).\<close>

definition app_router :: "(app_routes \<Rightarrow> string \<Rightarrow> bool) \<Rightarrow> bool \<Rightarrow> string \<Rightarrow> app_routes option" where
  "app_router accepts metrics_enabled metrics_path =
     (let routes = (''/health'', [(GET, H_Health)]) # nest_api router
      in if metrics_enabled then
           if accepts routes metrics_path then Some (routes @ [(metrics_path, [(GET, H_Metrics)])]) else None
         else Some routes)"

text \<open>What axum documents: a path that is empty or has no leading slash panics, and so does one
  that already has a \<open>GET\<close> handler.\<close>

definition axum_panics :: "(app_routes \<Rightarrow> string \<Rightarrow> bool) \<Rightarrow> bool" where
  "axum_panics accepts \<longleftrightarrow>
     (\<forall>routes path. \<not> starts_with path ''/'' \<or> (\<exists>methods. (path, methods) \<in> set routes \<and> GET \<in> fst ` set methods) \<longrightarrow>
        \<not> accepts routes path)"

definition cargo_pkg_version :: string where
  "cargo_pkg_version = ''0.3.1''"

definition health_handler :: json where
  "health_handler = JObject [(''status'', JString ''healthy''), (''version'', JString cargo_pkg_version)]"

text \<open>The headers and the body, or the status code of the refusal.\<close>

definition metrics_handler :: "'m prometheus \<Rightarrow> 'm metrics \<Rightarrow> nat + (string \<times> string) list \<times> string" where
  "metrics_handler pr metrics =
     (case render pr metrics of
        Err _ \<Rightarrow> Err 500
      | Ok body \<Rightarrow> Ok ([(''content-type'', ''text/plain; version=0.0.4'')], body))"

section \<open>The publisher's task\<close>

definition publisher_start :: "('s, 'k) outbox_publisher \<Rightarrow> ('s, 'k) outbox_publisher" where
  "publisher_start pb = pb\<lparr>pb_running := True\<rparr>"

text \<open>Stopping sends the shutdown message, if the publisher was started, and drops the sender with it;
  a publisher that is dropped drops its sender without a message.\<close>

definition publisher_stop :: "('s, 'k) outbox_publisher \<Rightarrow> ('s, 'k) outbox_publisher \<times> worker_event list" where
  "publisher_stop pb = (pb\<lparr>pb_running := False\<rparr>, if pb_running pb then [Shutdown, Channel_Closed] else [])"

definition publisher_drop :: "('s, 'k) outbox_publisher \<Rightarrow> worker_event list" where
  "publisher_drop pb = (if pb_running pb then [Channel_Closed] else [])"

text \<open>\<open>tokio::time::interval\<close> panics on a zero period: the spawned task ends before its first round.\<close>

definition publisher_task ::
  "serde \<Rightarrow> float_lib \<Rightarrow> ('s, 'k) outbox_publisher \<Rightarrow> i64 \<Rightarrow> u64 \<Rightarrow> worker_event list \<Rightarrow> 's \<Rightarrow> 'k \<Rightarrow> 's \<times> 'k" where
  "publisher_task sd fl pb batch_size interval_ms evs s k =
     (if interval_ms = 0 then (s, k) else worker sd fl pb batch_size evs s k)"

section \<open>Running\<close>

datatype run_event =
    Grpc_Spawned socket_addr
  | Publisher_Started i64 u64
  | Subscribers_Refreshed "core_error + unit"
  | Refresh_Spawned
  | Consumer_Spawned
  | Http_Bound socket_addr
  | Http_Served
  | Publisher_Stopped

datatype run_end = Panicked | Returned "app_error + unit"

record host =
  hs_accepts :: "app_routes \<Rightarrow> string \<Rightarrow> bool"
  hs_bind :: "socket_addr \<Rightarrow> string + unit"
  hs_serve :: "app_routes \<Rightarrow> string + unit"     \<comment> \<open>returns after the shutdown signal\<close>

record 'n run_report =
  rr_end :: run_end
  rr_events :: "run_event list"
  rr_signals :: "worker_event list"   \<comment> \<open>what the publisher's task gets through its channel\<close>
  rr_dispatcher :: "(db, 'n) message_dispatcher option"   \<comment> \<open>what the consumer loop starts with\<close>
  rr_db :: db

definition start_publisher ::
  "settings \<Rightarrow> (db, 'k) outbox_publisher option \<Rightarrow> (db, 'k) outbox_publisher option \<times> run_event list" where
  "start_publisher settings publisher =
     (case publisher of
        None \<Rightarrow> (None, [])
      | Some pb \<Rightarrow>
          (Some (publisher_start pb),
           [Publisher_Started (oc_batch_size (st_outbox settings)) (oc_poll_interval_ms (st_outbox settings))]))"

text \<open>The consumer's dispatcher, its endpoints filled once before the loop is spawned.\<close>

definition start_consumer ::
  "uuid_lib \<Rightarrow> 'n subscriber_notifier \<Rightarrow> 'c option \<Rightarrow> db
     \<Rightarrow> (db, 'n) message_dispatcher option \<times> run_event list \<times> db" where
  "start_consumer ul notifier consumer d =
     (case consumer of
        None \<Rightarrow> (None, [], d)
      | Some _ \<Rightarrow>
          (let subscriber_repo = pg_subscriber_repository ul;
               (r, sd, d1) = refresh_subscribers ul (subscriber_dispatcher_new subscriber_repo) d
           in (Some (with_subscriber_dispatcher subscriber_repo (sd, notifier)),
               [Subscribers_Refreshed r, Refresh_Spawned, Consumer_Spawned], d1)))"

definition stop_publisher :: "(db, 'k) outbox_publisher option \<Rightarrow> worker_event list \<times> run_event list" where
  "stop_publisher publisher =
     (case publisher of None \<Rightarrow> ([], []) | Some pb \<Rightarrow> (snd (publisher_stop pb), [Publisher_Stopped]))"

text \<open>A \<open>?\<close> that leaves \<open>run\<close> early drops its local publisher.\<close>

definition drop_publisher :: "(db, 'k) outbox_publisher option \<Rightarrow> worker_event list" where
  "drop_publisher publisher = (case publisher of None \<Rightarrow> [] | Some pb \<Rightarrow> publisher_drop pb)"

definition run ::
  "uuid_lib \<Rightarrow> 'n subscriber_notifier \<Rightarrow> host \<Rightarrow> ('k, 'c, 'm) app \<Rightarrow> db \<Rightarrow> 'n run_report" where
  "run ul notifier host app d =
     (let settings = ap_settings app
      in case app_router (hs_accepts host) (mc_enabled (st_metrics settings)) (mc_path (st_metrics settings)) of
           None \<Rightarrow>
             \<lparr>rr_end = Panicked, rr_events = [], rr_signals = drop_publisher (ap_publisher app),
              rr_dispatcher = None, rr_db = d\<rparr>
         | Some routes \<Rightarrow>
             (let (publisher, evs1) = start_publisher settings (ap_publisher app);
                  (dispatcher, evs2, d1) = start_consumer ul notifier (ap_consumer app) d;
                  started = Grpc_Spawned (ap_grpc_addr app) # evs1 @ evs2
              in case hs_bind host (ap_http_addr app) of
                   Err e \<Rightarrow>
                     \<lparr>rr_end = Returned (Err (AE_Io e)), rr_events = started,
                      rr_signals = drop_publisher publisher, rr_dispatcher = dispatcher, rr_db = d1\<rparr>
                 | Ok _ \<Rightarrow>
                     (case hs_serve host routes of
                        Err e \<Rightarrow>
                          \<lparr>rr_end = Returned (Err (AE_Io e)), rr_events = started @ [Http_Bound (ap_http_addr app)],
                           rr_signals = drop_publisher publisher, rr_dispatcher = dispatcher, rr_db = d1\<rparr>
                      | Ok _ \<Rightarrow>
                          (let (signals, evs3) = stop_publisher publisher
                           in \<lparr>rr_end = Returned (Ok ()),
                               rr_events = started @ [Http_Bound (ap_http_addr app), Http_Served] @ evs3,
                               rr_signals = signals, rr_dispatcher = dispatcher, rr_db = d1\<rparr>))))"

text \<open>The process: build, then run; \<open>main\<close> loads the settings first. A failure before the run has taken
  no step of it.\<close>

definition not_started :: "app_error \<Rightarrow> db \<Rightarrow> 'n run_report" where
  "not_started e d =
     \<lparr>rr_end = Returned (Err e), rr_events = [], rr_signals = [], rr_dispatcher = None, rr_db = d\<rparr>"

definition build_and_run ::
  "('v, 'k, 'c, 'm) platform \<Rightarrow> 'n subscriber_notifier \<Rightarrow> host \<Rightarrow> app_builder \<Rightarrow> db \<Rightarrow> 'n run_report" where
  "build_and_run pf notifier host b d =
     (case build pf b d of
        (Err e, d1) \<Rightarrow> not_started e d1
      | (Ok app, d1) \<Rightarrow> run (pf_uuids pf) notifier host app d1)"

definition main ::
  "('v, 'k, 'c, 'm) platform \<Rightarrow> 'n subscriber_notifier \<Rightarrow> host \<Rightarrow> db \<Rightarrow> 'n run_report" where
  "main pf notifier host d =
     (case with_config (pf_config pf) app_builder_new of
        Err e \<Rightarrow> not_started e d
      | Ok b \<Rightarrow> build_and_run pf notifier host b d)"

end
