(* ===== verification/App_System.thy ===== *)
theory App_System
  imports App Inbound_System
begin

text \<open>
  Properties of the composition root: which failures stop the start, what the run does and in which
  order, with which endpoints the consumer starts, and which settings have no effect.
\<close>

section \<open>Building\<close>

text \<open>The publisher and the metrics of a finished build.\<close>

lemma assemble_Ok:
  "assemble pf st = Ok app \<longleftrightarrow>
     (\<exists>drv mt. kafka_producer_new (pf_producer pf) (st_kafka st) = Ok drv \<and> metrics_new (pf_prometheus pf) = Ok mt \<and>
        app = \<lparr>ap_settings = st, ap_http_addr = \<lparr>sa_ip = [0, 0, 0, 0], sa_port = sc_http_port (st_server st)\<rparr>,
               ap_grpc_addr = \<lparr>sa_ip = [0, 0, 0, 0], sa_port = gc_port (st_grpc st)\<rparr>,
               ap_grpc_service_inner = with_kafka (pf_uuids pf) (pf_acquire pf) (pf_events pf) False,
               ap_publisher = Some \<lparr>pb_repository = pg_outbox_repository, pb_sink = kafka_message_sink drv,
                                   pb_retry_strategy = retry_strategy_new (st_retry st), pb_running = False\<rparr>,
               ap_consumer = build_consumer pf st, ap_metrics = mt\<rparr>)"
  unfolding assemble_def outbox_publisher_new_def
  by (cases "kafka_producer_new (pf_producer pf) (st_kafka st)"; cases "metrics_new (pf_prometheus pf)")
     (auto simp: Let_def)

lemma build_Ok:
  "build pf b d = (Ok app, d') \<longleftrightarrow>
     (\<exists>st d1. ab_settings b = Some st \<and> create_pool (pf_connect pf) (st_database st) d = (Ok (), d1) \<and>
        run_migrations (pf_migrate pf) d1 = (Ok (), d') \<and> assemble pf st = Ok app)"
  by (auto simp: build_def split: option.splits sum.splits prod.splits)

lemma build_consumer_Some:
  "build_consumer pf st = Some c' \<longleftrightarrow>
     cc_topics (kc_consumer (st_kafka st)) \<noteq> [] \<and>
     (\<exists>c. pf_consumer pf (create_consumer_config (st_kafka st)) = Ok c \<and>
          pf_subscribe pf c (cc_topics (kc_consumer (st_kafka st))) = Ok c')"
  by (cases "pf_consumer pf (create_consumer_config (st_kafka st))")
     (auto simp: build_consumer_def kafka_consumer_new_def kafka_consumer_new_with_config_def
        kafka_consumer_subscribe_def Let_def split: sum.splits)

text \<open>C27: What stops the start. Building succeeds exactly when there are settings, the pool connects, the
  migrations run, the Kafka producer can be created and the metrics register; nothing about the
  consumer can make it fail. The finished application holds a publisher that is not running yet, over the
  Postgres outbox and the Kafka sink of that producer, and a consumer exactly when topics are
  configured and the consumer could be created and subscribed to all of them.\<close>

theorem build_outcome:
  fixes pf :: "('v, 'k, 'c, 'm) platform"
  shows "(is_ok (fst (build pf b d)) \<longleftrightarrow>
      (\<exists>st d1 d2. ab_settings b = Some st \<and> create_pool (pf_connect pf) (st_database st) d = (Ok (), d1) \<and>
         run_migrations (pf_migrate pf) d1 = (Ok (), d2) \<and>
         is_ok (pf_producer pf (create_producer_config (st_kafka st))) \<and> is_ok (metrics_new (pf_prometheus pf)))) \<and>
   is_ok (fst (build (pf\<lparr>pf_consumer := create, pf_subscribe := subscribe\<rparr>) b d)) = is_ok (fst (build pf b d)) \<and>
   (\<forall>app d'. build pf b d = (Ok app, d') \<longrightarrow>
      (\<exists>drv. pf_producer pf (create_producer_config (st_kafka (ap_settings app))) = Ok drv \<and>
         ap_publisher app =
           Some \<lparr>pb_repository = pg_outbox_repository, pb_sink = kafka_message_sink drv,
                 pb_retry_strategy = retry_strategy_new (st_retry (ap_settings app)), pb_running = False\<rparr>) \<and>
      (ap_consumer app \<noteq> None \<longleftrightarrow>
         (let topics = cc_topics (kc_consumer (st_kafka (ap_settings app)))
          in topics \<noteq> [] \<and>
             (\<exists>c. pf_consumer pf (create_consumer_config (st_kafka (ap_settings app))) = Ok c \<and>
                  is_ok (pf_subscribe pf c topics)))))"
proof (intro conjI)
  have ok: "is_ok (fst (build pf b d)) \<longleftrightarrow> (\<exists>app d'. build pf b d = (Ok app, d'))" for pf :: "('v, 'k, 'c, 'm) platform"
    by (cases "build pf b d"; cases "fst (build pf b d)") auto
  have producer: "kafka_producer_new f c = Ok drv \<longleftrightarrow> f (create_producer_config c) = Ok drv"
    for f :: "client_config \<Rightarrow> rd_error + 'k kafka_driver" and c drv
    by (simp add: kafka_producer_new_def kafka_producer_new_with_config_def)
  have is_ok_ex: "is_ok q \<longleftrightarrow> (\<exists>a. q = Ok a)" for q :: "'x + 'y"
    by (cases q) simp_all
  have main: "is_ok (fst (build pf b d)) \<longleftrightarrow>
      (\<exists>st d1 d2. ab_settings b = Some st \<and> create_pool (pf_connect pf) (st_database st) d = (Ok (), d1) \<and>
         run_migrations (pf_migrate pf) d1 = (Ok (), d2) \<and>
         is_ok (pf_producer pf (create_producer_config (st_kafka st))) \<and> is_ok (metrics_new (pf_prometheus pf)))"
    for pf :: "('v, 'k, 'c, 'm) platform"
  proof -
    have "(\<exists>app d'. build pf b d = (Ok app, d')) \<longleftrightarrow>
      (\<exists>st d1 d2. ab_settings b = Some st \<and> create_pool (pf_connect pf) (st_database st) d = (Ok (), d1) \<and>
         run_migrations (pf_migrate pf) d1 = (Ok (), d2) \<and>
         is_ok (pf_producer pf (create_producer_config (st_kafka st))) \<and> is_ok (metrics_new (pf_prometheus pf)))"
      unfolding build_Ok assemble_Ok is_ok_ex producer by blast
    with ok show ?thesis by blast
  qed
  then show "is_ok (fst (build pf b d)) \<longleftrightarrow>
      (\<exists>st d1 d2. ab_settings b = Some st \<and> create_pool (pf_connect pf) (st_database st) d = (Ok (), d1) \<and>
         run_migrations (pf_migrate pf) d1 = (Ok (), d2) \<and>
         is_ok (pf_producer pf (create_producer_config (st_kafka st))) \<and> is_ok (metrics_new (pf_prometheus pf)))" .
  show "is_ok (fst (build (pf\<lparr>pf_consumer := create, pf_subscribe := subscribe\<rparr>) b d)) = is_ok (fst (build pf b d))"
    unfolding main by simp
  show "\<forall>app d'. build pf b d = (Ok app, d') \<longrightarrow>
      (\<exists>drv. pf_producer pf (create_producer_config (st_kafka (ap_settings app))) = Ok drv \<and>
         ap_publisher app =
           Some \<lparr>pb_repository = pg_outbox_repository, pb_sink = kafka_message_sink drv,
                 pb_retry_strategy = retry_strategy_new (st_retry (ap_settings app)), pb_running = False\<rparr>) \<and>
      (ap_consumer app \<noteq> None \<longleftrightarrow>
         (let topics = cc_topics (kc_consumer (st_kafka (ap_settings app)))
          in topics \<noteq> [] \<and>
             (\<exists>c. pf_consumer pf (create_consumer_config (st_kafka (ap_settings app))) = Ok c \<and>
                  is_ok (pf_subscribe pf c topics))))"
    unfolding build_Ok assemble_Ok producer Let_def is_ok_ex
    by (auto simp: build_consumer_Some)
qed

section \<open>A sample installation\<close>

text \<open>For the witnesses: everything opens, the topic list is \<open>orders\<close>.\<close>

definition sample_settings :: settings where
  "sample_settings =
     default_settings\<lparr>st_kafka := default_kafka_config\<lparr>kc_consumer := default_consumer_config\<lparr>cc_topics := [''orders'']\<rparr>\<rparr>\<rparr>"

definition sample_platform ::
  "(unit, unit, unit, (metric_desc \<Rightarrow> string list \<Rightarrow> u64) \<times> (metric_desc \<Rightarrow> i64) \<times> (metric_desc \<Rightarrow> f64 list)) platform" where
  "sample_platform =
     \<lparr>pf_config = \<lparr>cl_var = Map.empty, cl_build = (\<lambda>_. Ok ()), cl_deserialize = (\<lambda>_. Ok sample_settings)\<rparr>,
      pf_connect = (\<lambda>_ _ d. (Ok (), d)), pf_migrate = (\<lambda>d. (Ok (), d)), pf_acquire = (\<lambda>d. (True, d)),
      pf_producer = (\<lambda>_. Ok \<lparr>kd_send = (\<lambda>_ k. (Ok (), k)), kd_show = (\<lambda>_. [])\<rparr>),
      pf_consumer = (\<lambda>_. Ok ()), pf_subscribe = (\<lambda>_ _. Ok ()), pf_prometheus = value_table,
      pf_uuids = decimal_uuids, pf_events = []\<rparr>"

definition sample_accepts :: "app_routes \<Rightarrow> string \<Rightarrow> bool" where
  "sample_accepts routes path = (starts_with path ''/'' \<and> path \<notin> fst ` set routes)"

lemma sample_accepts_ok: "axum_panics sample_accepts"
  by (force simp: axum_panics_def sample_accepts_def)

definition sample_host :: host where
  "sample_host = \<lparr>hs_accepts = sample_accepts, hs_bind = (\<lambda>_. Ok ()), hs_serve = (\<lambda>_. Ok ())\<rparr>"

definition sample_driver :: "unit kafka_driver" where
  "sample_driver = \<lparr>kd_send = (\<lambda>_ k. (Ok (), k)), kd_show = (\<lambda>_. [])\<rparr>"

definition sample_publisher :: "(db, unit) outbox_publisher" where
  "sample_publisher =
     \<lparr>pb_repository = pg_outbox_repository, pb_sink = kafka_message_sink sample_driver,
      pb_retry_strategy = retry_strategy_new (st_retry sample_settings), pb_running = False\<rparr>"

definition sample_app ::
  "(unit, unit, (metric_desc \<Rightarrow> string list \<Rightarrow> u64) \<times> (metric_desc \<Rightarrow> i64) \<times> (metric_desc \<Rightarrow> f64 list)) app" where
  "sample_app =
     \<lparr>ap_settings = sample_settings, ap_http_addr = \<lparr>sa_ip = [0, 0, 0, 0], sa_port = sc_http_port (st_server sample_settings)\<rparr>,
      ap_grpc_addr = \<lparr>sa_ip = [0, 0, 0, 0], sa_port = gc_port (st_grpc sample_settings)\<rparr>,
      ap_grpc_service_inner = with_kafka decimal_uuids (\<lambda>d. (True, d)) [] False,
      ap_publisher = Some sample_publisher, ap_consumer = Some (), ap_metrics = sample_metrics\<rparr>"

definition sample_builder :: app_builder where
  "sample_builder = with_settings sample_settings app_builder_new"

lemma sample_settings_simps [simp]:
  "cc_topics (kc_consumer (st_kafka sample_settings)) = [''orders'']"
  "st_metrics sample_settings = default_metrics_config"
  by (simp_all add: sample_settings_def default_settings_def)

lemma sample_build: "build sample_platform sample_builder d = (Ok sample_app, d)"
  by (simp add: build_Ok assemble_Ok build_consumer_def sample_platform_def sample_app_def sample_publisher_def
      sample_driver_def sample_builder_def with_settings_def create_pool_def run_migrations_def Let_def
      kafka_producer_new_def kafka_producer_new_with_config_def sample_metrics_new kafka_consumer_new_def
      kafka_consumer_new_with_config_def kafka_consumer_subscribe_def)

theorem build_outcome_witness:
  "(\<exists>drv. ap_publisher sample_app =
       Some \<lparr>pb_repository = pg_outbox_repository, pb_sink = kafka_message_sink drv,
             pb_retry_strategy = retry_strategy_new (st_retry sample_settings), pb_running = False\<rparr>) \<and>
   ap_consumer sample_app \<noteq> None"
proof -
  have st: "ap_settings sample_app = sample_settings" by (simp add: sample_app_def)
  note ok = build_outcome [THEN conjunct2, THEN conjunct2, rule_format, OF sample_build, unfolded st]
  then have "\<exists>drv. ap_publisher sample_app =
      Some \<lparr>pb_repository = pg_outbox_repository, pb_sink = kafka_message_sink drv,
            pb_retry_strategy = retry_strategy_new (st_retry sample_settings), pb_running = False\<rparr>" by blast
  moreover have "ap_consumer sample_app \<noteq> None" by (simp add: sample_app_def)
  ultimately show ?thesis by blast
qed

section \<open>The order of the run\<close>

definition precedes :: "'a \<Rightarrow> 'a \<Rightarrow> 'a list \<Rightarrow> bool" where
  "precedes a b xs \<longleftrightarrow> (\<exists>us vs ws. xs = us @ a # vs @ b # ws)"

abbreviation routes_of :: "host \<Rightarrow> ('k, 'c, 'm) app \<Rightarrow> app_routes option" where
  "routes_of host app \<equiv>
     app_router (hs_accepts host) (mc_enabled (st_metrics (ap_settings app))) (mc_path (st_metrics (ap_settings app)))"

lemma run_panicked:
  "routes_of host app = None \<Longrightarrow>
     run ul notifier host app d =
       \<lparr>rr_end = Panicked, rr_events = [], rr_signals = drop_publisher (ap_publisher app), rr_dispatcher = None, rr_db = d\<rparr>"
  by (simp add: run_def Let_def)

text \<open>A run whose router was built has started its tasks, whatever the HTTP server does.\<close>

definition started :: "uuid_lib \<Rightarrow> 'n subscriber_notifier \<Rightarrow> ('k, 'c, 'm) app \<Rightarrow> db \<Rightarrow> run_event list" where
  "started ul notifier app d =
     Grpc_Spawned (ap_grpc_addr app) # snd (start_publisher (ap_settings app) (ap_publisher app)) @
       fst (snd (start_consumer ul notifier (ap_consumer app) d))"

lemma run_started:
  assumes "routes_of host app = Some routes"
  shows "run ul notifier host app d =
    (let rep = \<lparr>rr_end = Returned (Ok ()), rr_events = started ul notifier app d,
                rr_signals = (case ap_publisher app of None \<Rightarrow> [] | Some _ \<Rightarrow> [Channel_Closed]),
                rr_dispatcher = fst (start_consumer ul notifier (ap_consumer app) d),
                rr_db = snd (snd (start_consumer ul notifier (ap_consumer app) d))\<rparr>
     in case hs_bind host (ap_http_addr app) of
          Err e \<Rightarrow> rep\<lparr>rr_end := Returned (Err (AE_Io e))\<rparr>
        | Ok _ \<Rightarrow>
            (case hs_serve host routes of
               Err e \<Rightarrow>
                 rep\<lparr>rr_end := Returned (Err (AE_Io e)), rr_events := rr_events rep @ [Http_Bound (ap_http_addr app)]\<rparr>
             | Ok _ \<Rightarrow>
                 rep\<lparr>rr_events := rr_events rep @ [Http_Bound (ap_http_addr app), Http_Served] @
                       (case ap_publisher app of None \<Rightarrow> [] | Some _ \<Rightarrow> [Publisher_Stopped]),
                     rr_signals := (case ap_publisher app of None \<Rightarrow> [] | Some _ \<Rightarrow> [Shutdown, Channel_Closed])\<rparr>))"
proof -
  obtain md evs d1 where c: "start_consumer ul notifier (ap_consumer app) d = (md, evs, d1)" by (metis prod_cases3)
  show ?thesis
    using assms
    by (simp add: run_def c started_def Let_def start_publisher_def publisher_start_def publisher_stop_def
        stop_publisher_def drop_publisher_def publisher_drop_def split: option.split sum.split)
qed

lemma stopped_not_started [simp]: "Publisher_Stopped \<notin> set (started ul notifier app d)"
  by (auto simp: started_def start_publisher_def start_consumer_def Let_def split: option.splits prod.splits)

lemma worker_ended:
  "sigs \<noteq> [] \<Longrightarrow> hd sigs \<noteq> Tick \<Longrightarrow> worker sd fl pb n (evs @ sigs @ later) s k = worker sd fl pb n evs s k"
proof (induction evs arbitrary: s k)
  case Nil
  then show ?case by (cases sigs; cases "hd sigs") auto
next
  case (Cons ev evs)
  then show ?case by (cases ev) (simp_all split: prod.split)
qed

text \<open>C14: The life of a run, with a publisher that has not been started before. It panics exactly when the
  router cannot be built, and then nothing has been started and the database is as it was; it ends well
  exactly when the router was built, the HTTP address could be bound and the server returned. Only then,
  as the last step and after the HTTP server stopped serving, the publisher is stopped with the shutdown
  message; when binding or serving fails, the run ends without that step, and the publisher's channel is
  closed because the publisher is dropped. Either way, once its task takes what is in the channel, it has
  made exactly the rounds before and makes no further one. With a zero poll interval it never makes one.\<close>

theorem run_lifecycle:
  assumes "ap_publisher app = Some pb" and "\<not> pb_running pb"
  shows "let rep = run ul notifier host app d
         in (rr_end rep = Panicked \<longleftrightarrow> routes_of host app = None) \<and>
            (rr_end rep = Panicked \<longrightarrow> rr_events rep = [] \<and> rr_signals rep = [] \<and> rr_db rep = d) \<and>
            (rr_end rep = Returned (Ok ()) \<longleftrightarrow>
               (\<exists>routes. routes_of host app = Some routes \<and> is_ok (hs_bind host (ap_http_addr app)) \<and>
                         is_ok (hs_serve host routes))) \<and>
            (rr_end rep = Returned (Ok ()) \<longrightarrow>
               (\<exists>evs. rr_events rep = evs @ [Http_Bound (ap_http_addr app), Http_Served, Publisher_Stopped]) \<and>
               rr_signals rep = [Shutdown, Channel_Closed]) \<and>
            (\<forall>e. rr_end rep = Returned (Err e) \<longrightarrow>
               Publisher_Stopped \<notin> set (rr_events rep) \<and> rr_signals rep = [Channel_Closed]) \<and>
            (rr_end rep \<noteq> Panicked \<longrightarrow>
               Publisher_Started (oc_batch_size (st_outbox (ap_settings app)))
                 (oc_poll_interval_ms (st_outbox (ap_settings app))) \<in> set (rr_events rep) \<and>
               publisher_task sd fl pb n ms (evs @ rr_signals rep @ later) s k = publisher_task sd fl pb n ms evs s k) \<and>
            publisher_task sd fl pb n 0 evs s k = (s, k)"
proof (cases "routes_of host app")
  case None
  with assms show ?thesis
    by (simp add: run_panicked publisher_task_def drop_publisher_def publisher_drop_def)
next
  case (Some routes)
  have begun: "Publisher_Started (oc_batch_size (st_outbox (ap_settings app)))
      (oc_poll_interval_ms (st_outbox (ap_settings app))) \<in> set (started ul notifier app d)"
    using assms(1) by (simp add: started_def start_publisher_def)
  have ended: "publisher_task sd fl pb n ms (evs @ sigs @ later) s k = publisher_task sd fl pb n ms evs s k"
    if "sigs \<noteq> []" "hd sigs \<noteq> Tick" for sigs
    by (simp add: publisher_task_def worker_ended [OF that])
  from ended [of "[Channel_Closed]"] ended [of "[Shutdown, Channel_Closed]"] begun assms(1) Some show ?thesis
    by (cases "hs_bind host (ap_http_addr app)"; cases "hs_serve host routes")
       (simp_all add: run_started [OF Some] Let_def, simp_all add: publisher_task_def)
qed

lemma sample_routes: "routes_of sample_host sample_app \<noteq> None"
  by (simp add: sample_app_def default_metrics_config_def sample_host_def sample_accepts_def app_router_def
      nest_api_def router_def Let_def)

theorem run_lifecycle_witness:
  "let rep = run decimal_uuids silent_notifier sample_host sample_app empty_db;
       rep' = run decimal_uuids silent_notifier (sample_host\<lparr>hs_bind := (\<lambda>_. Err ''in use'')\<rparr>) sample_app empty_db
   in rr_end rep = Returned (Ok ()) \<and> rr_signals rep = [Shutdown, Channel_Closed] \<and>
      rr_end rep' = Returned (Err (AE_Io ''in use'')) \<and> rr_signals rep' = [Channel_Closed]"
proof -
  let ?host = "sample_host\<lparr>hs_bind := (\<lambda>_. Err ''in use'')\<rparr>"
  have pb: "ap_publisher sample_app = Some sample_publisher" "\<not> pb_running sample_publisher"
    by (simp_all add: sample_app_def sample_publisher_def)
  have "is_ok (hs_bind sample_host a)" "is_ok (hs_serve sample_host routes)" for a routes
    by (simp_all add: sample_host_def)
  moreover have "routes_of ?host sample_app \<noteq> None" using sample_routes by (simp add: sample_host_def)
  then have "rr_end (run decimal_uuids silent_notifier ?host sample_app empty_db) = Returned (Err (AE_Io ''in use''))"
    by (auto simp: run_started Let_def)
  ultimately show ?thesis
    using run_lifecycle [OF pb, of decimal_uuids silent_notifier sample_host empty_db]
      run_lifecycle [OF pb, of decimal_uuids silent_notifier ?host empty_db] sample_routes
    unfolding Let_def by (metis not_None_eq)
qed

section \<open>The consumer's first endpoints\<close>

lemma start_consumer_seeded:
  assumes ul: "uuid_lib_ok ul" and ok: "pg_subscribers_ok d"
  shows "\<exists>md dp r d1. start_consumer ul notifier (Some c) d =
           (Some md, [Subscribers_Refreshed r, Refresh_Spawned, Consumer_Spawned], d1) \<and>
         md_subscriber_dispatcher md = Some (dp, notifier) \<and>
         pg_subscribers_ok d1 \<and> pg_subscriptions d1 = pg_subscriptions d \<and>
         (\<forall>topic. su_id ` set (get_matching_subscribers (dp_endpoints dp) topic) =
            (if is_ok r then {i. \<exists>n. pg_subscriptions d i = Some n \<and> sn_active n \<and> matches_any topic (sn_patterns n)}
             else {}))"
proof -
  obtain q d1 where q: "pg_subscriber_get_all_active d = (q, d1)" by fastforce
  note law = pg_subscriber_get_all_active_law [OF ok q]
  let ?sd = "subscriber_dispatcher_new (pg_subscriber_repository ul)"
  show ?thesis
  proof (cases q)
    case (Inl e)
    with q have "refresh_subscribers ul ?sd d = (Err (CE_Subscriber e), ?sd, d1)"
      by (simp add: refresh_subscribers_def load_subscribers_def subscriber_dispatcher_new_def)
    with law show ?thesis
      by (intro exI [of _ "with_subscriber_dispatcher (pg_subscriber_repository ul) (?sd, notifier)"]
          exI [of _ ?sd] exI [of _ "Err (CE_Subscriber e)"] exI [of _ d1])
         (simp add: start_consumer_def with_subscriber_dispatcher_def Let_def, simp add: subscriber_dispatcher_new_def
          get_matching_subscribers_def)
  next
    case (Inr us)
    let ?dp = "?sd\<lparr>dp_endpoints := merge_subscribers ul us []\<rparr>"
    from Inr q have ref: "refresh_subscribers ul ?sd d = (Ok (), ?dp, d1)"
      by (simp add: refresh_subscribers_def load_subscribers_def subscriber_dispatcher_new_def)
    have "endpoints_ok []" by (simp add: endpoints_ok_def)
    from merged_matching [OF ul this ok q [unfolded Inr]]
    have "su_id ` set (get_matching_subscribers (dp_endpoints ?dp) topic) =
        {i. \<exists>n. pg_subscriptions d i = Some n \<and> sn_active n \<and> matches_any topic (sn_patterns n)}" for topic by simp
    with law show ?thesis
      by (intro exI [of _ "with_subscriber_dispatcher (pg_subscriber_repository ul) (?dp, notifier)"]
          exI [of _ ?dp] exI [of _ "Ok ()"] exI [of _ d1])
         (simp add: start_consumer_def ref with_subscriber_dispatcher_def Let_def)
  qed
qed

text \<open>C32: The consumer starts seeded. A run that starts the consumer has refreshed the subscribers before,
  without changing them; when that worked, the loop starts with an endpoint for exactly the active
  subscribers, so that for every topic the first message reaches those whose patterns match; when it
  failed, there is none and messages reach nobody until the first periodic refresh.\<close>

theorem consumer_starts_seeded:
  assumes "uuid_lib_ok ul" and "pg_subscribers_ok d" and "ap_consumer app = Some c"
    and "rr_end (run ul notifier host app d) \<noteq> Panicked"
  shows "\<exists>md dp r. rr_dispatcher (run ul notifier host app d) = Some md \<and>
           md_subscriber_dispatcher md = Some (dp, notifier) \<and>
           precedes (Subscribers_Refreshed r) Consumer_Spawned (rr_events (run ul notifier host app d)) \<and>
           pg_subscriptions (rr_db (run ul notifier host app d)) = pg_subscriptions d \<and>
           (\<forall>topic. su_id ` set (get_matching_subscribers (dp_endpoints dp) topic) =
              (if is_ok r then {i. \<exists>n. pg_subscriptions d i = Some n \<and> sn_active n \<and> matches_any topic (sn_patterns n)}
               else {}))"
proof -
  from assms(4) obtain routes where routes: "routes_of host app = Some routes"
    by (cases "routes_of host app") (simp_all add: run_panicked)
  from start_consumer_seeded [OF assms(1,2), of notifier c] obtain md dp r d1 where
    sc: "start_consumer ul notifier (Some c) d =
      (Some md, [Subscribers_Refreshed r, Refresh_Spawned, Consumer_Spawned], d1)"
    and spec: "md_subscriber_dispatcher md = Some (dp, notifier)" "pg_subscriptions d1 = pg_subscriptions d"
      "\<forall>topic. su_id ` set (get_matching_subscribers (dp_endpoints dp) topic) =
        (if is_ok r then {i. \<exists>n. pg_subscriptions d i = Some n \<and> sn_active n \<and> matches_any topic (sn_patterns n)}
         else {})" by blast
  have rep: "rr_dispatcher (run ul notifier host app d) = Some md \<and> rr_db (run ul notifier host app d) = d1 \<and>
      (\<exists>rest. rr_events (run ul notifier host app d) = started ul notifier app d @ rest)"
    unfolding run_started [OF routes] assms(3) sc by (simp add: Let_def split: sum.split)
  have "started ul notifier app d = (Grpc_Spawned (ap_grpc_addr app) # snd (start_publisher (ap_settings app) (ap_publisher app))) @
      [Subscribers_Refreshed r, Refresh_Spawned, Consumer_Spawned]"
    by (simp add: started_def assms(3) sc)
  with rep have "precedes (Subscribers_Refreshed r) Consumer_Spawned (rr_events (run ul notifier host app d))"
    unfolding precedes_def by (metis append.assoc append_Cons append_Nil)
  with rep spec show ?thesis by blast
qed

theorem consumer_starts_seeded_witness:
  "\<exists>md dp. rr_dispatcher (run decimal_uuids silent_notifier sample_host sample_app empty_db) = Some md \<and>
     md_subscriber_dispatcher md = Some (dp, silent_notifier) \<and>
     (\<forall>topic. get_matching_subscribers (dp_endpoints dp) topic = [])"
proof -
  have c: "ap_consumer sample_app = Some ()" by (simp add: sample_app_def)
  from sample_routes obtain routes where routes: "routes_of sample_host sample_app = Some routes" by blast
  have "rr_end (run decimal_uuids silent_notifier sample_host sample_app empty_db) \<noteq> Panicked"
    unfolding run_started [OF routes] by (simp add: Let_def split: sum.split)
  note seeded = consumer_starts_seeded [OF decimal_uuids_ok empty_subscribers_ok c this]
  have "pg_subscriptions empty_db = Map.empty" by (simp add: pg_subscriptions_def empty_db_def table_map_def)
  then have none: "(if is_ok (r :: core_error + unit) then {i. \<exists>n. pg_subscriptions empty_db i = Some n \<and> sn_active n \<and>
      matches_any topic (sn_patterns n)} else {}) = {}" for r topic by simp
  from seeded show ?thesis unfolding none by auto
qed

section \<open>A metrics path that cannot be routed\<close>

text \<open>The metrics path is not checked. Where axum panics as documented, a configured path that is
  empty, lacks the leading slash or already has a \<open>GET\<close> handler (\<open>/health\<close>, \<open>/api/v1/health\<close>, \<open>/api/v1/dlq\<close>
  and the like) takes the whole process down: after the migrations ran, and before anything was
  started.\<close>

theorem bad_metrics_path_panics:
  assumes axum: "axum_panics (hs_accepts host)" and built: "build pf b d = (Ok app, d')"
    and enabled: "mc_enabled (st_metrics (ap_settings app))"
    and path: "path = mc_path (st_metrics (ap_settings app))"
    and bad: "\<not> starts_with path ''/'' \<or> path = ''/health'' \<or>
              (\<exists>q methods. (q, methods) \<in> set router \<and> GET \<in> fst ` set methods \<and> path = ''/api/v1'' @ q)"
  shows "rr_end (build_and_run pf notifier host b d) = Panicked \<and>
         rr_events (build_and_run pf notifier host b d) = [] \<and> rr_db (build_and_run pf notifier host b d) = d'"
proof -
  let ?routes = "(''/health'', [(GET, H_Health)]) # nest_api router"
  have "\<exists>methods. (path, methods) \<in> set ?routes \<and> GET \<in> fst ` set methods" if "starts_with path ''/''"
  proof (cases "path = ''/health''")
    case False
    with bad that obtain q methods where q: "(q, methods) \<in> set router" "GET \<in> fst ` set methods" "path = ''/api/v1'' @ q"
      by blast
    let ?methods = "map (\<lambda>(m, h). (m, H_Api h)) methods"
    from q(1) have "(path, ?methods) \<in> set (nest_api router)" by (force simp: nest_api_def q(3))
    then have "(path, ?methods) \<in> set ?routes" by (rule list.set_intros(2))
    moreover from q(2) have "GET \<in> fst ` set ?methods" by force
    ultimately show ?thesis by blast
  qed auto
  with axum have "\<not> hs_accepts host ?routes path" unfolding axum_panics_def by blast
  with enabled path have "routes_of host app = None" by (simp add: app_router_def Let_def)
  with built show ?thesis by (simp add: build_and_run_def run_panicked)
qed

theorem bad_metrics_path_panics_witness:
  "rr_end (build_and_run sample_platform silent_notifier sample_host
     (with_settings (sample_settings\<lparr>st_metrics := default_metrics_config\<lparr>mc_path := ''metrics''\<rparr>\<rparr>) app_builder_new)
     empty_db) = Panicked"
proof -
  let ?st = "sample_settings\<lparr>st_metrics := default_metrics_config\<lparr>mc_path := ''metrics''\<rparr>\<rparr>"
  let ?b = "with_settings ?st app_builder_new"
  have "is_ok (fst (build sample_platform ?b empty_db))"
    by (simp add: build_def assemble_def sample_platform_def with_settings_def create_pool_def run_migrations_def
        kafka_producer_new_def kafka_producer_new_with_config_def outbox_publisher_new_def sample_metrics_new Let_def)
  then obtain app d' where built: "build sample_platform ?b empty_db = (Ok app, d')"
    by (cases "build sample_platform ?b empty_db"; cases "fst (build sample_platform ?b empty_db)") auto
  then have st: "ap_settings app = ?st" by (auto simp: build_Ok assemble_Ok with_settings_def)
  have "axum_panics (hs_accepts sample_host)" by (simp add: sample_host_def sample_accepts_ok)
  moreover have "mc_enabled (st_metrics (ap_settings app))" by (simp add: st default_metrics_config_def)
  moreover have "''metrics'' = mc_path (st_metrics (ap_settings app))" by (simp add: st)
  moreover have "\<not> starts_with ''metrics'' ''/''" by simp
  ultimately show ?thesis using bad_metrics_path_panics [OF _ built] by blast
qed

section \<open>Settings without effect\<close>

text \<open>What the process reads of its settings.\<close>

definition used_settings ::
  "settings \<Rightarrow> (string \<times> pool_options) \<times> (client_config \<times> client_config \<times> string list) \<times> retry_config \<times> (u16 \<times> u16)
     \<times> (bool \<times> string) \<times> i64 \<times> u64" where
  "used_settings st =
     ((connection_url (st_database st), pool_options_of (st_database st)),
      (create_producer_config (st_kafka st), create_consumer_config (st_kafka st), cc_topics (kc_consumer (st_kafka st))),
      st_retry st, (sc_http_port (st_server st), gc_port (st_grpc st)),
      (mc_enabled (st_metrics st), mc_path (st_metrics st)),
      oc_batch_size (st_outbox st), oc_poll_interval_ms (st_outbox st))"

lemma assemble_used:
  assumes "used_settings st = used_settings st'"
  shows "assemble pf st' = map_ok (\<lambda>app. app\<lparr>ap_settings := st'\<rparr>) (assemble pf st)"
proof -
  from assms have eqs: "create_producer_config (st_kafka st') = create_producer_config (st_kafka st)"
    "create_consumer_config (st_kafka st') = create_consumer_config (st_kafka st)"
    "cc_topics (kc_consumer (st_kafka st')) = cc_topics (kc_consumer (st_kafka st))"
    "st_retry st' = st_retry st" "sc_http_port (st_server st') = sc_http_port (st_server st)"
    "gc_port (st_grpc st') = gc_port (st_grpc st)"
    by (simp_all add: used_settings_def)
  show ?thesis
    by (cases "pf_producer pf (create_producer_config (st_kafka st))"; cases "metrics_new (pf_prometheus pf)")
       (simp_all add: assemble_def kafka_producer_new_def kafka_producer_new_with_config_def build_consumer_def
          kafka_consumer_new_def outbox_publisher_new_def eqs Let_def)
qed

lemma run_used:
  assumes "used_settings (ap_settings app) = used_settings st'"
  shows "run ul notifier host (app\<lparr>ap_settings := st'\<rparr>) d = run ul notifier host app d"
proof -
  have "start_publisher st' (ap_publisher app) = start_publisher (ap_settings app) (ap_publisher app)"
    using assms by (simp add: used_settings_def start_publisher_def split: option.split)
  then have st: "started ul notifier (app\<lparr>ap_settings := st'\<rparr>) d = started ul notifier app d"
    by (simp add: started_def)
  have r: "routes_of host (app\<lparr>ap_settings := st'\<rparr>) = routes_of host app"
    using assms by (simp add: used_settings_def)
  show ?thesis
  proof (cases "routes_of host app")
    case None
    with r have "routes_of host (app\<lparr>ap_settings := st'\<rparr>) = None" by metis
    from run_panicked [OF this, of ul notifier d] run_panicked [OF None, of ul notifier d] show ?thesis by simp
  next
    case (Some routes)
    with r have "routes_of host (app\<lparr>ap_settings := st'\<rparr>) = Some routes" by metis
    from run_started [OF this, of ul notifier d] run_started [OF Some, of ul notifier d] st show ?thesis
      by (simp add: Let_def split: sum.split option.split)
  qed
qed

text \<open>C39: Settings without effect. The process is a function of the settings listed in \<open>used_settings\<close>: where
  these agree, it does the same in every environment. So the server mode, the listening hosts, the
  server's own gRPC port, the shutdown and request timeouts, the switch that disables gRPC, the limits of
  the gRPC server, \<open>auto_migrate\<close>, \<open>min_connections\<close>, the metrics port, the security settings of Kafka
  and the whole inbox, DLQ, subscriber and logging sections change nothing.\<close>

theorem settings_ignored:
  "(used_settings st = used_settings st' \<longrightarrow>
      build_and_run pf notifier host (with_settings st' b) d = build_and_run pf notifier host (with_settings st b) d) \<and>
   build_and_run pf notifier host
     (with_settings
       (st\<lparr>st_server := (st_server st)\<lparr>sc_mode := mode, sc_host := h1, sc_grpc_port := p1,
             sc_shutdown_timeout_secs := t1, sc_request_timeout_secs := t2\<rparr>,
           st_grpc := (st_grpc st)\<lparr>gc_enabled := grpc_enabled, gc_host := h2, gc_max_concurrent_streams := n1,
             gc_connection_timeout := t3\<rparr>,
           st_database := (st_database st)\<lparr>dc_auto_migrate := auto_migrate, dc_min_connections := n2\<rparr>,
           st_kafka := (st_kafka st)\<lparr>kc_security_protocol := s1, kc_sasl_mechanism := s2, kc_sasl_username := s3,
             kc_sasl_password := s4\<rparr>,
           st_metrics := (st_metrics st)\<lparr>mc_port := p2\<rparr>, st_inbox := inbox, st_dlq := dlq,
           st_subscriber := subscriber, st_logging := logging\<rparr>) b) d =
     build_and_run pf notifier host (with_settings st b) d"
proof -
  have same: "build_and_run pf notifier host (with_settings st' b) d = build_and_run pf notifier host (with_settings st b) d"
    if used: "used_settings st = used_settings st'" for st st'
  proof -
    have pool: "create_pool (pf_connect pf) (st_database st') = create_pool (pf_connect pf) (st_database st)"
      using used by (simp add: used_settings_def create_pool_def fun_eq_iff)
    have app: "ap_settings app = st" if "assemble pf st = Ok app" for app using that by (auto simp: assemble_Ok)
    obtain q1 d1 where q1: "create_pool (pf_connect pf) (st_database st) d = (q1, d1)" by fastforce
    obtain q2 d2 where q2: "run_migrations (pf_migrate pf) d1 = (q2, d2)" by fastforce
    show ?thesis
    proof (cases "assemble pf st")
      case (Inl e)
      with assemble_used [OF used, of pf] show ?thesis
        by (cases q1; cases q2) (simp_all add: build_and_run_def build_def with_settings_def pool q1 q2)
    next
      case (Inr app)
      with run_used [of app st' "pf_uuids pf" notifier host d2] used app have
        "run (pf_uuids pf) notifier host (app\<lparr>ap_settings := st'\<rparr>) d2 = run (pf_uuids pf) notifier host app d2" by simp
      with Inr assemble_used [OF used, of pf] show ?thesis
        by (cases q1; cases q2) (simp_all add: build_and_run_def build_def with_settings_def pool q1 q2)
    qed
  qed
  let ?st = "st\<lparr>st_server := (st_server st)\<lparr>sc_mode := mode, sc_host := h1, sc_grpc_port := p1,
             sc_shutdown_timeout_secs := t1, sc_request_timeout_secs := t2\<rparr>,
           st_grpc := (st_grpc st)\<lparr>gc_enabled := grpc_enabled, gc_host := h2, gc_max_concurrent_streams := n1,
             gc_connection_timeout := t3\<rparr>,
           st_database := (st_database st)\<lparr>dc_auto_migrate := auto_migrate, dc_min_connections := n2\<rparr>,
           st_kafka := (st_kafka st)\<lparr>kc_security_protocol := s1, kc_sasl_mechanism := s2, kc_sasl_username := s3,
             kc_sasl_password := s4\<rparr>,
           st_metrics := (st_metrics st)\<lparr>mc_port := p2\<rparr>, st_inbox := inbox, st_dlq := dlq,
           st_subscriber := subscriber, st_logging := logging\<rparr>"
  have "used_settings st = used_settings ?st"
    by (simp add: used_settings_def connection_url_def pool_options_of_def create_producer_config_def
        create_consumer_config_def Let_def)
  then have "build_and_run pf notifier host (with_settings ?st b) d = build_and_run pf notifier host (with_settings st b) d"
    by (rule same)
  with same show ?thesis by blast
qed

theorem settings_ignored_witness:
  "rr_end (build_and_run sample_platform silent_notifier sample_host
     (with_settings (sample_settings\<lparr>st_metrics := default_metrics_config\<lparr>mc_port := 1\<rparr>\<rparr>) app_builder_new) empty_db) =
   Returned (Ok ())"
proof -
  let ?st = "sample_settings\<lparr>st_metrics := default_metrics_config\<lparr>mc_port := 1\<rparr>\<rparr>"
  from sample_routes obtain routes where routes: "routes_of sample_host sample_app = Some routes" by blast
  have "rr_end (build_and_run sample_platform silent_notifier sample_host sample_builder empty_db) = Returned (Ok ())"
    unfolding build_and_run_def sample_build by (simp add: run_started [OF routes] Let_def, simp add: sample_host_def)
  moreover have "used_settings sample_settings = used_settings ?st" by (simp add: used_settings_def)
  ultimately show ?thesis
    using settings_ignored [of sample_settings ?st sample_platform silent_notifier sample_host app_builder_new empty_db]
    by (simp add: sample_builder_def)
qed

end
