(* ===== verification/Db_Mysql.thy ===== *)
theory Db_Mysql
  imports Outbox_System Db_Inbox Db_Dlq
begin

text \<open>
  The MySQL variants of the repositories (feature \<open>mysql\<close> of \<open>crates/rs-broker-db\<close>): outbox, inbox and
  dead letters, one definition per method. The repository ships one schema, the migrations, so they
  are modelled over the same tables; what the schema supplies for the column \<open>message_id\<close>, which the
  MySQL \<open>INSERT\<close> leaves out, is the parameter \<open>dflt\<close> (\<open>None\<close> under the migrations: the column is
  \<open>NOT NULL\<close> without a default). Whether the server knows \<open>UPDATE .. RETURNING\<close>, which one of the methods
  uses, is the parameter \<open>ret\<close> (no version of MySQL does, as a comment of the code says). Reserved words must
  be quoted. The subscriber repository of this variant does not compile and is
  left out.
\<close>

section \<open>What MySQL refuses to parse\<close>

datatype mysql_column = Bare string | Quoted string

definition mysql_reserved :: "string list" where
  "mysql_reserved = [''key'', ''partition'']"

definition mysql_columns_ok :: "mysql_column list \<Rightarrow> bool" where
  "mysql_columns_ok cols = list_all (\<lambda>c. case c of Bare n \<Rightarrow> n \<notin> set mysql_reserved | Quoted _ \<Rightarrow> True) cols"

text \<open>\<open>slice::chunks\<close>.\<close>

function chunks :: "nat \<Rightarrow> 'a list \<Rightarrow> 'a list list" where
  "chunks n xs = (if n = 0 \<or> xs = [] then [] else take n xs # chunks n (drop n xs))"
  by pat_completeness auto
termination by (relation "measure (\<lambda>(n, xs). length xs)") auto

declare chunks.simps [simp del]

section \<open>Outbox\<close>

definition mysql_outbox_insert :: "(db \<Rightarrow> uuid option) \<Rightarrow> outbox_message \<Rightarrow> unit statement" where
  "mysql_outbox_insert dflt m env d =
     (case dflt d of
        None \<Rightarrow> Err (Violation ''message_id has no default value'')
      | Some v \<Rightarrow>
          map_ok (\<lambda>rows. ((), d\<lparr>db_outbox := rows\<rparr>))
            (insert_rows outbox_row_check outbox_unique [(outbox_row_of_message m)\<lparr>ow_message_id := v\<rparr>] (db_outbox d)))"

definition mysql_outbox_create ::
  "(db \<Rightarrow> uuid option) \<Rightarrow> outbox_message \<Rightarrow> db \<Rightarrow> (outbox_error + unit) \<times> db" where
  "mysql_outbox_create dflt m d = outbox_stmt (mysql_outbox_insert dflt m) d"

text \<open>The loop of the transaction, over the rows only the transaction sees.\<close>

fun mysql_insert_each ::
  "(db \<Rightarrow> uuid option) \<Rightarrow> outbox_message list \<Rightarrow> db \<Rightarrow> (outbox_error + unit) \<times> db" where
  "mysql_insert_each dflt [] d = (Ok (), d)"
| "mysql_insert_each dflt (m # ms) d =
     (case outbox_stmt (mysql_outbox_insert dflt m) d of
        (Err e, d1) \<Rightarrow> (Err e, d1)
      | (Ok _, d1) \<Rightarrow> mysql_insert_each dflt ms d1)"

text \<open>A transaction dropped before its commit is rolled back; the commit makes its rows the table's.\<close>

definition mysql_outbox_create_batch ::
  "(db \<Rightarrow> uuid option) \<Rightarrow> outbox_message list \<Rightarrow> db \<Rightarrow> (outbox_error + unit) \<times> db" where
  "mysql_outbox_create_batch dflt ms d =
     (if ms = [] then (Ok (), d)
      else case outbox_stmt (\<lambda>env d. Ok ((), d)) d of
             (Err e, d1) \<Rightarrow> (Err e, d1)
           | (Ok _, d1) \<Rightarrow>
               (case mysql_insert_each dflt ms d1 of
                  (Err e, d2) \<Rightarrow> (Err e, d2\<lparr>db_outbox := db_outbox d\<rparr>)
                | (Ok _, d2) \<Rightarrow>
                    outbox_stmt (\<lambda>env d3. Ok ((), d3\<lparr>db_outbox := db_outbox d2\<rparr>)) (d2\<lparr>db_outbox := db_outbox d\<rparr>)))"

definition mysql_outbox_get_by_id :: "uuid \<Rightarrow> db \<Rightarrow> (outbox_error + outbox_message) \<times> db" where
  "mysql_outbox_get_by_id i d =
     outbox_stmt (\<lambda>env d. case row_at ow_id (db_outbox d) i of
                            None \<Rightarrow> Err RowNotFound
                          | Some r \<Rightarrow> Ok (outbox_message_of_row r, d)) d"

definition mysql_outbox_get_pending :: "i64 \<Rightarrow> db \<Rightarrow> (outbox_error + outbox_message list) \<times> db" where
  "mysql_outbox_get_pending n d =
     outbox_stmt (\<lambda>env d.
       map_ok (\<lambda>rows. (map outbox_message_of_row rows, d))
         (limit_rows n 0 (sort_key ow_created_at
            (filter (\<lambda>r. ow_status r \<in> set [''pending'', ''retrying'']) (db_outbox d))))) d"

definition mysql_outbox_claim_pending :: "i64 \<Rightarrow> i32 \<Rightarrow> db \<Rightarrow> (outbox_error + outbox_message list) \<times> db" where
  "mysql_outbox_claim_pending n lease_secs d = mysql_outbox_get_pending n d"

definition mysql_mark_stmt :: "uuid list \<Rightarrow> u64 statement" where
  "mysql_mark_stmt ids env d =
     map_ok (\<lambda>d2. (of_nat (length (filter (\<lambda>r. ow_id r \<in> set ids) (db_outbox d))), d2))
       (outbox_update (\<lambda>r. ow_id r \<in> set ids)
          (\<lambda>r. r\<lparr>ow_status := ''published'', ow_published_at := Some (db_now d)\<rparr>) d)"

fun mysql_mark_chunks :: "uuid list list \<Rightarrow> u64 \<Rightarrow> db \<Rightarrow> (outbox_error + u64) \<times> db" where
  "mysql_mark_chunks [] marked d = (Ok marked, d)"
| "mysql_mark_chunks (chunk # rest) marked d =
     (case outbox_stmt (mysql_mark_stmt chunk) d of
        (Err e, d1) \<Rightarrow> (Err e, d1)
      | (Ok n, d1) \<Rightarrow> mysql_mark_chunks rest (marked + n) d1)"

definition mysql_outbox_mark_published_batch :: "uuid list \<Rightarrow> db \<Rightarrow> (outbox_error + u64) \<times> db" where
  "mysql_outbox_mark_published_batch ids d =
     (if ids = [] then (Ok 0, d) else mysql_mark_chunks (chunks 1000 ids) 0 d)"

definition mysql_outbox_release_claim :: "uuid \<Rightarrow> db \<Rightarrow> (outbox_error + unit) \<times> db" where
  "mysql_outbox_release_claim i d =
     outbox_stmt (\<lambda>env d. map_ok (Pair ())
       (outbox_update (\<lambda>r. ow_id r = i \<and> ow_status r = ''publishing'') (\<lambda>r. r\<lparr>ow_status := ''pending''\<rparr>) d)) d"

definition mysql_outbox_update_status ::
  "uuid \<Rightarrow> message_status \<Rightarrow> string option \<Rightarrow> db \<Rightarrow> (outbox_error + unit) \<times> db" where
  "mysql_outbox_update_status i status error_message d =
     outbox_stmt (\<lambda>env d. map_ok (Pair ())
       (outbox_update (\<lambda>r. ow_id r = i)
          (\<lambda>r. r\<lparr>ow_status := message_status_to_string status, ow_error_message := error_message\<rparr>) d)) d"

definition mysql_outbox_increment_retry :: "bool \<Rightarrow> uuid \<Rightarrow> string option \<Rightarrow> db \<Rightarrow> (outbox_error + i32) \<times> db" where
  "mysql_outbox_increment_retry ret i error_message d =
     outbox_stmt (\<lambda>env d.
       if \<not> ret then Err (Violation ''syntax error near RETURNING'')
       else case row_at ow_id (db_outbox d) i of
         None \<Rightarrow> Err RowNotFound
       | Some r \<Rightarrow>
           if sint (ow_retry_count r) = i32_max then Err (Violation ''out of range value'')
           else map_ok (Pair (ow_retry_count r + 1))
             (outbox_update (\<lambda>r. ow_id r = i)
                (\<lambda>r. r\<lparr>ow_retry_count := ow_retry_count r + 1, ow_status := ''retrying'',
                      ow_error_message := error_message\<rparr>) d)) d"

definition mysql_outbox_mark_published :: "uuid \<Rightarrow> db \<Rightarrow> (outbox_error + unit) \<times> db" where
  "mysql_outbox_mark_published i d =
     outbox_stmt (\<lambda>env d. map_ok (Pair ())
       (outbox_update (\<lambda>r. ow_id r = i)
          (\<lambda>r. r\<lparr>ow_status := ''published'', ow_published_at := Some (db_now d)\<rparr>) d)) d"

definition mysql_outbox_delete :: "uuid \<Rightarrow> db \<Rightarrow> (outbox_error + unit) \<times> db" where
  "mysql_outbox_delete i d =
     outbox_stmt (\<lambda>env d. Ok ((), d\<lparr>db_outbox := delete_rows (\<lambda>r. ow_id r = i) (db_outbox d)\<rparr>)) d"

definition mysql_outbox_repository :: "bool \<Rightarrow> (db \<Rightarrow> uuid option) \<Rightarrow> db outbox_repository" where
  "mysql_outbox_repository ret dflt =
     \<lparr>or_create = mysql_outbox_create dflt,
      or_create_batch = mysql_outbox_create_batch dflt,
      or_get_by_id = mysql_outbox_get_by_id,
      or_get_pending = mysql_outbox_get_pending,
      or_claim_pending = mysql_outbox_claim_pending,
      or_mark_published_batch = mysql_outbox_mark_published_batch,
      or_release_claim = mysql_outbox_release_claim,
      or_update_status = mysql_outbox_update_status,
      or_increment_retry = mysql_outbox_increment_retry ret,
      or_mark_published = mysql_outbox_mark_published,
      or_delete = mysql_outbox_delete\<rparr>"

section \<open>Inbox\<close>

definition mysql_inbox_insert_columns :: "mysql_column list" where
  "mysql_inbox_insert_columns =
     [Bare ''id'', Bare ''message_id'', Bare ''topic'', Bare ''partition'', Quoted ''offset'', Bare ''key'',
      Bare ''event_type'', Bare ''payload'', Bare ''headers'', Bare ''timestamp'', Bare ''status'',
      Bare ''attempt_count'', Bare ''error_message'', Bare ''received_at'', Bare ''processed_at'']"

definition mysql_inbox_insert :: "inbox_message list \<Rightarrow> unit statement" where
  "mysql_inbox_insert ms env d =
     (if mysql_columns_ok mysql_inbox_insert_columns then inbox_insert ms env d
      else Err (Violation ''syntax error near a reserved word''))"

definition mysql_inbox_create :: "inbox_message \<Rightarrow> db \<Rightarrow> (inbox_error + unit) \<times> db" where
  "mysql_inbox_create m d = inbox_stmt (mysql_inbox_insert [m]) d"

text \<open>One statement per chunk, without a transaction around them.\<close>

fun mysql_inbox_chunks :: "inbox_message list list \<Rightarrow> db \<Rightarrow> (inbox_error + unit) \<times> db" where
  "mysql_inbox_chunks [] d = (Ok (), d)"
| "mysql_inbox_chunks (chunk # rest) d =
     (case inbox_stmt (mysql_inbox_insert chunk) d of
        (Err e, d1) \<Rightarrow> (Err e, d1)
      | (Ok _, d1) \<Rightarrow> mysql_inbox_chunks rest d1)"

definition mysql_inbox_create_batch :: "inbox_message list \<Rightarrow> db \<Rightarrow> (inbox_error + unit) \<times> db" where
  "mysql_inbox_create_batch ms d = (if ms = [] then (Ok (), d) else mysql_inbox_chunks (chunks 100 ms) d)"

definition mysql_inbox_get_by_id :: "uuid \<Rightarrow> db \<Rightarrow> (inbox_error + inbox_message) \<times> db" where
  "mysql_inbox_get_by_id i d =
     inbox_stmt (\<lambda>env d. case row_at iw_id (db_inbox d) i of
                           None \<Rightarrow> Err RowNotFound
                         | Some r \<Rightarrow> Ok (inbox_message_of_row r, d)) d"

definition mysql_inbox_get_by_topic_offset ::
  "string \<Rightarrow> i64 \<Rightarrow> db \<Rightarrow> (inbox_error + inbox_message option) \<times> db" where
  "mysql_inbox_get_by_topic_offset topic off d =
     inbox_stmt (\<lambda>env d. Ok (map_option inbox_message_of_row
                              (find (\<lambda>r. iw_topic r = topic \<and> iw_offset r = off) (db_inbox d)), d)) d"

definition mysql_inbox_update_status ::
  "uuid \<Rightarrow> inbox_status \<Rightarrow> string option \<Rightarrow> db \<Rightarrow> (inbox_error + unit) \<times> db" where
  "mysql_inbox_update_status i status error_message d =
     inbox_stmt (\<lambda>env d.
       if list_all (\<lambda>c. c \<in> set inbox_columns) [''status'', ''error_message'', ''updated_at'']
       then map_ok (\<lambda>rs. ((), d\<lparr>db_inbox := rs\<rparr>))
              (update_rows inbox_row_check (\<lambda>r. iw_id r = i)
                 (\<lambda>r. r\<lparr>iw_status := inbox_status_to_string status, iw_error_message := error_message\<rparr>) (db_inbox d))
       else Err (Violation ''unknown column'')) d"

definition mysql_inbox_mark_processed :: "uuid \<Rightarrow> db \<Rightarrow> (inbox_error + unit) \<times> db" where
  "mysql_inbox_mark_processed i d =
     inbox_stmt (\<lambda>env d.
       map_ok (\<lambda>rs. ((), d\<lparr>db_inbox := rs\<rparr>))
         (update_rows inbox_row_check (\<lambda>r. iw_id r = i)
            (\<lambda>r. r\<lparr>iw_status := ''processed'', iw_processed_at := Some (db_now d)\<rparr>) (db_inbox d))) d"

definition mysql_inbox_delete :: "uuid \<Rightarrow> db \<Rightarrow> (inbox_error + unit) \<times> db" where
  "mysql_inbox_delete i d =
     inbox_stmt (\<lambda>env d. Ok ((), d\<lparr>db_inbox := delete_rows (\<lambda>r. iw_id r = i) (db_inbox d)\<rparr>)) d"

section \<open>Dead letters\<close>

text \<open>Apart from the placeholders these are the statements of the Postgres variant.\<close>

definition mysql_dlq_create :: "dlq_message \<Rightarrow> db \<Rightarrow> (dlq_error + unit) \<times> db" where
  "mysql_dlq_create m d =
     dlq_stmt (\<lambda>env d. map_ok (\<lambda>rs. ((), d\<lparr>db_dlq := rs\<rparr>))
       (insert_rows dlq_row_check dlq_unique [dlq_row_of_message m] (db_dlq d))) d"

definition mysql_dlq_get_by_id :: "uuid \<Rightarrow> db \<Rightarrow> (dlq_error + dlq_message) \<times> db" where
  "mysql_dlq_get_by_id i d =
     dlq_stmt (\<lambda>env d. case row_at dw_id (db_dlq d) i of
                         None \<Rightarrow> Err RowNotFound
                       | Some r \<Rightarrow> Ok (dlq_message_of_row r, d)) d"

definition mysql_dlq_get_all :: "string option \<Rightarrow> i64 \<Rightarrow> i64 \<Rightarrow> db \<Rightarrow> (dlq_error + dlq_message list) \<times> db" where
  "mysql_dlq_get_all topic n off d =
     dlq_stmt (\<lambda>env d.
       map_ok (\<lambda>rs. (map dlq_message_of_row rs, d))
         (limit_rows n off (sort_key (\<lambda>r. - dw_created_at r) (where_topic topic (db_dlq d))))) d"

definition mysql_dlq_count :: "string option \<Rightarrow> db \<Rightarrow> (dlq_error + i64) \<times> db" where
  "mysql_dlq_count topic d = dlq_stmt (\<lambda>env d. Ok (of_nat (length (where_topic topic (db_dlq d))), d)) d"

definition mysql_dlq_delete :: "uuid \<Rightarrow> db \<Rightarrow> (dlq_error + unit) \<times> db" where
  "mysql_dlq_delete i d =
     dlq_stmt (\<lambda>env d. Ok ((), d\<lparr>db_dlq := delete_rows (\<lambda>r. dw_id r = i) (db_dlq d)\<rparr>)) d"

definition mysql_dlq_delete_all :: "db \<Rightarrow> (dlq_error + unit) \<times> db" where
  "mysql_dlq_delete_all d = dlq_stmt (\<lambda>env d. Ok ((), d\<lparr>db_dlq := []\<rparr>)) d"

definition mysql_dlq_repository :: "db dlq_repository" where
  "mysql_dlq_repository =
     \<lparr>dr_create = mysql_dlq_create, dr_get_by_id = mysql_dlq_get_by_id, dr_get_all = mysql_dlq_get_all,
      dr_count = mysql_dlq_count, dr_delete = mysql_dlq_delete, dr_delete_all = mysql_dlq_delete_all\<rparr>"

lemma mysql_dlq_repository_same: "mysql_dlq_repository = pg_dlq_repository"
  by (simp add: mysql_dlq_repository_def pg_dlq_repository_def fun_eq_iff mysql_dlq_create_def pg_dlq_create_def
      mysql_dlq_get_by_id_def pg_dlq_get_by_id_def mysql_dlq_get_all_def pg_dlq_get_all_def mysql_dlq_count_def
      pg_dlq_count_def mysql_dlq_delete_def pg_dlq_delete_def mysql_dlq_delete_all_def pg_dlq_delete_all_def)

interpretation mysql_dlq: dlq_port mysql_dlq_repository pg_parked pg_dlq_ok
  unfolding mysql_dlq_repository_same by (rule pg_dlq.dlq_port_axioms)

end
