(* ===== verification/Mysql_System.thy ===== *)
theory Mysql_System
  imports Db_Mysql
begin

text \<open>
  The publisher on the MySQL repository: what its read-only claim and its missing \<open>RETURNING\<close> do to the
  retry ladder, the agreement with Postgres when a single publisher works undisturbed, marking in
  chunks, the batch transaction, and the statements MySQL refuses.
\<close>

section \<open>Chunks\<close>

lemma concat_chunks: "0 < n \<Longrightarrow> concat (chunks n xs) = xs"
  by (induction n xs rule: chunks.induct) (subst chunks.simps, simp)

lemma chunks_length: "c \<in> set (chunks n xs) \<Longrightarrow> length c \<le> n"
  by (induction n xs rule: chunks.induct) (subst (asm) chunks.simps, auto split: if_splits)

section \<open>Refused statements\<close>

lemma outbox_stmt_refused:
  assumes "\<And>env d1. stmt env d1 = Err (err env d1)" and "outbox_stmt stmt d = (r, d')"
  shows "\<not> is_ok r \<and> db_outbox d' = db_outbox d"
  using assms(2)
proof (cases rule: outbox_stmt_cases)
  case (effective env d1 a)
  with assms(1) show ?thesis by simp
qed simp

lemma mysql_increment_refused:
  "mysql_outbox_increment_retry False i e d = (r, d') \<Longrightarrow> \<not> is_ok r \<and> db_outbox d' = db_outbox d"
  unfolding mysql_outbox_increment_retry_def
  by (rule outbox_stmt_refused [where err = "\<lambda>_ _. Violation ''syntax error near RETURNING''"])
     simp_all

lemma mysql_inbox_insert_refused: "mysql_inbox_insert ms env d = Err (Violation ''syntax error near a reserved word'')"
  by (simp add: mysql_inbox_insert_def mysql_columns_ok_def mysql_inbox_insert_columns_def mysql_reserved_def)

lemma mysql_inbox_refused:
  assumes "inbox_stmt (mysql_inbox_insert ms) d = (r, d')"
  shows "\<not> is_ok r \<and> db_inbox d' = db_inbox d"
proof -
  from assms obtain r0 where r0: "run_statement (mysql_inbox_insert ms) d = (r0, d')" and r: "r = map_err (inbox_storage d) r0"
    by (cases "run_statement (mysql_inbox_insert ms) d") (auto simp: inbox_stmt_def)
  show ?thesis
  proof (rule run_statement_cases [OF r0])
    fix env e assume "next_env d = (env, d')" "r0 = Err e"
    with next_env_tables r show ?thesis by fastforce
  next
    fix env d1 a assume "mysql_inbox_insert ms env d1 = Ok (a, d')"
    then show ?thesis by (simp add: mysql_inbox_insert_refused)
  qed
qed

text \<open>The names \<open>key\<close> and \<open>partition\<close> stand unquoted in both \<open>INSERT\<close> statements of the inbox, so that no
  message ever reaches it.\<close>

theorem mysql_inbox_stores_nothing:
  "(\<not> is_ok (fst (mysql_inbox_create m d)) \<and> db_inbox (snd (mysql_inbox_create m d)) = db_inbox d) \<and>
   (is_ok (fst (mysql_inbox_create_batch ms d)) \<longleftrightarrow> ms = []) \<and>
   db_inbox (snd (mysql_inbox_create_batch ms d)) = db_inbox d"
proof -
  have one: "\<not> is_ok (fst (inbox_stmt (mysql_inbox_insert ms) d)) \<and>
      db_inbox (snd (inbox_stmt (mysql_inbox_insert ms) d)) = db_inbox d" for ms d
    using mysql_inbox_refused [of ms d] by (metis prod.collapse)
  have batch: "\<not> is_ok (fst (mysql_inbox_create_batch ms d)) \<and> db_inbox (snd (mysql_inbox_create_batch ms d)) = db_inbox d"
    if "ms \<noteq> []"
  proof -
    from that have "chunks 100 ms = take 100 ms # chunks 100 (drop 100 ms)" by (subst chunks.simps) simp
    with that one [of "take 100 ms" d] show ?thesis
      by (auto simp: mysql_inbox_create_batch_def split: prod.splits sum.splits)
  qed
  show ?thesis
    using one [of "[m]" d] batch
    by (cases "ms = []") (auto simp: mysql_inbox_create_def mysql_inbox_create_batch_def)
qed

section \<open>A sink that refuses\<close>

lemma mysql_claim_reads:
  assumes "mysql_outbox_claim_pending n lease d = (r, d')"
  shows "db_outbox d' = db_outbox d \<and>
         (\<forall>ms. r = Ok ms \<longrightarrow> (\<forall>m \<in> set ms. \<exists>row \<in> set (db_outbox d). m = outbox_message_of_row row \<and>
            ow_status row \<in> {''pending'', ''retrying''}))"
  using assms [unfolded mysql_outbox_claim_pending_def mysql_outbox_get_pending_def]
proof (cases rule: outbox_stmt_cases)
  case (effective env d1 ms)
  from effective(2) have d': "d' = d1" by auto
  have "\<exists>row \<in> set (db_outbox d). m = outbox_message_of_row row \<and> ow_status row \<in> {''pending'', ''retrying''}"
    if "m \<in> set ms" for m
    using that effective(1,2) by (auto simp: limit_rows_Ok dest!: in_set_takeD)
  with effective(1,3) d' show ?thesis by auto
qed simp

definition refuses :: "'k message_sink \<Rightarrow> bool" where
  "refuses sink \<longleftrightarrow> (\<forall>ob k. \<not> is_ok (fst (sink ob k)))"

text \<open>The messages a claim returns of a table: not in the state \<open>publishing\<close>, with retries left.\<close>

definition waiting_in :: "outbox_row list \<Rightarrow> retry_strategy \<Rightarrow> outbox_message \<Rightarrow> bool" where
  "waiting_in rows retry m \<longleftrightarrow>
     (\<forall>r \<in> set rows. ow_id r = om_id m \<longrightarrow> ow_status r \<noteq> ''publishing'') \<and> should_retry retry (attempts_so_far m)"

lemma mysql_settle_unchanged:
  assumes "waiting_in (db_outbox s) retry m"
    and "settle_failure sd fl (mysql_outbox_repository False dflt) sink retry m e s k = (r, s', k')"
  shows "r = Ok () \<and> db_outbox s' = db_outbox s"
proof (cases e)
  case (Backpressure t)
  obtain q s1 where q: "mysql_outbox_release_claim (om_id m) s = (q, s1)" by fastforce
  have "db_outbox s1 = db_outbox s"
    using q [unfolded mysql_outbox_release_claim_def]
  proof (cases rule: outbox_stmt_cases)
    case (effective env d1 a)
    then have "db_outbox s1 = map (\<lambda>r. if ow_id r = om_id m \<and> ow_status r = ''publishing''
        then r\<lparr>ow_status := ''pending'', ow_updated_at := db_now d1\<rparr> else r) (db_outbox s)"
      by (auto simp: outbox_update_def update_rows_Ok)
    also have "\<dots> = db_outbox s"
      using assms(1) by (intro map_idI) (auto simp: waiting_in_def)
    finally show ?thesis .
  qed simp
  with assms(2) q show ?thesis by (simp add: settle_failure_def Backpressure mysql_outbox_repository_def)
next
  case (Transport t)
  obtain q s1 where q: "mysql_outbox_increment_retry False (om_id m) (Some (sink_error_to_string e)) s = (q, s1)" by fastforce
  from assms(1) have "evaluate_publish_failure fl m retry = PF_Retry (calculate_delay fl retry (attempts_so_far m))"
    by (simp add: evaluate_publish_failure_def waiting_in_def)
  with assms(2) q mysql_increment_refused [OF q] show ?thesis
    by (simp add: settle_failure_def Transport mysql_outbox_repository_def)
qed

lemma mysql_drain_unchanged:
  assumes "refuses sink" and "\<forall>m \<in> set ms. waiting_in (db_outbox s) retry m"
    and "drain sd fl (mysql_outbox_repository False dflt) sink retry ms pub s k = (r, s', k')"
  shows "db_outbox s' = db_outbox s \<and> (\<forall>p. r = Ok p \<longrightarrow> p = pub)"
  using assms(2,3)
proof (induction ms arbitrary: s k)
  case (Cons m ms)
  show ?case
  proof (cases "sd_to_vec sd (om_payload m)")
    case (Inl err)
    with Cons.prems show ?thesis by auto
  next
    case (Inr payload)
    obtain a k1 where a: "sink (outbound_to (om_topic m) m payload) k = (a, k1)" by fastforce
    with assms(1) obtain e where e: "a = Err e" by (cases a) (auto simp: refuses_def, metis fst_conv is_ok_simps(1))
    obtain q s1 k2 where f: "settle_failure sd fl (mysql_outbox_repository False dflt) sink retry m e s k1 = (q, s1, k2)"
      by (metis prod_cases3)
    from Cons.prems(1) have "waiting_in (db_outbox s) retry m" by simp
    note one = mysql_settle_unchanged [OF this f]
    with Cons.prems(2) Inr a e f have "drain sd fl (mysql_outbox_repository False dflt) sink retry ms pub s1 k2 = (r, s', k')"
      by simp
    with Cons.IH [of s1 k2] Cons.prems(1) one show ?thesis by simp
  qed
qed auto

lemma mysql_round_unchanged:
  assumes "refuses sink" and "pg_outbox_ok s"
    and "\<forall>r \<in> set (db_outbox s). should_retry retry (attempts_so_far (outbox_message_of_row r))"
    and "publish_pending sd fl (mysql_outbox_repository False dflt) sink retry n s k = (r, s', k')"
  shows "db_outbox s' = db_outbox s"
proof -
  obtain q s1 where q: "mysql_outbox_claim_pending n claim_lease_secs s = (q, s1)" by fastforce
  note reads = mysql_claim_reads [OF q]
  show ?thesis
  proof (cases q)
    case (Inl e)
    with assms(4) q reads show ?thesis by (simp add: publish_pending_def mysql_outbox_repository_def)
  next
    case (Inr ms)
    have "waiting_in (db_outbox s1) retry m" if m: "m \<in> set ms" for m
    proof -
      from m reads Inr obtain row where row: "row \<in> set (db_outbox s)" "m = outbox_message_of_row row"
        "ow_status row \<in> {''pending'', ''retrying''}" by blast
      have "ow_status x \<noteq> ''publishing''" if "x \<in> set (db_outbox s)" "ow_id x = om_id m" for x
      proof -
        have "distinct (map ow_id (db_outbox s))" using assms(2) by (simp add: pg_outbox_ok_def outbox_unique_def)
        with that row have "x = row" by (auto simp: outbox_message_of_row_def distinct_map inj_on_def)
        with row(3) show ?thesis by auto
      qed
      with reads assms(3) row show ?thesis by (simp add: waiting_in_def)
    qed
    then have ms: "\<forall>m \<in> set ms. waiting_in (db_outbox s1) retry m" by blast
    obtain p s2 k2 where d: "drain sd fl (mysql_outbox_repository False dflt) sink retry ms [] s1 k = (p, s2, k2)"
      by (metis prod_cases3)
    from mysql_drain_unchanged [OF assms(1) ms d] assms(4) q Inr d reads show ?thesis
      by (cases p) (auto simp: publish_pending_def mysql_outbox_repository_def split: if_splits prod.splits)
  qed
qed

text \<open>On MySQL without \<open>UPDATE .. RETURNING\<close> a refused message never gets anywhere. While the sink refuses, and
  every message of the table has retries left, the outbox table is the same after any run of the worker as before, whatever the
  database and the clock do: claiming only reads, and counting the attempt is a statement MySQL does
  not have. So no attempt is ever counted, and no message ever becomes failed or dead-lettered.\<close>

theorem mysql_refused_never_settles:
  assumes "refuses (pb_sink pb)" and "pb_repository pb = mysql_outbox_repository False dflt" and "pg_outbox_ok s"
    and "\<forall>r \<in> set (db_outbox s). should_retry (pb_retry_strategy pb) (attempts_so_far (outbox_message_of_row r))"
  shows "db_outbox (fst (worker sd fl pb n evs s k)) = db_outbox s"
  using assms(3,4)
proof (induction evs arbitrary: s k)
  case (Cons ev evs)
  show ?case
  proof (cases ev)
    case Tick
    obtain r s1 k1 where p: "publish_pending sd fl (pb_repository pb) (pb_sink pb) (pb_retry_strategy pb) n s k = (r, s1, k1)"
      by (metis prod_cases3)
    from mysql_round_unchanged [OF assms(1) Cons.prems p [unfolded assms(2)]] have s1: "db_outbox s1 = db_outbox s" .
    with Cons.prems have "pg_outbox_ok s1" by (simp add: pg_outbox_ok_def)
    with Cons.IH [of s1 k1] Cons.prems(2) s1 p Tick show ?thesis by simp
  qed simp_all
qed simp

definition mysql_publisher :: "(db, unit) outbox_publisher" where
  "mysql_publisher =
     \<lparr>pb_repository = mysql_outbox_repository False (\<lambda>_. None), pb_sink = refusing,
      pb_retry_strategy = retry_strategy_new default_retry_config, pb_running = True\<rparr>"

theorem mysql_refused_never_settles_witness:
  "db_outbox (fst (worker null_serde exact_floats mysql_publisher 10 [Tick, Tick, Tick, Tick, Tick]
     (sample_db [sample_outbox_row 7 ''pending'' 0]) ())) = [sample_outbox_row 7 ''pending'' 0]"
proof -
  have 1: "refuses (pb_sink mysql_publisher)" by (simp add: mysql_publisher_def refuses_def refusing_def)
  have 2: "pb_repository mysql_publisher = mysql_outbox_repository False (\<lambda>_. None)" by (simp add: mysql_publisher_def)
  have 3: "pg_outbox_ok (sample_db [sample_outbox_row 7 ''pending'' 0])" by (simp add: sample_outbox_ok)
  have 4: "\<forall>r \<in> set (db_outbox (sample_db [sample_outbox_row 7 ''pending'' 0])).
      should_retry (pb_retry_strategy mysql_publisher) (attempts_so_far (outbox_message_of_row r))" by code_simp
  from mysql_refused_never_settles [OF 1 2 3 4, of null_serde exact_floats 10 "[Tick, Tick, Tick, Tick, Tick]" "()"]
  show ?thesis by (simp del: worker.simps)
qed

section \<open>Marking in chunks\<close>

definition set_published :: "entry \<Rightarrow> entry" where
  "set_published e = e\<lparr>en_status := Published\<rparr>"

definition rows_among :: "uuid list \<Rightarrow> db \<Rightarrow> nat" where
  "rows_among ids d = length (filter (\<lambda>r. ow_id r \<in> set ids) (db_outbox d))"

lemma rows_among_ids: "rows_among ids d = length (filter (\<lambda>i. i \<in> set ids) (map ow_id (db_outbox d)))"
  by (simp add: rows_among_def filter_map o_def)

lemma length_filter_append_sets:
  "set xs \<inter> set ys = {} \<Longrightarrow>
   length (filter (\<lambda>r. f r \<in> set (xs @ ys)) rs) =
     length (filter (\<lambda>r. f r \<in> set xs) rs) + length (filter (\<lambda>r. f r \<in> set ys) rs)"
  by (induction rs) auto

lemma rows_among_append:
  "set xs \<inter> set ys = {} \<Longrightarrow> rows_among (xs @ ys) d = rows_among xs d + rows_among ys d"
  unfolding rows_among_def by (rule length_filter_append_sets)

lemma mysql_mark_calm:
  assumes "pg_outbox_ok d" and "undisturbed d"
  shows "\<exists>d'. outbox_stmt (mysql_mark_stmt ids) d = (Ok (of_nat (rows_among ids d)), d') \<and>
           pg_outbox_ok d' \<and> undisturbed d' \<and> pg_ledger d' = on_entries (set ids) set_published (pg_ledger d) \<and>
           map ow_id (db_outbox d') = map ow_id (db_outbox d)"
proof -
  let ?f = "\<lambda>r. r\<lparr>ow_status := ''published'', ow_published_at := Some (db_now d)\<rparr>"
  let ?P = "\<lambda>r. ow_id r \<in> set ids"
  obtain d2 where upd: "outbox_update ?P ?f d = Ok d2" and calm: "undisturbed d2"
    using outbox_update_succeeds [OF assms, of ?f ?P] by (auto simp: outbox_row_checks)
  have run: "outbox_stmt (mysql_mark_stmt ids) d = (Ok (of_nat (rows_among ids d)), d2)"
    by (simp add: outbox_stmt_undisturbed [OF assms(2)] mysql_mark_stmt_def upd rows_among_def)
  have led: "pg_outbox_ok d2 \<and> pg_ledger d2 = on_entries (set ids) set_published (pg_ledger d)"
    using outbox_update_ledger [OF assms(1) upd, of "set ids" set_published]
    by (auto simp: set_published_def outbox_view_defs)
  have "map ow_id (db_outbox d2) = map ow_id (db_outbox d)"
    using upd by (auto simp: outbox_update_def update_rows_Ok)
  with run led calm show ?thesis by blast
qed

lemma set_published_again: "set_published (set_published e) = set_published e"
  by (simp add: set_published_def)

lemma on_entries_set_published:
  "on_entries A set_published (on_entries B set_published l) = on_entries (B \<union> A) set_published l"
proof
  fix x
  show "on_entries A set_published (on_entries B set_published l) x = on_entries (B \<union> A) set_published l x"
    by (cases "l x") (simp_all add: set_published_again)
qed

lemma mysql_mark_chunks_calm:
  assumes "pg_outbox_ok d" and "undisturbed d" and "distinct (concat cs)"
  shows "\<exists>d'. mysql_mark_chunks cs marked d = (Ok (marked + of_nat (rows_among (concat cs) d)), d') \<and>
           pg_outbox_ok d' \<and> undisturbed d' \<and> pg_ledger d' = on_entries (set (concat cs)) set_published (pg_ledger d)"
  using assms
proof (induction cs arbitrary: marked d)
  case Nil
  then show ?case by (simp add: rows_among_def)
next
  case (Cons c cs)
  from mysql_mark_calm [OF Cons.prems(1,2), of c] obtain d1 where
    one: "outbox_stmt (mysql_mark_stmt c) d = (Ok (of_nat (rows_among c d)), d1)" "pg_outbox_ok d1" "undisturbed d1"
      "pg_ledger d1 = on_entries (set c) set_published (pg_ledger d)" "map ow_id (db_outbox d1) = map ow_id (db_outbox d)"
    by blast
  from Cons.prems(3) have dist: "distinct (concat cs)" "set c \<inter> set (concat cs) = {}" by auto
  from Cons.IH [OF one(2,3) dist(1), of "marked + of_nat (rows_among c d)"] obtain d2 where
    two: "mysql_mark_chunks cs (marked + of_nat (rows_among c d)) d1 =
        (Ok (marked + of_nat (rows_among c d) + of_nat (rows_among (concat cs) d1)), d2)"
      "pg_outbox_ok d2" "undisturbed d2" "pg_ledger d2 = on_entries (set (concat cs)) set_published (pg_ledger d1)" by blast
  have "rows_among (concat cs) d1 = rows_among (concat cs) d" by (simp add: rows_among_ids one(5))
  then have "rows_among (concat (c # cs)) d = rows_among c d + rows_among (concat cs) d1"
    using rows_among_append [OF dist(2), of d] by simp
  then have n: "marked + of_nat (rows_among c d) + of_nat (rows_among (concat cs) d1) =
      marked + of_nat (rows_among (concat (c # cs)) d)"
    by (simp add: add.assoc)
  have led: "pg_ledger d2 = on_entries (set (concat (c # cs))) set_published (pg_ledger d)"
    using two(4) one(4) by (simp add: on_entries_set_published del: on_entries_apply)
  have "mysql_mark_chunks (c # cs) marked d =
      (Ok (marked + of_nat (rows_among (concat (c # cs)) d)), d2)"
    using one(1) two(1) n by simp
  with two(2,3) led show ?case by blast
qed

text \<open>Marking in chunks of a thousand has the count and the effect of one statement over all identifiers.\<close>

lemma mysql_mark_batch_calm:
  assumes "pg_outbox_ok d" and "undisturbed d" and "distinct ids"
  shows "\<exists>d'. mysql_outbox_mark_published_batch ids d = (Ok (of_nat (rows_among ids d)), d') \<and>
           pg_outbox_ok d' \<and> undisturbed d' \<and> pg_ledger d' = on_entries (set ids) set_published (pg_ledger d)"
proof (cases "ids = []")
  case True
  with assms show ?thesis by (simp add: mysql_outbox_mark_published_batch_def rows_among_def)
next
  case False
  with mysql_mark_chunks_calm [OF assms(1,2), of "chunks 1000 ids" 0] assms(3) show ?thesis
    by (simp add: mysql_outbox_mark_published_batch_def concat_chunks)
qed

section \<open>A single publisher\<close>

definition sink_accepts :: "'k message_sink \<Rightarrow> bool" where
  "sink_accepts sink \<longleftrightarrow> (\<forall>ob k. fst (sink ob k) = Ok ())"

lemma drain_accepting:
  assumes "sink_accepts sink" and "\<And>m. m \<in> set ms \<Longrightarrow> is_ok (sd_to_vec sd (om_payload m))"
  shows "\<exists>k'. drain sd fl repo sink retry ms pub s k = (Ok (pub @ map om_id ms), s, k')"
  using assms(2)
proof (induction ms arbitrary: pub k)
  case (Cons m ms)
  obtain payload where p: "sd_to_vec sd (om_payload m) = Ok payload"
    using Cons.prems [of m] by (cases "sd_to_vec sd (om_payload m)") auto
  obtain k1 where "sink (outbound_to (om_topic m) m payload) k = (Ok (), k1)"
    using assms(1) by (metis sink_accepts_def prod.collapse)
  with p Cons.IH [of "pub @ [om_id m]" k1] Cons.prems show ?case by simp
qed simp

lemma spec_round_accepting:
  assumes "sink_accepts sink" and "\<And>m. m \<in> set ms \<Longrightarrow> is_ok (sd_to_vec sd (om_payload m))"
  shows "fst (spec_round sd fl sink retry ms l k) = on_entries (om_id ` set ms) published_if_claimed l"
  using assms(2)
proof (induction ms arbitrary: l k)
  case (Cons m ms)
  obtain payload where p: "sd_to_vec sd (om_payload m) = Ok payload"
    using Cons.prems [of m] by (cases "sd_to_vec sd (om_payload m)") auto
  obtain k1 where s: "sink (outbound_to (om_topic m) m payload) k = (Ok (), k1)"
    using assms(1) by (metis sink_accepts_def prod.collapse)
  have "fst (spec_round sd fl sink retry (m # ms) l k) =
      on_entries (om_id ` set ms) published_if_claimed (on_entry (om_id m) published_if_claimed l)"
    using Cons.IH [of "on_entry (om_id m) published_if_claimed l" k1] Cons.prems p s
    by (simp del: on_entry_apply on_entries_apply)
  then show ?case
    by (auto simp: fun_eq_iff published_if_claimed_def option.map_comp o_def intro!: map_option_cong)
qed simp

lemma claimed_then_published:
  "on_entries I published_if_claimed (on_entries I claimed l) = on_entries I set_published l"
proof
  fix x
  show "on_entries I published_if_claimed (on_entries I claimed l) x = on_entries I set_published l x"
    by (cases "l x") (simp_all add: claimed_def published_if_claimed_def set_published_def)
qed

text \<open>The rows a claim takes when no message is being published: the oldest waiting ones.\<close>

definition oldest_waiting :: "i64 \<Rightarrow> db \<Rightarrow> outbox_row list" where
  "oldest_waiting n d =
     take (nat (sint n)) (sort_key ow_created_at
       (filter (\<lambda>r. ow_status r \<in> set [''pending'', ''retrying'']) (db_outbox d)))"

lemma oldest_waiting_rows: "r \<in> set (oldest_waiting n d) \<Longrightarrow> r \<in> set (db_outbox d)"
  by (auto simp: oldest_waiting_def dest!: in_set_takeD)

lemma oldest_waiting_distinct:
  assumes "distinct (map ow_id (db_outbox d))"
  shows "distinct (map ow_id (oldest_waiting n d))"
proof -
  let ?w = "filter (\<lambda>r. ow_status r \<in> set [''pending'', ''retrying'']) (db_outbox d)"
  from assms have "distinct (map ow_id ?w)" by (simp add: distinct_map_filter)
  then have "distinct (map ow_id (sort_key ow_created_at ?w))" by (simp add: distinct_map)
  then show ?thesis by (simp add: oldest_waiting_def take_map [symmetric])
qed

lemma mysql_claim_calm:
  assumes "undisturbed d" and "0 \<le> sint n"
  shows "mysql_outbox_claim_pending n lease d = (Ok (map outbox_message_of_row (oldest_waiting n d)), d)"
  using assms(2)
  by (simp add: mysql_outbox_claim_pending_def mysql_outbox_get_pending_def outbox_stmt_undisturbed [OF assms(1)]
      limit_rows_def oldest_waiting_def)

lemma pg_claim_calm:
  assumes "pg_outbox_ok d" and "undisturbed d" and "0 \<le> sint n"
    and idle: "\<forall>r \<in> set (db_outbox d). ow_status r \<noteq> ''publishing''"
    and claim: "pg_outbox_claim_pending n lease d = (Ok batch, d1)"
  shows "om_id ` set batch = ow_id ` set (oldest_waiting n d)"
proof -
  let ?ids = "map ow_id (oldest_waiting n d)"
  have "filter (claim_candidate (db_now d) lease) (db_outbox d) =
      filter (\<lambda>r. ow_status r \<in> set [''pending'', ''retrying'']) (db_outbox d)"
    using idle by (intro filter_cong) (auto simp: claim_candidate_def)
  then have sel: "claim_select n lease calm_env d = Ok ?ids"
    using assms(3) by (simp add: claim_select_def limit_rows_def calm_env_def oldest_waiting_def)
  obtain d2 where upd: "outbox_update (\<lambda>r. ow_id r \<in> set ?ids) (\<lambda>r. r\<lparr>ow_status := ''publishing''\<rparr>) d = Ok d2"
    using outbox_update_succeeds [OF assms(1,2), of "\<lambda>r. r\<lparr>ow_status := ''publishing''\<rparr>" "\<lambda>r. ow_id r \<in> set ?ids"]
    by (auto simp: outbox_row_checks)
  have "pg_outbox_claim_pending n lease d =
      (Ok (map outbox_message_of_row (filter (\<lambda>r. ow_id r \<in> set ?ids) (db_outbox d2))), d2)"
    by (simp only: pg_outbox_claim_pending_def outbox_stmt_undisturbed [OF assms(2)] sel sum.case upd map_ok_simps prod.case)
  with claim have batch: "batch = map outbox_message_of_row (filter (\<lambda>r. ow_id r \<in> set ?ids) (db_outbox d2))"
    by (metis (no_types, lifting) prod.inject sum.inject(2))
  have "map ow_id (db_outbox d2) = map ow_id (db_outbox d)"
    using upd by (auto simp: outbox_update_def update_rows_Ok)
  then have "ow_id ` set (db_outbox d2) = ow_id ` set (db_outbox d)" by (metis list.set_map)
  moreover have "set ?ids \<subseteq> ow_id ` set (db_outbox d)" using oldest_waiting_rows by fastforce
  moreover have "om_id ` set batch = set ?ids \<inter> ow_id ` set (db_outbox d2)"
    unfolding batch by (auto simp: outbox_message_of_row_def image_iff) (metis+)
  ultimately show ?thesis by auto
qed

text \<open>A single publisher is served alike by both databases. On an undisturbed database, when no message is being
  published by anybody else and the sink accepts, a round over MySQL and a round over Postgres both
  succeed and leave the same ledger: the oldest waiting messages, as many as the batch size, are
  published and nothing else changed. Marking in chunks, the read-only claim and the missing guard on
  the status make no difference then.\<close>

theorem mysql_round_agrees:
  assumes "pg_outbox_ok d" and "undisturbed d" and "0 \<le> sint n" and "sink_accepts sink"
    and idle: "\<forall>r \<in> set (db_outbox d). ow_status r \<noteq> ''publishing''"
    and to_vec: "\<And>v. is_ok (sd_to_vec sd v)"
    and small: "\<forall>r \<in> set (db_outbox d). sint (ow_retry_count r) < i32_max"
  shows "case (publish_pending sd fl (mysql_outbox_repository ret dflt) sink retry n d k,
               publish_pending sd fl pg_outbox_repository sink retry n d k) of
           ((r1, d1, k1), (r2, d2, k2)) \<Rightarrow>
             r1 = Ok () \<and> r2 = Ok () \<and> pg_ledger d1 = pg_ledger d2 \<and>
             pg_ledger d1 = on_entries (ow_id ` set (oldest_waiting n d)) set_published (pg_ledger d)"
proof -
  let ?ms = "map outbox_message_of_row (oldest_waiting n d)"
  let ?I = "ow_id ` set (oldest_waiting n d)"
  have ids: "map om_id ?ms = map ow_id (oldest_waiting n d)" by (simp add: outbox_message_of_row_def)
  from drain_accepting [OF assms(4), where sd = sd and ms = ?ms and fl = fl and retry = retry and pub = "[]" and s = d and k = k
      and repo = "mysql_outbox_repository ret dflt"] to_vec obtain k1 where
    drain: "drain sd fl (mysql_outbox_repository ret dflt) sink retry ?ms [] d k = (Ok (map om_id ?ms), d, k1)" by auto
  have "distinct (map ow_id (db_outbox d))" using assms(1) by (simp add: pg_outbox_ok_def outbox_unique_def)
  then have "distinct (map ow_id (oldest_waiting n d))" by (rule oldest_waiting_distinct)
  then have dist: "distinct (map om_id ?ms)" unfolding ids .
  from mysql_mark_batch_calm [OF assms(1,2) dist] obtain d1 q where
    mark: "mysql_outbox_mark_published_batch (map om_id ?ms) d = (Ok q, d1)"
    and l1: "pg_ledger d1 = on_entries (set (map om_id ?ms)) set_published (pg_ledger d)" by blast
  have set_ids: "set (map om_id ?ms) = ?I" unfolding ids by simp
  have my: "\<exists>d1' k1'. publish_pending sd fl (mysql_outbox_repository ret dflt) sink retry n d k = (Ok (), d1', k1') \<and>
      pg_ledger d1' = on_entries ?I set_published (pg_ledger d)"
  proof (cases "map om_id ?ms = []")
    case True
    with mysql_claim_calm [OF assms(2,3)] drain set_ids show ?thesis
      by (simp add: publish_pending_def mysql_outbox_repository_def)
  next
    case False
    with mysql_claim_calm [OF assms(2,3)] drain mark l1 set_ids show ?thesis
      by (simp add: publish_pending_def mysql_outbox_repository_def del: list.map_comp map_map)
  qed
  obtain r2 d2 k2 where run: "publish_pending sd fl pg_outbox_repository sink retry n d k = (r2, d2, k2)"
    by (metis prod_cases3)
  have "r2 = Ok () \<and> pg_outbox_ok d2 \<and> undisturbed d2 \<and>
      (\<exists>batch s1. or_claim_pending pg_outbox_repository n claim_lease_secs d = (Ok batch, s1) \<and>
         pg_ledger s1 = on_entries (om_id ` set batch) claimed (pg_ledger d) \<and>
         (pg_ledger d2, k2) = spec_round sd fl sink retry batch (pg_ledger s1) k)"
    by (rule pg.publish_pending_refines [OF assms(1-3) to_vec _ run]) (rule few_retries [OF small])
  then obtain batch s1 where r2: "r2 = Ok ()" and c: "pg_outbox_claim_pending n claim_lease_secs d = (Ok batch, s1)"
    and ls1: "pg_ledger s1 = on_entries (om_id ` set batch) claimed (pg_ledger d)"
    and spec: "(pg_ledger d2, k2) = spec_round sd fl sink retry batch (pg_ledger s1) k" by auto
  have "pg_ledger d2 = on_entries (om_id ` set batch) published_if_claimed (pg_ledger s1)"
    using spec spec_round_accepting [OF assms(4) to_vec] by (metis fst_conv)
  also have "\<dots> = on_entries (om_id ` set batch) set_published (pg_ledger d)"
    unfolding ls1 by (rule claimed_then_published)
  also have "om_id ` set batch = ?I" by (rule pg_claim_calm [OF assms(1-3) idle c])
  finally show ?thesis using my run r2 by auto
qed

theorem mysql_round_agrees_witness:
  "case (publish_pending null_serde exact_floats (mysql_outbox_repository False (\<lambda>_. None)) accepting
           (retry_strategy_new default_retry_config) 10 (sample_db [sample_outbox_row 7 ''pending'' 0]) (),
         publish_pending null_serde exact_floats pg_outbox_repository accepting
           (retry_strategy_new default_retry_config) 10 (sample_db [sample_outbox_row 7 ''pending'' 0]) ()) of
     ((r1, d1, k1), (r2, d2, k2)) \<Rightarrow>
       r1 = Ok () \<and> r2 = Ok () \<and> pg_ledger d1 = pg_ledger d2 \<and>
       map_option en_status (pg_ledger d1 7) = Some Published"
proof -
  let ?d = "sample_db [sample_outbox_row 7 ''pending'' 0]"
  have ok: "pg_outbox_ok ?d" by (simp add: sample_outbox_ok)
  have led: "pg_ledger ?d i = (if i = 7 then Some (entry_of_row (sample_outbox_row 7 ''pending'' 0)) else None)" for i
    by (simp add: pg_ledger_def row_at_def sample_outbox_row_def)
  have small: "\<forall>r \<in> set (db_outbox ?d). sint (ow_retry_count r) < i32_max"
    by (simp add: sample_outbox_row_def i32_max_def)
  have acc: "sink_accepts accepting" by (simp add: sink_accepts_def accepting_def)
  have idle: "\<forall>r \<in> set (db_outbox ?d). ow_status r \<noteq> ''publishing''" by (simp add: sample_outbox_row_def)
  have vec: "is_ok (sd_to_vec null_serde v)" for v by (simp add: null_serde_def)
  have old: "oldest_waiting 10 ?d = [sample_outbox_row 7 ''pending'' 0]"
    by (simp add: oldest_waiting_def sample_outbox_row_def)
  have ids: "ow_id ` set (oldest_waiting 10 ?d) = {7}" unfolding old by (simp add: sample_outbox_row_def)
  have l7: "pg_ledger ?d 7 = Some (entry_of_row (sample_outbox_row 7 ''pending'' 0))" unfolding led by (simp only: refl if_True)
  have "map_option en_status (on_entries {7} set_published l 7) = Some Published" if "l 7 = Some e" for l e
    using that by (simp add: set_published_def)
  from this [of "pg_ledger ?d", OF l7] have "map_option en_status (on_entries (ow_id ` set (oldest_waiting 10 ?d)) set_published (pg_ledger ?d) 7) = Some Published"
    unfolding ids .
  with mysql_round_agrees [where ret = False and d = ?d and n = 10 and sink = accepting and sd = null_serde and fl = exact_floats and
      dflt = "\<lambda>_. None" and retry = "retry_strategy_new default_retry_config" and k = "()", OF ok _ _ acc idle vec small]
  show ?thesis by (auto split: prod.splits simp del: on_entries_apply)
qed

section \<open>The batch transaction\<close>

text \<open>The rows a batch of messages becomes, each with the \<open>message_id\<close> the schema supplies.\<close>

definition batch_rows :: "outbox_message list \<Rightarrow> uuid list \<Rightarrow> outbox_row list" where
  "batch_rows ms vs = map2 (\<lambda>m v. (outbox_row_of_message m)\<lparr>ow_message_id := v\<rparr>) ms vs"

lemma mysql_insert_effect:
  assumes "outbox_stmt (mysql_outbox_insert dflt m) d = (Ok u, d')"
  shows "\<exists>v. db_outbox d' = db_outbox d @ batch_rows [m] [v] \<and> (\<exists>d0. dflt d0 = Some v)"
  using assms
proof (cases rule: outbox_stmt_cases)
  case (effective env d1 a)
  from effective(2) obtain v where v: "dflt d1 = Some v" by (auto simp: mysql_outbox_insert_def split: option.splits)
  with effective(1,2) have "db_outbox d' = db_outbox d @ batch_rows [m] [v]"
    by (auto simp: mysql_outbox_insert_def insert_rows_Ok batch_rows_def)
  with v show ?thesis by blast
qed simp

lemma mysql_insert_each_effect:
  assumes "mysql_insert_each dflt ms d = (Ok u, d')"
  shows "\<exists>vs. length vs = length ms \<and> db_outbox d' = db_outbox d @ batch_rows ms vs \<and>
           (\<forall>v \<in> set vs. \<exists>d0. dflt d0 = Some v)"
  using assms
proof (induction ms arbitrary: d)
  case Nil
  then show ?case by (simp add: batch_rows_def)
next
  case (Cons m ms)
  from Cons.prems obtain w d1 where one: "outbox_stmt (mysql_outbox_insert dflt m) d = (Ok w, d1)"
    and rest: "mysql_insert_each dflt ms d1 = (Ok u, d')"
    by (auto split: prod.splits sum.splits)
  from mysql_insert_effect [OF one] obtain v where v: "db_outbox d1 = db_outbox d @ batch_rows [m] [v]" "\<exists>d0. dflt d0 = Some v"
    by blast
  from Cons.IH [OF rest] obtain vs where vs: "length vs = length ms" "db_outbox d' = db_outbox d1 @ batch_rows ms vs"
    "\<forall>v \<in> set vs. \<exists>d0. dflt d0 = Some v" by blast
  have "length (v # vs) = length (m # ms) \<and> db_outbox d' = db_outbox d @ batch_rows (m # ms) (v # vs) \<and>
      (\<forall>w \<in> set (v # vs). \<exists>d0. dflt d0 = Some w)"
    using v vs by (simp add: batch_rows_def)
  then show ?case by blast
qed

text \<open>A batch written to MySQL is all or nothing, under any failures of the connection: the table is as
  before or holds every message of the batch after the old rows, in order; and an answer of success
  means that it holds them. Under the schema the repository ships, where the database supplies no
  \<open>message_id\<close>, no batch but the empty one succeeds.\<close>

theorem mysql_batch_atomic:
  "case mysql_outbox_create_batch dflt ms d of
     (r, d') \<Rightarrow>
       (db_outbox d' = db_outbox d \<and> (is_ok r \<longrightarrow> ms = []) \<or>
        (\<exists>vs. length vs = length ms \<and> db_outbox d' = db_outbox d @ batch_rows ms vs)) \<and>
       (is_ok r \<and> (\<forall>d0. dflt d0 = None) \<longrightarrow> ms = [])"
proof (cases "ms = []")
  case True
  then show ?thesis by (simp add: mysql_outbox_create_batch_def)
next
  case False
  obtain r1 d1 where begun: "outbox_stmt (\<lambda>env d. Ok ((), d)) d = (r1, d1)" by fastforce
  have tab1: "db_outbox d1 = db_outbox d" using begun by (cases rule: outbox_stmt_cases) auto
  show ?thesis
  proof (cases r1)
    case (Inl e)
    with False begun tab1 show ?thesis by (simp add: mysql_outbox_create_batch_def)
  next
    case (Inr u)
    obtain r2 d2 where each: "mysql_insert_each dflt ms d1 = (r2, d2)" by fastforce
    show ?thesis
    proof (cases r2)
      case (Inl e)
      with False begun Inr each show ?thesis by (simp add: mysql_outbox_create_batch_def)
    next
      case r2: (Inr w)
      from mysql_insert_each_effect [of dflt ms d1 w d2] each r2 tab1 obtain vs where
        vs: "length vs = length ms" "db_outbox d2 = db_outbox d @ batch_rows ms vs" "\<forall>v \<in> set vs. \<exists>d0. dflt d0 = Some v"
        by auto
      obtain r3 d3 where com: "outbox_stmt (\<lambda>env d3. Ok ((), d3\<lparr>db_outbox := db_outbox d2\<rparr>)) (d2\<lparr>db_outbox := db_outbox d\<rparr>) = (r3, d3)"
        by fastforce
      have tab: "db_outbox d3 = db_outbox d2 \<or> db_outbox d3 = db_outbox d \<and> \<not> is_ok r3"
        using com by (cases rule: outbox_stmt_cases) auto
      have "\<exists>d0. dflt d0 \<noteq> None" using vs(1,3) False by (cases vs) auto
      with False begun Inr each r2 com tab vs(1,2) show ?thesis by (auto simp: mysql_outbox_create_batch_def)
    qed
  qed
qed

theorem mysql_batch_atomic_witness:
  "case mysql_outbox_create_batch (\<lambda>_. None) [outbox_message_of_row (sample_outbox_row 7 ''pending'' 0)] (sample_db []) of
     (r, d') \<Rightarrow> \<not> is_ok r \<and> length (db_outbox d') \<le> 1"
  using mysql_batch_atomic [where ms = "[outbox_message_of_row (sample_outbox_row 7 ''pending'' 0)]" and d = "sample_db []" and dflt = "\<lambda>_. None"]
  by (auto simp: batch_rows_def)

end
