(* ===== verification/Wire_Rpc.thy ===== *)
theory Wire_Rpc
  imports Grpc
begin

text \<open>
  The generated gRPC code of \<open>crates/rs-broker-proto/src/rsbroker.rs\<close>: the trait \<open>RsBroker\<close> with its two
  implementations (\<open>rs-broker-server/src/grpc/service.rs\<close>, with and without a database), the server
  that routes a request to a method of the trait and the client's stubs. What runs a method on the wire
  (\<open>tonic::server::Grpc\<close> with its codec) and what a stub calls (\<open>tonic::client::Grpc\<close>) are tonic's:
  records of parameters, one field for each type they are used at. The section on the wire composes
  a client, a server and the service.
\<close>

section \<open>The trait\<close>

type_synonym ('q, 'r, 't) rpc_method = "'q \<Rightarrow> 't \<Rightarrow> (grpc_status + 'r) \<times> 't"

text \<open>A stream is the list of its items. Both streaming methods yield items that are all \<open>Ok\<close>.\<close>

record 't rs_broker =
  rb_publish :: "(pb_publish_request, pb_publish_response, 't) rpc_method"
  rb_publish_batch :: "(pb_publish_batch_request, pb_publish_batch_response, 't) rpc_method"
  rb_get_message_status :: "(pb_get_message_status_request, pb_get_message_status_response, 't) rpc_method"
  rb_cancel_message :: "(pb_cancel_message_request, pb_cancel_message_response, 't) rpc_method"
  rb_register_subscriber :: "(pb_register_subscriber_request, pb_register_subscriber_response, 't) rpc_method"
  rb_unregister_subscriber :: "(pb_unregister_subscriber_request, pb_unregister_subscriber_response, 't) rpc_method"
  rb_update_subscriber :: "(pb_update_subscriber_request, pb_update_subscriber_response, 't) rpc_method"
  rb_list_subscribers :: "(pb_list_subscribers_request, pb_list_subscribers_response, 't) rpc_method"
  rb_subscribe_events :: "(pb_subscribe_events_request, pb_deliver_event list, 't) rpc_method"
  rb_stream_publish :: "((grpc_status + pb_publish_request) list, pb_publish_response list, 't) rpc_method"
  rb_get_health :: "(pb_health_request, pb_health_response, 't) rpc_method"
  rb_reprocess_dlq :: "(pb_reprocess_dlq_request, pb_reprocess_dlq_response, 't) rpc_method"
  rb_list_dlq_messages :: "(pb_list_dlq_messages_request, pb_list_dlq_messages_response, 't) rpc_method"

text \<open>The service with a database.\<close>

definition rs_broker_impl ::
  "uuid_lib \<Rightarrow> serde \<Rightarrow> (grpc_status \<Rightarrow> string) \<Rightarrow> 's rs_broker_service \<Rightarrow> (runtime \<times> 's) rs_broker" where
  "rs_broker_impl ul sd show_status svc =
     \<lparr>rb_publish = (\<lambda>request (rt, s). publish_inner ul sd svc request rt s),
      rb_publish_batch = (\<lambda>request (rt, s). publish_batch_inner ul sd svc request rt s),
      rb_get_message_status = (\<lambda>request (rt, s). apsnd (Pair rt) (get_message_status_inner ul svc request s)),
      rb_cancel_message = (\<lambda>request (rt, s). apsnd (Pair rt) (cancel_message_inner ul svc request s)),
      rb_register_subscriber = (\<lambda>request (rt, s). register_subscriber_inner ul svc request rt s),
      rb_unregister_subscriber = (\<lambda>request (rt, s). apsnd (Pair rt) (unregister_subscriber_inner ul svc request s)),
      rb_update_subscriber = (\<lambda>request (rt, s). apsnd (Pair rt) (update_subscriber_inner ul svc request s)),
      rb_list_subscribers = (\<lambda>request (rt, s). apsnd (Pair rt) (list_subscribers_inner ul svc request s)),
      rb_subscribe_events = (\<lambda>request t. (subscribe_events svc request, t)),
      rb_stream_publish = (\<lambda>incoming (rt, s). apfst Ok (stream_publish show_status ul sd svc incoming rt s)),
      rb_get_health = (\<lambda>request (rt, s). apsnd (Pair rt) (get_health_inner svc request s)),
      rb_reprocess_dlq = (\<lambda>request (rt, s). reprocess_dlq_inner ul svc request rt s),
      rb_list_dlq_messages = (\<lambda>request (rt, s). apsnd (Pair rt) (list_dlq_messages_inner ul svc request s))\<rparr>"

text \<open>The service without one. \<open>subscribe_events\<close> never reaches its \<open>unreachable!\<close>: the inner call always fails.\<close>

definition stub_broker_impl :: "stub_service \<Rightarrow> 't rs_broker" where
  "stub_broker_impl svc =
     \<lparr>rb_publish = (\<lambda>request t. (stub_unimplemented, t)),
      rb_publish_batch = (\<lambda>request t. (stub_unimplemented, t)),
      rb_get_message_status = (\<lambda>request t. (stub_unimplemented, t)),
      rb_cancel_message = (\<lambda>request t. (stub_unimplemented, t)),
      rb_register_subscriber = (\<lambda>request t. (stub_unimplemented, t)),
      rb_unregister_subscriber = (\<lambda>request t. (stub_unimplemented, t)),
      rb_update_subscriber = (\<lambda>request t. (stub_unimplemented, t)),
      rb_list_subscribers = (\<lambda>request t. (stub_unimplemented, t)),
      rb_subscribe_events = (\<lambda>request t. (stub_subscribe_events svc request, t)),
      rb_stream_publish = (\<lambda>incoming t. (stub_stream_publish svc incoming, t)),
      rb_get_health = (\<lambda>request t. (stub_get_health_inner svc request, t)),
      rb_reprocess_dlq = (\<lambda>request t. (stub_unimplemented, t)),
      rb_list_dlq_messages = (\<lambda>request t. (stub_unimplemented, t))\<rparr>"

section \<open>The server\<close>

record 'w http_request =
  rq_path :: string
  rq_body :: 'w

record 'w http_response =
  hp_status :: nat
  hp_headers :: "(string \<times> string) list"
  hp_body :: "'w option"      \<comment> \<open>\<open>None\<close>: the empty body\<close>

text \<open>The server holds an implementation \<open>'i\<close>, sets \<open>'e\<close> of compression encodings (tonic's, empty at first) and
  two limits; \<open>call_config\<close> is what a call applies to \<open>tonic::server::Grpc\<close>.\<close>

record 'e encodings_lib =
  en_default :: 'e
  en_enable :: "string \<Rightarrow> 'e \<Rightarrow> 'e"

record 'e call_config =
  gc_accept_compression_encodings :: 'e
  gc_send_compression_encodings :: 'e
  gc_max_decoding_message_size :: "u64 option"
  gc_max_encoding_message_size :: "u64 option"

record ('i, 'e) rs_broker_server =
  sv_inner :: 'i
  sv_accept_compression_encodings :: 'e
  sv_send_compression_encodings :: 'e
  sv_max_decoding_message_size :: "u64 option"
  sv_max_encoding_message_size :: "u64 option"

definition rs_broker_server_from_arc :: "'e encodings_lib \<Rightarrow> 'i \<Rightarrow> ('i, 'e) rs_broker_server" where
  "rs_broker_server_from_arc el inner =
     \<lparr>sv_inner = inner, sv_accept_compression_encodings = en_default el, sv_send_compression_encodings = en_default el,
      sv_max_decoding_message_size = None, sv_max_encoding_message_size = None\<rparr>"

definition rs_broker_server_new :: "'e encodings_lib \<Rightarrow> 'i \<Rightarrow> ('i, 'e) rs_broker_server" where
  "rs_broker_server_new el inner = rs_broker_server_from_arc el inner"

definition accept_compressed ::
  "'e encodings_lib \<Rightarrow> string \<Rightarrow> ('i, 'e) rs_broker_server \<Rightarrow> ('i, 'e) rs_broker_server" where
  "accept_compressed el encoding srv =
     srv\<lparr>sv_accept_compression_encodings := en_enable el encoding (sv_accept_compression_encodings srv)\<rparr>"

definition send_compressed ::
  "'e encodings_lib \<Rightarrow> string \<Rightarrow> ('i, 'e) rs_broker_server \<Rightarrow> ('i, 'e) rs_broker_server" where
  "send_compressed el encoding srv =
     srv\<lparr>sv_send_compression_encodings := en_enable el encoding (sv_send_compression_encodings srv)\<rparr>"

definition max_decoding_message_size :: "u64 \<Rightarrow> ('i, 'e) rs_broker_server \<Rightarrow> ('i, 'e) rs_broker_server" where
  "max_decoding_message_size limit srv = srv\<lparr>sv_max_decoding_message_size := Some limit\<rparr>"

definition max_encoding_message_size :: "u64 \<Rightarrow> ('i, 'e) rs_broker_server \<Rightarrow> ('i, 'e) rs_broker_server" where
  "max_encoding_message_size limit srv = srv\<lparr>sv_max_encoding_message_size := Some limit\<rparr>"

definition call_config :: "('i, 'e) rs_broker_server \<Rightarrow> 'e call_config" where
  "call_config srv =
     \<lparr>gc_accept_compression_encodings = sv_accept_compression_encodings srv,
      gc_send_compression_encodings = sv_send_compression_encodings srv,
      gc_max_decoding_message_size = sv_max_decoding_message_size srv,
      gc_max_encoding_message_size = sv_max_encoding_message_size srv\<rparr>"

text \<open>\<open>tonic::server::Grpc\<close> runs a method on a request: \<open>unary\<close>, but \<open>server_streaming\<close> for \<open>ts_subscribe_events\<close> and
  \<open>streaming\<close> for \<open>ts_stream_publish\<close>.\<close>

type_synonym ('q, 'r, 'e, 'w, 't) grpc_runner =
  "'e call_config \<Rightarrow> ('q, 'r, 't) rpc_method \<Rightarrow> 'w http_request \<Rightarrow> 't \<Rightarrow> 'w http_response \<times> 't"

record ('e, 'w, 't) tonic_server =
  ts_publish :: "(pb_publish_request, pb_publish_response, 'e, 'w, 't) grpc_runner"
  ts_publish_batch :: "(pb_publish_batch_request, pb_publish_batch_response, 'e, 'w, 't) grpc_runner"
  ts_get_message_status :: "(pb_get_message_status_request, pb_get_message_status_response, 'e, 'w, 't) grpc_runner"
  ts_cancel_message :: "(pb_cancel_message_request, pb_cancel_message_response, 'e, 'w, 't) grpc_runner"
  ts_register_subscriber :: "(pb_register_subscriber_request, pb_register_subscriber_response, 'e, 'w, 't) grpc_runner"
  ts_unregister_subscriber :: "(pb_unregister_subscriber_request, pb_unregister_subscriber_response, 'e, 'w, 't) grpc_runner"
  ts_update_subscriber :: "(pb_update_subscriber_request, pb_update_subscriber_response, 'e, 'w, 't) grpc_runner"
  ts_list_subscribers :: "(pb_list_subscribers_request, pb_list_subscribers_response, 'e, 'w, 't) grpc_runner"
  ts_subscribe_events :: "(pb_subscribe_events_request, pb_deliver_event list, 'e, 'w, 't) grpc_runner"
  ts_stream_publish :: "((grpc_status + pb_publish_request) list, pb_publish_response list, 'e, 'w, 't) grpc_runner"
  ts_get_health :: "(pb_health_request, pb_health_response, 'e, 'w, 't) grpc_runner"
  ts_reprocess_dlq :: "(pb_reprocess_dlq_request, pb_reprocess_dlq_response, 'e, 'w, 't) grpc_runner"
  ts_list_dlq_messages :: "(pb_list_dlq_messages_request, pb_list_dlq_messages_response, 'e, 'w, 't) grpc_runner"

text \<open>One arm per method: the wrapper around the trait's method, run under the server's configuration.\<close>

definition serve_publish ::
  "('e, 'w, 't) tonic_server \<Rightarrow> ('t rs_broker, 'e) rs_broker_server \<Rightarrow> 'w http_request \<Rightarrow> 't \<Rightarrow> 'w http_response \<times> 't" where
  "serve_publish ts srv = ts_publish ts (call_config srv) (rb_publish (sv_inner srv))"

definition serve_publish_batch ::
  "('e, 'w, 't) tonic_server \<Rightarrow> ('t rs_broker, 'e) rs_broker_server \<Rightarrow> 'w http_request \<Rightarrow> 't \<Rightarrow> 'w http_response \<times> 't" where
  "serve_publish_batch ts srv = ts_publish_batch ts (call_config srv) (rb_publish_batch (sv_inner srv))"

definition serve_get_message_status ::
  "('e, 'w, 't) tonic_server \<Rightarrow> ('t rs_broker, 'e) rs_broker_server \<Rightarrow> 'w http_request \<Rightarrow> 't \<Rightarrow> 'w http_response \<times> 't" where
  "serve_get_message_status ts srv = ts_get_message_status ts (call_config srv) (rb_get_message_status (sv_inner srv))"

definition serve_cancel_message ::
  "('e, 'w, 't) tonic_server \<Rightarrow> ('t rs_broker, 'e) rs_broker_server \<Rightarrow> 'w http_request \<Rightarrow> 't \<Rightarrow> 'w http_response \<times> 't" where
  "serve_cancel_message ts srv = ts_cancel_message ts (call_config srv) (rb_cancel_message (sv_inner srv))"

definition serve_register_subscriber ::
  "('e, 'w, 't) tonic_server \<Rightarrow> ('t rs_broker, 'e) rs_broker_server \<Rightarrow> 'w http_request \<Rightarrow> 't \<Rightarrow> 'w http_response \<times> 't" where
  "serve_register_subscriber ts srv = ts_register_subscriber ts (call_config srv) (rb_register_subscriber (sv_inner srv))"

definition serve_unregister_subscriber ::
  "('e, 'w, 't) tonic_server \<Rightarrow> ('t rs_broker, 'e) rs_broker_server \<Rightarrow> 'w http_request \<Rightarrow> 't \<Rightarrow> 'w http_response \<times> 't" where
  "serve_unregister_subscriber ts srv = ts_unregister_subscriber ts (call_config srv) (rb_unregister_subscriber (sv_inner srv))"

definition serve_update_subscriber ::
  "('e, 'w, 't) tonic_server \<Rightarrow> ('t rs_broker, 'e) rs_broker_server \<Rightarrow> 'w http_request \<Rightarrow> 't \<Rightarrow> 'w http_response \<times> 't" where
  "serve_update_subscriber ts srv = ts_update_subscriber ts (call_config srv) (rb_update_subscriber (sv_inner srv))"

definition serve_list_subscribers ::
  "('e, 'w, 't) tonic_server \<Rightarrow> ('t rs_broker, 'e) rs_broker_server \<Rightarrow> 'w http_request \<Rightarrow> 't \<Rightarrow> 'w http_response \<times> 't" where
  "serve_list_subscribers ts srv = ts_list_subscribers ts (call_config srv) (rb_list_subscribers (sv_inner srv))"

definition serve_subscribe_events ::
  "('e, 'w, 't) tonic_server \<Rightarrow> ('t rs_broker, 'e) rs_broker_server \<Rightarrow> 'w http_request \<Rightarrow> 't \<Rightarrow> 'w http_response \<times> 't" where
  "serve_subscribe_events ts srv = ts_subscribe_events ts (call_config srv) (rb_subscribe_events (sv_inner srv))"

definition serve_stream_publish ::
  "('e, 'w, 't) tonic_server \<Rightarrow> ('t rs_broker, 'e) rs_broker_server \<Rightarrow> 'w http_request \<Rightarrow> 't \<Rightarrow> 'w http_response \<times> 't" where
  "serve_stream_publish ts srv = ts_stream_publish ts (call_config srv) (rb_stream_publish (sv_inner srv))"

definition serve_get_health ::
  "('e, 'w, 't) tonic_server \<Rightarrow> ('t rs_broker, 'e) rs_broker_server \<Rightarrow> 'w http_request \<Rightarrow> 't \<Rightarrow> 'w http_response \<times> 't" where
  "serve_get_health ts srv = ts_get_health ts (call_config srv) (rb_get_health (sv_inner srv))"

definition serve_reprocess_dlq ::
  "('e, 'w, 't) tonic_server \<Rightarrow> ('t rs_broker, 'e) rs_broker_server \<Rightarrow> 'w http_request \<Rightarrow> 't \<Rightarrow> 'w http_response \<times> 't" where
  "serve_reprocess_dlq ts srv = ts_reprocess_dlq ts (call_config srv) (rb_reprocess_dlq (sv_inner srv))"

definition serve_list_dlq_messages ::
  "('e, 'w, 't) tonic_server \<Rightarrow> ('t rs_broker, 'e) rs_broker_server \<Rightarrow> 'w http_request \<Rightarrow> 't \<Rightarrow> 'w http_response \<times> 't" where
  "serve_list_dlq_messages ts srv = ts_list_dlq_messages ts (call_config srv) (rb_list_dlq_messages (sv_inner srv))"

definition unimplemented_response :: "'w http_response" where
  "unimplemented_response =
     \<lparr>hp_status = 200, hp_headers = [(''grpc-status'', ''12''), (''content-type'', ''application/grpc'')], hp_body = None\<rparr>"

definition rs_broker_serve ::
  "('e, 'w, 't) tonic_server \<Rightarrow> ('t rs_broker, 'e) rs_broker_server \<Rightarrow> 'w http_request \<Rightarrow> 't \<Rightarrow> 'w http_response \<times> 't" where
  "rs_broker_serve ts srv req t =
     (if rq_path req = ''/rsbroker.RsBroker/Publish'' then serve_publish ts srv req t
      else if rq_path req = ''/rsbroker.RsBroker/PublishBatch'' then serve_publish_batch ts srv req t
      else if rq_path req = ''/rsbroker.RsBroker/GetMessageStatus'' then serve_get_message_status ts srv req t
      else if rq_path req = ''/rsbroker.RsBroker/CancelMessage'' then serve_cancel_message ts srv req t
      else if rq_path req = ''/rsbroker.RsBroker/RegisterSubscriber'' then serve_register_subscriber ts srv req t
      else if rq_path req = ''/rsbroker.RsBroker/UnregisterSubscriber'' then serve_unregister_subscriber ts srv req t
      else if rq_path req = ''/rsbroker.RsBroker/UpdateSubscriber'' then serve_update_subscriber ts srv req t
      else if rq_path req = ''/rsbroker.RsBroker/ListSubscribers'' then serve_list_subscribers ts srv req t
      else if rq_path req = ''/rsbroker.RsBroker/SubscribeEvents'' then serve_subscribe_events ts srv req t
      else if rq_path req = ''/rsbroker.RsBroker/StreamPublish'' then serve_stream_publish ts srv req t
      else if rq_path req = ''/rsbroker.RsBroker/GetHealth'' then serve_get_health ts srv req t
      else if rq_path req = ''/rsbroker.RsBroker/ReprocessDlq'' then serve_reprocess_dlq ts srv req t
      else if rq_path req = ''/rsbroker.RsBroker/ListDlqMessages'' then serve_list_dlq_messages ts srv req t
      else (unimplemented_response, t))"

section \<open>The client\<close>

text \<open>\<open>tonic::client::Grpc\<close>: whether the channel is ready, or why not, and the call with its path, the method recorded in
  the request's extensions and the message; \<open>server_streaming\<close> and \<open>streaming\<close> for the two fields as above.
  A client streams plain requests.\<close>

type_synonym ('q, 'r, 't) grpc_caller = "string \<Rightarrow> string \<times> string \<Rightarrow> ('q, 'r, 't) rpc_method"

record 't tonic_client =
  tc_ready :: "'t \<Rightarrow> (string + unit) \<times> 't"
  tc_publish :: "(pb_publish_request, pb_publish_response, 't) grpc_caller"
  tc_publish_batch :: "(pb_publish_batch_request, pb_publish_batch_response, 't) grpc_caller"
  tc_get_message_status :: "(pb_get_message_status_request, pb_get_message_status_response, 't) grpc_caller"
  tc_cancel_message :: "(pb_cancel_message_request, pb_cancel_message_response, 't) grpc_caller"
  tc_register_subscriber :: "(pb_register_subscriber_request, pb_register_subscriber_response, 't) grpc_caller"
  tc_unregister_subscriber :: "(pb_unregister_subscriber_request, pb_unregister_subscriber_response, 't) grpc_caller"
  tc_update_subscriber :: "(pb_update_subscriber_request, pb_update_subscriber_response, 't) grpc_caller"
  tc_list_subscribers :: "(pb_list_subscribers_request, pb_list_subscribers_response, 't) grpc_caller"
  tc_subscribe_events :: "(pb_subscribe_events_request, pb_deliver_event list, 't) grpc_caller"
  tc_stream_publish :: "(pb_publish_request list, pb_publish_response list, 't) grpc_caller"
  tc_get_health :: "(pb_health_request, pb_health_response, 't) grpc_caller"
  tc_reprocess_dlq :: "(pb_reprocess_dlq_request, pb_reprocess_dlq_response, 't) grpc_caller"
  tc_list_dlq_messages :: "(pb_list_dlq_messages_request, pb_list_dlq_messages_response, 't) grpc_caller"

definition not_ready :: "string \<Rightarrow> grpc_status" where
  "not_ready e = \<lparr>gs_code = Unknown, gs_message = ''Service was not ready: '' @ e\<rparr>"

definition when_ready :: "'t tonic_client \<Rightarrow> ('t \<Rightarrow> (grpc_status + 'r) \<times> 't) \<Rightarrow> 't \<Rightarrow> (grpc_status + 'r) \<times> 't" where
  "when_ready tc call t = (case tc_ready tc t of (Err e, t1) \<Rightarrow> (Err (not_ready e), t1) | (Ok _, t1) \<Rightarrow> call t1)"

definition client_publish :: "'t tonic_client \<Rightarrow> (pb_publish_request, pb_publish_response, 't) rpc_method" where
  "client_publish tc request =
     when_ready tc (tc_publish tc ''/rsbroker.RsBroker/Publish'' (''rsbroker.RsBroker'', ''Publish'') request)"

definition client_publish_batch :: "'t tonic_client \<Rightarrow> (pb_publish_batch_request, pb_publish_batch_response, 't) rpc_method" where
  "client_publish_batch tc request =
     when_ready tc (tc_publish_batch tc ''/rsbroker.RsBroker/PublishBatch'' (''rsbroker.RsBroker'', ''PublishBatch'') request)"

definition client_get_message_status :: "'t tonic_client \<Rightarrow> (pb_get_message_status_request, pb_get_message_status_response, 't) rpc_method" where
  "client_get_message_status tc request =
     when_ready tc (tc_get_message_status tc ''/rsbroker.RsBroker/GetMessageStatus'' (''rsbroker.RsBroker'', ''GetMessageStatus'') request)"

definition client_cancel_message :: "'t tonic_client \<Rightarrow> (pb_cancel_message_request, pb_cancel_message_response, 't) rpc_method" where
  "client_cancel_message tc request =
     when_ready tc (tc_cancel_message tc ''/rsbroker.RsBroker/CancelMessage'' (''rsbroker.RsBroker'', ''CancelMessage'') request)"

definition client_register_subscriber :: "'t tonic_client \<Rightarrow> (pb_register_subscriber_request, pb_register_subscriber_response, 't) rpc_method" where
  "client_register_subscriber tc request =
     when_ready tc (tc_register_subscriber tc ''/rsbroker.RsBroker/RegisterSubscriber'' (''rsbroker.RsBroker'', ''RegisterSubscriber'') request)"

definition client_unregister_subscriber :: "'t tonic_client \<Rightarrow> (pb_unregister_subscriber_request, pb_unregister_subscriber_response, 't) rpc_method" where
  "client_unregister_subscriber tc request =
     when_ready tc (tc_unregister_subscriber tc ''/rsbroker.RsBroker/UnregisterSubscriber'' (''rsbroker.RsBroker'', ''UnregisterSubscriber'') request)"

definition client_update_subscriber :: "'t tonic_client \<Rightarrow> (pb_update_subscriber_request, pb_update_subscriber_response, 't) rpc_method" where
  "client_update_subscriber tc request =
     when_ready tc (tc_update_subscriber tc ''/rsbroker.RsBroker/UpdateSubscriber'' (''rsbroker.RsBroker'', ''UpdateSubscriber'') request)"

definition client_list_subscribers :: "'t tonic_client \<Rightarrow> (pb_list_subscribers_request, pb_list_subscribers_response, 't) rpc_method" where
  "client_list_subscribers tc request =
     when_ready tc (tc_list_subscribers tc ''/rsbroker.RsBroker/ListSubscribers'' (''rsbroker.RsBroker'', ''ListSubscribers'') request)"

definition client_subscribe_events :: "'t tonic_client \<Rightarrow> (pb_subscribe_events_request, pb_deliver_event list, 't) rpc_method" where
  "client_subscribe_events tc request =
     when_ready tc (tc_subscribe_events tc ''/rsbroker.RsBroker/SubscribeEvents'' (''rsbroker.RsBroker'', ''SubscribeEvents'') request)"

definition client_stream_publish :: "'t tonic_client \<Rightarrow> (pb_publish_request list, pb_publish_response list, 't) rpc_method" where
  "client_stream_publish tc request =
     when_ready tc (tc_stream_publish tc ''/rsbroker.RsBroker/StreamPublish'' (''rsbroker.RsBroker'', ''StreamPublish'') request)"

definition client_get_health :: "'t tonic_client \<Rightarrow> (pb_health_request, pb_health_response, 't) rpc_method" where
  "client_get_health tc request =
     when_ready tc (tc_get_health tc ''/rsbroker.RsBroker/GetHealth'' (''rsbroker.RsBroker'', ''GetHealth'') request)"

definition client_reprocess_dlq :: "'t tonic_client \<Rightarrow> (pb_reprocess_dlq_request, pb_reprocess_dlq_response, 't) rpc_method" where
  "client_reprocess_dlq tc request =
     when_ready tc (tc_reprocess_dlq tc ''/rsbroker.RsBroker/ReprocessDlq'' (''rsbroker.RsBroker'', ''ReprocessDlq'') request)"

definition client_list_dlq_messages :: "'t tonic_client \<Rightarrow> (pb_list_dlq_messages_request, pb_list_dlq_messages_response, 't) rpc_method" where
  "client_list_dlq_messages tc request =
     when_ready tc (tc_list_dlq_messages tc ''/rsbroker.RsBroker/ListDlqMessages'' (''rsbroker.RsBroker'', ''ListDlqMessages'') request)"

section \<open>The callback service\<close>

text \<open>The second service of the file, which subscribers implement and the broker calls.\<close>

record 't rs_broker_callback =
  cb_deliver :: "(pb_deliver_request, pb_deliver_response, 't) rpc_method"

definition rs_broker_callback_server_new :: "'e encodings_lib \<Rightarrow> 'i \<Rightarrow> ('i, 'e) rs_broker_server" where
  "rs_broker_callback_server_new el inner =
     \<lparr>sv_inner = inner, sv_accept_compression_encodings = en_default el, sv_send_compression_encodings = en_default el,
      sv_max_decoding_message_size = None, sv_max_encoding_message_size = None\<rparr>"

definition rs_broker_callback_serve ::
  "(pb_deliver_request, pb_deliver_response, 'e, 'w, 't) grpc_runner \<Rightarrow> ('t rs_broker_callback, 'e) rs_broker_server
     \<Rightarrow> 'w http_request \<Rightarrow> 't \<Rightarrow> 'w http_response \<times> 't" where
  "rs_broker_callback_serve run srv req t =
     (if rq_path req = ''/rsbroker.RsBrokerCallback/Deliver''
      then run (call_config srv) (cb_deliver (sv_inner srv)) req t
      else (unimplemented_response, t))"

definition client_deliver ::
  "'t tonic_client \<Rightarrow> (pb_deliver_request, pb_deliver_response, 't) grpc_caller
     \<Rightarrow> (pb_deliver_request, pb_deliver_response, 't) rpc_method" where
  "client_deliver tc call request =
     when_ready tc (call ''/rsbroker.RsBrokerCallback/Deliver'' (''rsbroker.RsBrokerCallback'', ''Deliver'') request)"

section \<open>On the wire\<close>

text \<open>What it means that tonic carries one call: the server gets a request with the client's path, and what running
  the method \<open>f\<close> on it answers is read back by the client as that method's result on the message sent (\<open>g\<close>: as
  the server sees it). It depends on the message, on the reply and on the configuration of the server: a message
  or a reply beyond a size limit (4 MB for decoding unless configured) or in a compression that is not accepted
  is not carried, and neither is a call over a connection that breaks.\<close>

definition carries ::
  "'e call_config \<Rightarrow> ('q, 'r, 't) rpc_method \<Rightarrow> 'a \<Rightarrow> 't \<Rightarrow> ('w http_request \<Rightarrow> 't \<Rightarrow> 'w http_response \<times> 't)
     \<Rightarrow> ('a \<Rightarrow> 'q) \<Rightarrow> ('a, 'r, 't) grpc_caller \<Rightarrow> ('q, 'r, 'e, 'w, 't) grpc_runner \<Rightarrow> bool" where
  "carries cfg f q t serve g call run \<longleftrightarrow>
     (\<forall>path m. \<exists>rq read. rq_path rq = path \<and> call path m q t = apfst read (serve rq t) \<and>
        apfst read (run cfg f rq t) = f (g q) t)"

lemma carriesD:
  assumes "carries cfg f q t serve g call run" and "\<And>rq t. rq_path rq = path \<Longrightarrow> serve rq t = run cfg f rq t"
  shows "call path m q t = f (g q) t"
  using assms unfolding carries_def by metis

lemma when_ready_cong:
  "call (snd (tc_ready tc t)) = call' (snd (tc_ready tc t)) \<Longrightarrow> when_ready tc call t = when_ready tc call' t"
  by (auto simp: when_ready_def split: sum.split prod.split)

text \<open>The client's stub and the trait's method for a request.\<close>

fun client_request :: "'t tonic_client \<Rightarrow> grpc_request \<Rightarrow> 't \<Rightarrow> (grpc_status + grpc_reply) \<times> 't" where
  "client_request tc (Req_Publish q) t = apfst (map_ok Rep_Publish) (client_publish tc q t)"
| "client_request tc (Req_Publish_Batch q) t = apfst (map_ok Rep_Publish_Batch) (client_publish_batch tc q t)"
| "client_request tc (Req_Get_Message_Status q) t = apfst (map_ok Rep_Get_Message_Status) (client_get_message_status tc q t)"
| "client_request tc (Req_Cancel_Message q) t = apfst (map_ok Rep_Cancel_Message) (client_cancel_message tc q t)"
| "client_request tc (Req_Register_Subscriber q) t = apfst (map_ok Rep_Register_Subscriber) (client_register_subscriber tc q t)"
| "client_request tc (Req_Unregister_Subscriber q) t = apfst (map_ok Rep_Unregister_Subscriber) (client_unregister_subscriber tc q t)"
| "client_request tc (Req_Update_Subscriber q) t = apfst (map_ok Rep_Update_Subscriber) (client_update_subscriber tc q t)"
| "client_request tc (Req_List_Subscribers q) t = apfst (map_ok Rep_List_Subscribers) (client_list_subscribers tc q t)"
| "client_request tc (Req_Get_Health q) t = apfst (map_ok Rep_Get_Health) (client_get_health tc q t)"
| "client_request tc (Req_Reprocess_Dlq q) t = apfst (map_ok Rep_Reprocess_Dlq) (client_reprocess_dlq tc q t)"
| "client_request tc (Req_List_Dlq_Messages q) t = apfst (map_ok Rep_List_Dlq_Messages) (client_list_dlq_messages tc q t)"

fun trait_request :: "'t rs_broker \<Rightarrow> grpc_request \<Rightarrow> 't \<Rightarrow> (grpc_status + grpc_reply) \<times> 't" where
  "trait_request rb (Req_Publish q) t = apfst (map_ok Rep_Publish) (rb_publish rb q t)"
| "trait_request rb (Req_Publish_Batch q) t = apfst (map_ok Rep_Publish_Batch) (rb_publish_batch rb q t)"
| "trait_request rb (Req_Get_Message_Status q) t = apfst (map_ok Rep_Get_Message_Status) (rb_get_message_status rb q t)"
| "trait_request rb (Req_Cancel_Message q) t = apfst (map_ok Rep_Cancel_Message) (rb_cancel_message rb q t)"
| "trait_request rb (Req_Register_Subscriber q) t = apfst (map_ok Rep_Register_Subscriber) (rb_register_subscriber rb q t)"
| "trait_request rb (Req_Unregister_Subscriber q) t = apfst (map_ok Rep_Unregister_Subscriber) (rb_unregister_subscriber rb q t)"
| "trait_request rb (Req_Update_Subscriber q) t = apfst (map_ok Rep_Update_Subscriber) (rb_update_subscriber rb q t)"
| "trait_request rb (Req_List_Subscribers q) t = apfst (map_ok Rep_List_Subscribers) (rb_list_subscribers rb q t)"
| "trait_request rb (Req_Get_Health q) t = apfst (map_ok Rep_Get_Health) (rb_get_health rb q t)"
| "trait_request rb (Req_Reprocess_Dlq q) t = apfst (map_ok Rep_Reprocess_Dlq) (rb_reprocess_dlq rb q t)"
| "trait_request rb (Req_List_Dlq_Messages q) t = apfst (map_ok Rep_List_Dlq_Messages) (rb_list_dlq_messages rb q t)"

fun carries_request ::
  "'t tonic_client \<Rightarrow> ('e, 'w, 't) tonic_server \<Rightarrow> ('t rs_broker, 'e) rs_broker_server \<Rightarrow> grpc_request \<Rightarrow> 't \<Rightarrow> bool" where
  "carries_request tc ts srv (Req_Publish q) t =
     carries (call_config srv) (rb_publish (sv_inner srv)) q t (rs_broker_serve ts srv) id (tc_publish tc) (ts_publish ts)"
| "carries_request tc ts srv (Req_Publish_Batch q) t =
     carries (call_config srv) (rb_publish_batch (sv_inner srv)) q t (rs_broker_serve ts srv) id (tc_publish_batch tc) (ts_publish_batch ts)"
| "carries_request tc ts srv (Req_Get_Message_Status q) t =
     carries (call_config srv) (rb_get_message_status (sv_inner srv)) q t (rs_broker_serve ts srv) id (tc_get_message_status tc) (ts_get_message_status ts)"
| "carries_request tc ts srv (Req_Cancel_Message q) t =
     carries (call_config srv) (rb_cancel_message (sv_inner srv)) q t (rs_broker_serve ts srv) id (tc_cancel_message tc) (ts_cancel_message ts)"
| "carries_request tc ts srv (Req_Register_Subscriber q) t =
     carries (call_config srv) (rb_register_subscriber (sv_inner srv)) q t (rs_broker_serve ts srv) id (tc_register_subscriber tc) (ts_register_subscriber ts)"
| "carries_request tc ts srv (Req_Unregister_Subscriber q) t =
     carries (call_config srv) (rb_unregister_subscriber (sv_inner srv)) q t (rs_broker_serve ts srv) id (tc_unregister_subscriber tc) (ts_unregister_subscriber ts)"
| "carries_request tc ts srv (Req_Update_Subscriber q) t =
     carries (call_config srv) (rb_update_subscriber (sv_inner srv)) q t (rs_broker_serve ts srv) id (tc_update_subscriber tc) (ts_update_subscriber ts)"
| "carries_request tc ts srv (Req_List_Subscribers q) t =
     carries (call_config srv) (rb_list_subscribers (sv_inner srv)) q t (rs_broker_serve ts srv) id (tc_list_subscribers tc) (ts_list_subscribers ts)"
| "carries_request tc ts srv (Req_Get_Health q) t =
     carries (call_config srv) (rb_get_health (sv_inner srv)) q t (rs_broker_serve ts srv) id (tc_get_health tc) (ts_get_health ts)"
| "carries_request tc ts srv (Req_Reprocess_Dlq q) t =
     carries (call_config srv) (rb_reprocess_dlq (sv_inner srv)) q t (rs_broker_serve ts srv) id (tc_reprocess_dlq tc) (ts_reprocess_dlq ts)"
| "carries_request tc ts srv (Req_List_Dlq_Messages q) t =
     carries (call_config srv) (rb_list_dlq_messages (sv_inner srv)) q t (rs_broker_serve ts srv) id (tc_list_dlq_messages tc) (ts_list_dlq_messages ts)"

lemma trait_request_impl: "trait_request (rs_broker_impl ul sd show_status svc) req (rt, s) = grpc_serve ul sd svc req rt s"
  by (cases req) (simp_all add: rs_broker_impl_def)

lemma trait_request_stub: "trait_request (stub_broker_impl svc) req t = (stub_serve svc req, t)"
  by (cases req) (simp_all add: stub_broker_impl_def stub_unimplemented_def)

text \<open>The arm of each path.\<close>

lemma arm_publish:
  "rq_path rq = ''/rsbroker.RsBroker/Publish'' \<Longrightarrow>
   rs_broker_serve ts srv rq t = ts_publish ts (call_config srv) (rb_publish (sv_inner srv)) rq t"
  by (simp add: rs_broker_serve_def serve_publish_def)

lemma arm_publish_batch:
  "rq_path rq = ''/rsbroker.RsBroker/PublishBatch'' \<Longrightarrow>
   rs_broker_serve ts srv rq t = ts_publish_batch ts (call_config srv) (rb_publish_batch (sv_inner srv)) rq t"
  by (simp add: rs_broker_serve_def serve_publish_batch_def)

lemma arm_get_message_status:
  "rq_path rq = ''/rsbroker.RsBroker/GetMessageStatus'' \<Longrightarrow>
   rs_broker_serve ts srv rq t = ts_get_message_status ts (call_config srv) (rb_get_message_status (sv_inner srv)) rq t"
  by (simp add: rs_broker_serve_def serve_get_message_status_def)

lemma arm_cancel_message:
  "rq_path rq = ''/rsbroker.RsBroker/CancelMessage'' \<Longrightarrow>
   rs_broker_serve ts srv rq t = ts_cancel_message ts (call_config srv) (rb_cancel_message (sv_inner srv)) rq t"
  by (simp add: rs_broker_serve_def serve_cancel_message_def)

lemma arm_register_subscriber:
  "rq_path rq = ''/rsbroker.RsBroker/RegisterSubscriber'' \<Longrightarrow>
   rs_broker_serve ts srv rq t = ts_register_subscriber ts (call_config srv) (rb_register_subscriber (sv_inner srv)) rq t"
  by (simp add: rs_broker_serve_def serve_register_subscriber_def)

lemma arm_unregister_subscriber:
  "rq_path rq = ''/rsbroker.RsBroker/UnregisterSubscriber'' \<Longrightarrow>
   rs_broker_serve ts srv rq t = ts_unregister_subscriber ts (call_config srv) (rb_unregister_subscriber (sv_inner srv)) rq t"
  by (simp add: rs_broker_serve_def serve_unregister_subscriber_def)

lemma arm_update_subscriber:
  "rq_path rq = ''/rsbroker.RsBroker/UpdateSubscriber'' \<Longrightarrow>
   rs_broker_serve ts srv rq t = ts_update_subscriber ts (call_config srv) (rb_update_subscriber (sv_inner srv)) rq t"
  by (simp add: rs_broker_serve_def serve_update_subscriber_def)

lemma arm_list_subscribers:
  "rq_path rq = ''/rsbroker.RsBroker/ListSubscribers'' \<Longrightarrow>
   rs_broker_serve ts srv rq t = ts_list_subscribers ts (call_config srv) (rb_list_subscribers (sv_inner srv)) rq t"
  by (simp add: rs_broker_serve_def serve_list_subscribers_def)

lemma arm_subscribe_events:
  "rq_path rq = ''/rsbroker.RsBroker/SubscribeEvents'' \<Longrightarrow>
   rs_broker_serve ts srv rq t = ts_subscribe_events ts (call_config srv) (rb_subscribe_events (sv_inner srv)) rq t"
  by (simp add: rs_broker_serve_def serve_subscribe_events_def)

lemma arm_stream_publish:
  "rq_path rq = ''/rsbroker.RsBroker/StreamPublish'' \<Longrightarrow>
   rs_broker_serve ts srv rq t = ts_stream_publish ts (call_config srv) (rb_stream_publish (sv_inner srv)) rq t"
  by (simp add: rs_broker_serve_def serve_stream_publish_def)

lemma arm_get_health:
  "rq_path rq = ''/rsbroker.RsBroker/GetHealth'' \<Longrightarrow>
   rs_broker_serve ts srv rq t = ts_get_health ts (call_config srv) (rb_get_health (sv_inner srv)) rq t"
  by (simp add: rs_broker_serve_def serve_get_health_def)

lemma arm_reprocess_dlq:
  "rq_path rq = ''/rsbroker.RsBroker/ReprocessDlq'' \<Longrightarrow>
   rs_broker_serve ts srv rq t = ts_reprocess_dlq ts (call_config srv) (rb_reprocess_dlq (sv_inner srv)) rq t"
  by (simp add: rs_broker_serve_def serve_reprocess_dlq_def)

lemma arm_list_dlq_messages:
  "rq_path rq = ''/rsbroker.RsBroker/ListDlqMessages'' \<Longrightarrow>
   rs_broker_serve ts srv rq t = ts_list_dlq_messages ts (call_config srv) (rb_list_dlq_messages (sv_inner srv)) rq t"
  by (simp add: rs_broker_serve_def serve_list_dlq_messages_def)

lemma client_call:
  assumes "carries (call_config srv) f q (snd (tc_ready tc t)) (rs_broker_serve ts srv) g call run"
    and "\<And>rq t. rq_path rq = path \<Longrightarrow> rs_broker_serve ts srv rq t = run (call_config srv) f rq t"
  shows "when_ready tc (call path m q) t = when_ready tc (f (g q)) t"
  by (rule when_ready_cong) (rule carriesD [OF assms])

lemma apfst_when_ready: "apfst (map_ok h) (when_ready tc call t) = when_ready tc (\<lambda>t. apfst (map_ok h) (call t)) t"
  by (simp add: when_ready_def split: sum.split prod.split)

lemma client_request_trait:
  assumes "carries_request tc ts srv req (snd (tc_ready tc t))"
  shows "client_request tc req t = when_ready tc (trait_request (sv_inner srv) req) t"
proof (cases req)
  case (Req_Publish q)
  with assms have "carries (call_config srv) (rb_publish (sv_inner srv)) q (snd (tc_ready tc t))
      (rs_broker_serve ts srv) id (tc_publish tc) (ts_publish ts)" by simp
  note call = client_call [where path = "''/rsbroker.RsBroker/Publish''" and m = "(''rsbroker.RsBroker'', ''Publish'')" and tc = tc and t = t and q = q,
    OF this arm_publish]
  have "trait_request (sv_inner srv) (Req_Publish q) = (\<lambda>t. apfst (map_ok Rep_Publish) (rb_publish (sv_inner srv) q t))" by auto
  with call Req_Publish show ?thesis
    by (simp add: client_publish_def apfst_when_ready [symmetric])
next
  case (Req_Publish_Batch q)
  with assms have "carries (call_config srv) (rb_publish_batch (sv_inner srv)) q (snd (tc_ready tc t))
      (rs_broker_serve ts srv) id (tc_publish_batch tc) (ts_publish_batch ts)" by simp
  note call = client_call [where path = "''/rsbroker.RsBroker/PublishBatch''" and m = "(''rsbroker.RsBroker'', ''PublishBatch'')" and tc = tc and t = t and q = q,
    OF this arm_publish_batch]
  have "trait_request (sv_inner srv) (Req_Publish_Batch q) = (\<lambda>t. apfst (map_ok Rep_Publish_Batch) (rb_publish_batch (sv_inner srv) q t))" by auto
  with call Req_Publish_Batch show ?thesis
    by (simp add: client_publish_batch_def apfst_when_ready [symmetric])
next
  case (Req_Get_Message_Status q)
  with assms have "carries (call_config srv) (rb_get_message_status (sv_inner srv)) q (snd (tc_ready tc t))
      (rs_broker_serve ts srv) id (tc_get_message_status tc) (ts_get_message_status ts)" by simp
  note call = client_call [where path = "''/rsbroker.RsBroker/GetMessageStatus''" and m = "(''rsbroker.RsBroker'', ''GetMessageStatus'')" and tc = tc and t = t and q = q,
    OF this arm_get_message_status]
  have "trait_request (sv_inner srv) (Req_Get_Message_Status q) = (\<lambda>t. apfst (map_ok Rep_Get_Message_Status) (rb_get_message_status (sv_inner srv) q t))" by auto
  with call Req_Get_Message_Status show ?thesis
    by (simp add: client_get_message_status_def apfst_when_ready [symmetric])
next
  case (Req_Cancel_Message q)
  with assms have "carries (call_config srv) (rb_cancel_message (sv_inner srv)) q (snd (tc_ready tc t))
      (rs_broker_serve ts srv) id (tc_cancel_message tc) (ts_cancel_message ts)" by simp
  note call = client_call [where path = "''/rsbroker.RsBroker/CancelMessage''" and m = "(''rsbroker.RsBroker'', ''CancelMessage'')" and tc = tc and t = t and q = q,
    OF this arm_cancel_message]
  have "trait_request (sv_inner srv) (Req_Cancel_Message q) = (\<lambda>t. apfst (map_ok Rep_Cancel_Message) (rb_cancel_message (sv_inner srv) q t))" by auto
  with call Req_Cancel_Message show ?thesis
    by (simp add: client_cancel_message_def apfst_when_ready [symmetric])
next
  case (Req_Register_Subscriber q)
  with assms have "carries (call_config srv) (rb_register_subscriber (sv_inner srv)) q (snd (tc_ready tc t))
      (rs_broker_serve ts srv) id (tc_register_subscriber tc) (ts_register_subscriber ts)" by simp
  note call = client_call [where path = "''/rsbroker.RsBroker/RegisterSubscriber''" and m = "(''rsbroker.RsBroker'', ''RegisterSubscriber'')" and tc = tc and t = t and q = q,
    OF this arm_register_subscriber]
  have "trait_request (sv_inner srv) (Req_Register_Subscriber q) = (\<lambda>t. apfst (map_ok Rep_Register_Subscriber) (rb_register_subscriber (sv_inner srv) q t))" by auto
  with call Req_Register_Subscriber show ?thesis
    by (simp add: client_register_subscriber_def apfst_when_ready [symmetric])
next
  case (Req_Unregister_Subscriber q)
  with assms have "carries (call_config srv) (rb_unregister_subscriber (sv_inner srv)) q (snd (tc_ready tc t))
      (rs_broker_serve ts srv) id (tc_unregister_subscriber tc) (ts_unregister_subscriber ts)" by simp
  note call = client_call [where path = "''/rsbroker.RsBroker/UnregisterSubscriber''" and m = "(''rsbroker.RsBroker'', ''UnregisterSubscriber'')" and tc = tc and t = t and q = q,
    OF this arm_unregister_subscriber]
  have "trait_request (sv_inner srv) (Req_Unregister_Subscriber q) = (\<lambda>t. apfst (map_ok Rep_Unregister_Subscriber) (rb_unregister_subscriber (sv_inner srv) q t))" by auto
  with call Req_Unregister_Subscriber show ?thesis
    by (simp add: client_unregister_subscriber_def apfst_when_ready [symmetric])
next
  case (Req_Update_Subscriber q)
  with assms have "carries (call_config srv) (rb_update_subscriber (sv_inner srv)) q (snd (tc_ready tc t))
      (rs_broker_serve ts srv) id (tc_update_subscriber tc) (ts_update_subscriber ts)" by simp
  note call = client_call [where path = "''/rsbroker.RsBroker/UpdateSubscriber''" and m = "(''rsbroker.RsBroker'', ''UpdateSubscriber'')" and tc = tc and t = t and q = q,
    OF this arm_update_subscriber]
  have "trait_request (sv_inner srv) (Req_Update_Subscriber q) = (\<lambda>t. apfst (map_ok Rep_Update_Subscriber) (rb_update_subscriber (sv_inner srv) q t))" by auto
  with call Req_Update_Subscriber show ?thesis
    by (simp add: client_update_subscriber_def apfst_when_ready [symmetric])
next
  case (Req_List_Subscribers q)
  with assms have "carries (call_config srv) (rb_list_subscribers (sv_inner srv)) q (snd (tc_ready tc t))
      (rs_broker_serve ts srv) id (tc_list_subscribers tc) (ts_list_subscribers ts)" by simp
  note call = client_call [where path = "''/rsbroker.RsBroker/ListSubscribers''" and m = "(''rsbroker.RsBroker'', ''ListSubscribers'')" and tc = tc and t = t and q = q,
    OF this arm_list_subscribers]
  have "trait_request (sv_inner srv) (Req_List_Subscribers q) = (\<lambda>t. apfst (map_ok Rep_List_Subscribers) (rb_list_subscribers (sv_inner srv) q t))" by auto
  with call Req_List_Subscribers show ?thesis
    by (simp add: client_list_subscribers_def apfst_when_ready [symmetric])
next
  case (Req_Get_Health q)
  with assms have "carries (call_config srv) (rb_get_health (sv_inner srv)) q (snd (tc_ready tc t))
      (rs_broker_serve ts srv) id (tc_get_health tc) (ts_get_health ts)" by simp
  note call = client_call [where path = "''/rsbroker.RsBroker/GetHealth''" and m = "(''rsbroker.RsBroker'', ''GetHealth'')" and tc = tc and t = t and q = q,
    OF this arm_get_health]
  have "trait_request (sv_inner srv) (Req_Get_Health q) = (\<lambda>t. apfst (map_ok Rep_Get_Health) (rb_get_health (sv_inner srv) q t))" by auto
  with call Req_Get_Health show ?thesis
    by (simp add: client_get_health_def apfst_when_ready [symmetric])
next
  case (Req_Reprocess_Dlq q)
  with assms have "carries (call_config srv) (rb_reprocess_dlq (sv_inner srv)) q (snd (tc_ready tc t))
      (rs_broker_serve ts srv) id (tc_reprocess_dlq tc) (ts_reprocess_dlq ts)" by simp
  note call = client_call [where path = "''/rsbroker.RsBroker/ReprocessDlq''" and m = "(''rsbroker.RsBroker'', ''ReprocessDlq'')" and tc = tc and t = t and q = q,
    OF this arm_reprocess_dlq]
  have "trait_request (sv_inner srv) (Req_Reprocess_Dlq q) = (\<lambda>t. apfst (map_ok Rep_Reprocess_Dlq) (rb_reprocess_dlq (sv_inner srv) q t))" by auto
  with call Req_Reprocess_Dlq show ?thesis
    by (simp add: client_reprocess_dlq_def apfst_when_ready [symmetric])
next
  case (Req_List_Dlq_Messages q)
  with assms have "carries (call_config srv) (rb_list_dlq_messages (sv_inner srv)) q (snd (tc_ready tc t))
      (rs_broker_serve ts srv) id (tc_list_dlq_messages tc) (ts_list_dlq_messages ts)" by simp
  note call = client_call [where path = "''/rsbroker.RsBroker/ListDlqMessages''" and m = "(''rsbroker.RsBroker'', ''ListDlqMessages'')" and tc = tc and t = t and q = q,
    OF this arm_list_dlq_messages]
  have "trait_request (sv_inner srv) (Req_List_Dlq_Messages q) = (\<lambda>t. apfst (map_ok Rep_List_Dlq_Messages) (rb_list_dlq_messages (sv_inner srv) q t))" by auto
  with call Req_List_Dlq_Messages show ?thesis
    by (simp add: client_list_dlq_messages_def apfst_when_ready [symmetric])
qed

end
