(* ===== verification/Wire_System.thy ===== *)
theory Wire_System
  imports Wire_Rpc Service_System
begin

text \<open>
  Client, server and service composed: a call of a client's stub over the wire is a call of the service
  (\<open>wire_call\<close>) when tonic carries it, the streams likewise, the callback service, and what a request for another path gets.
\<close>

section \<open>Streams and the callback service\<close>

lemma client_subscribe_events_trait:
  assumes "carries (call_config srv) (rb_subscribe_events (sv_inner srv)) q (snd (tc_ready tc t))
      (rs_broker_serve ts srv) id (tc_subscribe_events tc) (ts_subscribe_events ts)"
  shows "client_subscribe_events tc q t = when_ready tc (rb_subscribe_events (sv_inner srv) q) t"
  using client_call [where path = "''/rsbroker.RsBroker/SubscribeEvents''" and m = "(''rsbroker.RsBroker'', ''SubscribeEvents'')"
      and tc = tc and t = t and q = q, OF assms arm_subscribe_events]
  by (simp add: client_subscribe_events_def)

text \<open>The server sees every request of a client's stream as an item that arrived.\<close>

lemma client_stream_publish_trait:
  assumes "carries (call_config srv) (rb_stream_publish (sv_inner srv)) q (snd (tc_ready tc t))
      (rs_broker_serve ts srv) (map Ok) (tc_stream_publish tc) (ts_stream_publish ts)"
  shows "client_stream_publish tc q t = when_ready tc (rb_stream_publish (sv_inner srv) (map Ok q)) t"
  using client_call [where path = "''/rsbroker.RsBroker/StreamPublish''" and m = "(''rsbroker.RsBroker'', ''StreamPublish'')"
      and tc = tc and t = t and q = q, OF assms arm_stream_publish]
  by (simp add: client_stream_publish_def)

lemma client_deliver_trait:
  assumes "carries (call_config srv) (cb_deliver (sv_inner srv)) q (snd (tc_ready tc t))
      (rs_broker_callback_serve run srv) id call run"
  shows "client_deliver tc call q t = when_ready tc (cb_deliver (sv_inner srv) q) t"
proof -
  have "call ''/rsbroker.RsBrokerCallback/Deliver'' m q (snd (tc_ready tc t)) = cb_deliver (sv_inner srv) (id q) (snd (tc_ready tc t))" for m
    by (rule carriesD [OF assms]) (simp add: rs_broker_callback_serve_def)
  then show ?thesis unfolding client_deliver_def by (intro when_ready_cong) simp
qed

text \<open>A path of neither a stub nor the routing table is answered without touching the service.\<close>

lemma unknown_path:
  assumes "rs_broker_server_call (rq_path rq) = None"
  shows "rs_broker_serve ts srv rq t = (unimplemented_response, t)"
  using assms by (simp add: rs_broker_server_call_def rs_broker_serve_def split: if_splits)

section \<open>Calls over the wire\<close>

lemma client_not_ready: "tc_ready tc t = (Err e, t1) \<Longrightarrow> client_request tc req t = (Err (not_ready e), t1)"
  by (cases req) (simp_all add: client_publish_def client_publish_batch_def client_get_message_status_def
    client_cancel_message_def client_register_subscriber_def client_unregister_subscriber_def client_update_subscriber_def
    client_list_subscribers_def client_get_health_def client_reprocess_dlq_def client_list_dlq_messages_def when_ready_def)

text \<open>Let the server hold the service. A client's stub first asks whether the channel is ready; if it is not,
  the call ends with the status that says so and the service never sees it; otherwise, for a call that tonic carries,
  it has the answer, the error and the effect of the service's own method on the message.\<close>

theorem wire_call:
  assumes "sv_inner srv = rs_broker_impl ul sd show_status svc"
    and "is_ok (fst (tc_ready tc t)) \<Longrightarrow> carries_request tc ts srv req (snd (tc_ready tc t))"
  shows "client_request tc req t =
     (case tc_ready tc t of
        (Err e, t1) \<Rightarrow> (Err \<lparr>gs_code = Unknown, gs_message = ''Service was not ready: '' @ e\<rparr>, t1)
      | (Ok _, (rt, s)) \<Rightarrow> grpc_serve ul sd svc req rt s)"
proof -
  obtain r t1 where ready: "tc_ready tc t = (r, t1)" by (metis surj_pair)
  show ?thesis
  proof (cases r)
    case (Inl e)
    with ready client_not_ready [of tc t e t1 req] show ?thesis by (simp add: not_ready_def)
  next
    case (Inr u)
    with ready assms(2) client_request_trait [of tc ts srv req t] assms(1) show ?thesis
      by (simp add: when_ready_def trait_request_impl split: prod.split)
  qed
qed

end
