(* ===== verification/Spec2Isabelle.thy ===== *)
theory Spec2Isabelle
  imports Topic Config Outbox_System Accept Dedup Db_Inbox Db_Subscriber Reprocess
    Service_System Grpc Kafka Consumer_Loop Callback
    Interleaving End_To_End Outbox_Drain Inbound_System Fan_Out App_System Mysql_System Wire_System
begin

text \<open>
  rs-broker is a message broker around a transactional outbox and inbox. Clients publish over gRPC or
  REST; a message is stored in an outbox (Postgres, or MySQL as a build feature), and a background worker drains the outbox to Kafka,
  retrying, dead-lettering and reprocessing what fails. A consumer stores the messages of Kafka in an
  inbox, calls the subscribers whose topic patterns match, behind circuit breakers, and broadcasts an
  event to every open stream. This development models the Rust code under \<open>src/crates\<close>; below,
  \<open>core\<close> stands for \<open>rs-broker-core/src/features\<close> and \<open>server\<close> for \<open>rs-broker-server/src\<close>.

  How the model reads. A struct is a record, an enum a datatype, a Rust integer a word of its width, a
  \<open>String\<close> or byte vector a list of bytes (\<open>char\<close>), \<open>Result\<close> a sum with \<open>Ok\<close> and \<open>Err\<close>. A trait object is a
  record of functions over the state \<open>'s\<close> of whatever implements it (\<open>outbox_repository\<close>,
  \<open>inbox_repository\<close>, \<open>dlq_repository\<close>, \<open>subscriber_repository\<close>, \<open>message_sink\<close>), and a function of the code
  that calls it takes and returns that state. The clock and the generator of identifiers are a
  \<open>runtime\<close> that is threaded through. Each port has a locale with the laws its users need; the
  use cases are proved in the locale, and the Postgres repository (for dead letters the MySQL one, too)
  interprets it, so that every property below speaks of the code's own implementation. An \<open>await\<close> where another task can interfere
  is a boundary between steps: of the inductive relations \<open>fan_run\<close> and \<open>pool_step\<close>, or of
  definitions that a property composes with an interfering operation between them.

  Theories, in the order of their imports:

  Foundations. \<open>Prelude\<close>: machine integers, bytes, \<open>Ok\<close> and \<open>Err\<close>, \<open>starts_with\<close>, \<open>trim\<close> with Unicode's
  white space, decimal printing.
  \<open>Runtime\<close>: the libraries outside the repository as parameters: \<open>uuid_lib\<close> (parse, print,
  \<open>now_v7\<close>), \<open>serde\<close> (JSON from and to bytes), \<open>float_lib\<close>, the clock; each with an instance for witnesses.
  \<open>Fifo_Cache\<close>: the contract of a bounded first-in first-out memory.

  Configuration, \<open>Config\<close> (\<open>rs-broker-config/src\<close>): all settings with their defaults, the connection URL,
  the topic list. \<open>Topic\<close> (\<open>shared/topic.rs\<close>): the allocation-free matcher, with a refinement to
  matching over lists of segments. \<open>Retry\<close> (\<open>core/publishing/retry.rs\<close>) and \<open>Core_Error\<close>.

  Publishing. \<open>Outbox\<close> (\<open>domain.rs\<close>, \<open>ports.rs\<close>, \<open>manager.rs\<close>): the message, its status ladder, the port
  and its locale \<open>outbox_port\<close> over a ledger that maps identifiers to entries. \<open>Accept\<close>
  (\<open>accept.rs\<close>): validation and storage of one request and of a batch. \<open>Publisher\<close>
  (\<open>publisher.rs\<close>): \<open>drain\<close> is the loop of a round, \<open>settle_failure\<close> its error path, \<open>worker\<close> the
  background task; a round refines \<open>spec_round\<close> on the ledger. \<open>Outbox_System\<close>: both on Postgres.
  \<open>Outbox_Drain\<close>: the progress of the task: what an attempt does to an entry (\<open>attempted\<close>), the attempts left
  in the table (\<open>budget\<close>), and that every tick uses some up until nothing is due.

  Database. \<open>Sql\<close>: tables, constraints, statements, and a script of outside events: any statement may
  fail before or after it took effect, and the clock advances between statements. \<open>Db_Table\<close>:
  the locale \<open>db_table\<close> of a table read as a map. \<open>Db_Outbox\<close>, \<open>Db_Inbox\<close>, \<open>Db_Dlq\<close>, \<open>Db_Subscriber\<close>
  (\<open>rs-broker-db/src/*/repository.rs\<close>): each method of the Postgres repositories, their
  invariants, and the interpretations of the port locales. \<open>Db_Mysql\<close> and \<open>Mysql_System\<close>: the MySQL
  variants of the outbox, inbox and dead-letter repositories over the same tables, and the publisher on them.

  Consuming. \<open>Inbox\<close>, \<open>Dedup\<close> (\<open>core/consuming\<close>): entity, manager and deduplicator. \<open>Subscription\<close>
  (\<open>core/subscription\<close>). \<open>Breaker\<close> and \<open>Delivery\<close> (\<open>core/delivery/dispatcher.rs\<close>): the circuit
  breaker, one delivery in its two critical sections, and the concurrent fan-out: \<open>fan_step\<close> is one step of one
  delivery in flight, \<open>fan_run\<close> every run of the fan-out of a topic, with the periodic refresh cutting in where
  that is allowed. \<open>Fan_Out\<close>: every run ends with one result for each subscriber, and amounts to delivering to
  one subscriber after the other, which is how \<open>dispatch_to_all\<close> and what is built on it read. \<open>Dispatch\<close>
  (\<open>core/consuming/dispatcher.rs\<close>): the subscriber cache and the dispatcher. \<open>Dead_Letter\<close>
  (\<open>core/dead_letter\<close>) and \<open>Reprocess\<close>: parked messages and their way back into the outbox.

  Transport. \<open>Kafka\<close> (\<open>rs-broker-kafka/src\<close>): client settings, errors, headers, producer, sink and consumer
  stream over a driver that is a parameter. \<open>Proto\<close> (\<open>rs-broker-proto/src/rsbroker.rs\<close>): messages,
  enums and routes. \<open>Service\<close> and \<open>Service_System\<close> (\<open>server/grpc/service.rs\<close>): the bodies both APIs
  share, and the streaming methods. \<open>Rest_Dto\<close> and \<open>Rest_Routes\<close> (\<open>server/http\<close>): JSON shapes, error
  mapping, handlers, router and the SSE stream. \<open>Grpc\<close>: the trait methods, the service of the build
  without a database, and the gRPC request that a REST call amounts to. \<open>Consumer_Loop\<close> (\<open>server/app.rs\<close>): the loop from
  Kafka to inbox, subscribers and streams. \<open>Callback\<close> (\<open>server/adapters/callback.rs\<close>): the channel pool
  and the notifier. \<open>Wire_Rpc\<close> (\<open>rsbroker.rs\<close>, \<open>service.rs\<close>): the trait \<open>RsBroker\<close> as a record of methods with its
  two implementations, the server with one arm per method, and the client's stubs, over tonic as a record
  of parameters; \<open>Wire_System\<close> composes client, server and service, for the calls that tonic carries.

  Process. \<open>Metrics\<close> (\<open>server/metrics.rs\<close>): the metrics and their recording methods over the prometheus
  crate; nothing in the repository calls the recording methods. \<open>Startup\<close>: the layers of the configuration, the connection pool, the migrations, the Kafka clients.
  \<open>App\<close> (\<open>server/app.rs\<close>, \<open>main.rs\<close>): the builder, the router and \<open>run\<close>, which reports how a run ends and what
  happened in which order and what the publisher's task is told (also when \<open>run\<close> leaves early and drops it); the
  outcomes of binding and serving are parameters. \<open>App_System\<close>: its properties.

  Whole system. \<open>Interleaving\<close>: the database under any sequence of repository calls, which is what any
  set of concurrent tasks amounts to. \<open>End_To_End\<close>: a message from the REST request to the Kafka driver.
  \<open>Inbound_System\<close>: a message from Kafka to the subscribers that the database holds, with the calls each of
  them receives, and the refresh of the dispatcher from the table.

  What is shown. Outbox: whatever statements fail, a round neither loses nor alters a message, and
  only an accepted message becomes published; a round refines its abstract version; claims within the
  lease are disjoint; every due message is claimed; on an undisturbed database a bounded number of ticks
  settles every message, and an outage of the broker that is shorter than the retry ladder costs none.
  Acceptance, from one request up to gRPC, streams and
  REST: success means exactly one new pending message with the content of the request. Dead letters:
  reprocessing never drops a message without a copy in the outbox. Subscribers and delivery: the
  breaker refines an abstract one; the endpoints follow the stored subscribers and keep their breakers; the
  concurrent fan-out ends with one result for each subscriber and amounts to a sequential one. Consumer: batches
  are stored whole or lost, and everything readable is broadcast once, in order; a subscriber that answers is
  called once for each matching message, whatever the others do. Service: what cancelling,
  updating, patching and listing do on every path, and which HTTP status comes with which effect. Wire: a
  client's call that is carried is a call of the service. Process: what stops the start, the order
  in which the parts start and stop, and which settings matter at all. MySQL: a single undisturbed publisher is
  served as by Postgres, a batch is atomic, and what its statements make impossible. Whole system: no interleaving of the tasks loses or alters a message. Some
  properties state behaviour a reader may not expect: a cancelled message that is still sent, a stale
  publisher that takes a published message back, deliveries refused by a subscriber that count as successes.

  Loops and bounds. Loops over a list are structural; the matcher recurses on a shorter rest of the
  pattern; the fan-out has the measure \<open>fan_work\<close>. A task that runs until shutdown is a function of
  the list of its events, of any length, so no fuel is needed; how many ticks suffice is part of the
  property that says so (the sum of the attempts left, or the number of rows). Counters keep their width: a retry
  counter is 32 bits, and a property that needs it not to overflow says so.

  Hypotheses on parameters. Laws on \<open>uuid_lib\<close> (a printed identifier reads back, different ones print
  differently) are named in \<open>Runtime\<close>. \<open>undisturbed\<close> (theory \<open>Sql\<close>): no statement of the database fails, no row is
  locked by another transaction and its clock stands still; only what is said of progress and of success needs it.
  \<open>axum_panics\<close>: routing a malformed or taken path panics. \<open>carries\<close>: tonic carries one call, its message and its
  reply being within the limits of size and compression. Nothing is assumed of JSON, Base64, floating-point
  arithmetic or the prometheus crate: the properties say what is stored and delivered in terms of what these
  libraries answer. Whether MySQL has \<open>UPDATE .. RETURNING\<close> is a parameter, too.

  Not modelled. The MySQL variant of the subscriber repository, which does not compile: it gives an
  \<open>sqlx::Error\<close> where a \<open>String\<close> is wanted. What the MySQL schema would be: the repository ships one set of
  migrations, for Postgres, and the model reads the MySQL statements over its tables. Waiting for the shutdown
  signal, the sockets and the spawned gRPC server, whose failure the code only logs. Inside
  \<open>rsbroker.rs\<close>, connecting, interceptors and the client settings handed on to tonic; the encoding of
  prost. axum's extractors; the buffering of tokio's broadcast channel, whose lag is an item of the stream. Log
  output. In Postgres, the normalisation of JSONB, NUL bytes in text and the trimming of blanks
  beyond 255 characters.
\<close>

end
